(* ===== verification/Prelude.thy ===== *)
theory Prelude
  imports Main "HOL-Library.Word" "HOL-Library.Sublist"
begin

text \<open>
  Shared vocabulary of the development: Go's error results as a sum type (a run-time panic is a
  value of the error type, so that its absence is a theorem), byte strings, and the functions of
  Go's package \<^verbatim>\<open>strings\<close> that the proxy calls. A Go string is a sequence of bytes, which is what
  HOL's \<^typ>\<open>string\<close> is (a list of 8-bit characters); a \<^verbatim>\<open>[]byte\<close> is a list of 8-bit words.
\<close>

unbundle bit_operations_syntax

named_theorems go_simps \<open>unfolding rules for the result monad and the string functions\<close>
named_theorems go_elims \<open>inversion rules for successful results\<close>

type_synonym byte = "8 word"
type_synonym bytes = "8 word list"
type_synonym time = int  \<comment> \<open>nanoseconds since the Unix epoch\<close>

section \<open>Results\<close>

datatype go_error =
    NewErr string            \<comment> \<open>\<^verbatim>\<open>errors.New\<close>\<close>
  | Errorf string "string list"            \<comment> \<open>\<^verbatim>\<open>fmt.Errorf\<close>: format and arguments\<close>
  | Wrapf string "string list" go_error    \<comment> \<open>\<^verbatim>\<open>fmt.Errorf\<close> with a last \<^verbatim>\<open>%w\<close> argument\<close>
  | EOF                      \<comment> \<open>\<^verbatim>\<open>io.EOF\<close>\<close>
  | UnexpectedEOF            \<comment> \<open>\<^verbatim>\<open>io.ErrUnexpectedEOF\<close>\<close>
  | ErrClosed                \<comment> \<open>\<^verbatim>\<open>net.ErrClosed\<close>\<close>
  | ErrClosedPipe            \<comment> \<open>\<^verbatim>\<open>io.ErrClosedPipe\<close>\<close>
  | ErrDeadlineExceeded      \<comment> \<open>\<^verbatim>\<open>os.ErrDeadlineExceeded\<close>\<close>
  | Panic                    \<comment> \<open>an index or slice out of range\<close>

type_synonym 'a result = "go_error + 'a"

text \<open>\<^verbatim>\<open>errors.Is\<close> looks through the wrapped errors.\<close>

fun errors_Is :: "go_error \<Rightarrow> go_error \<Rightarrow> bool" where
  "errors_Is (Wrapf f as e) t \<longleftrightarrow> Wrapf f as e = t \<or> errors_Is e t"
| "errors_Is e t \<longleftrightarrow> e = t"

definition tryR :: "'e + 'a \<Rightarrow> ('a \<Rightarrow> 'e + 'b) \<Rightarrow> 'e + 'b" where
  "tryR m f = (case m of Inl e \<Rightarrow> Inl e | Inr x \<Rightarrow> f x)"

lemma tryR_simps [simp]:
  "tryR (Inl e) f = Inl e"
  "tryR (Inr x) f = f x"
  by (simp_all add: tryR_def)

lemma tryR_cong [fundef_cong]:
  "m = m' \<Longrightarrow> (\<And>x. m' = Inr x \<Longrightarrow> f x = f' x) \<Longrightarrow> tryR m f = tryR m' f'"
  by (simp add: tryR_def split: sum.splits)

lemma tryR_Inr_iff [go_simps]: "tryR m f = Inr y \<longleftrightarrow> (\<exists>x. m = Inr x \<and> f x = Inr y)"
  by (cases m) simp_all

lemma tryR_Inl_iff [go_simps]:
  "tryR m f = Inl e \<longleftrightarrow> m = Inl e \<or> (\<exists>x. m = Inr x \<and> f x = Inl e)"
  by (cases m) simp_all

lemma if_Inl_Inr [simp]: "(if b then Inl e else m) = Inr y \<longleftrightarrow> \<not> b \<and> m = Inr y"
  by simp

lemma if_Inr_Inl [simp]: "(if b then Inr x else m) = Inl e \<longleftrightarrow> \<not> b \<and> m = Inl e"
  by simp

text \<open>A Go slice expression or index panics out of range.\<close>

definition index_go :: "'a list \<Rightarrow> nat \<Rightarrow> 'a result" where
  "index_go xs i = (if i < length xs then Inr (xs ! i) else Inl Panic)"

definition slice_to :: "'a list \<Rightarrow> nat \<Rightarrow> 'a list result" where
  "slice_to xs n = (if n \<le> length xs then Inr (take n xs) else Inl Panic)"

definition slice_from :: "'a list \<Rightarrow> nat \<Rightarrow> 'a list result" where
  "slice_from xs n = (if n \<le> length xs then Inr (drop n xs) else Inl Panic)"

lemma index_go_ok [simp]: "i < length xs \<Longrightarrow> index_go xs i = Inr (xs ! i)"
  by (simp add: index_go_def)

lemma slice_to_ok [simp]: "n \<le> length xs \<Longrightarrow> slice_to xs n = Inr (take n xs)"
  by (simp add: slice_to_def)

lemma slice_from_ok [simp]: "n \<le> length xs \<Longrightarrow> slice_from xs n = Inr (drop n xs)"
  by (simp add: slice_from_def)

text \<open>That a computation does not panic, rule by rule.\<close>

lemma tryR_no_panic: "r \<noteq> Inl Panic \<Longrightarrow> (\<And>x. r = Inr x \<Longrightarrow> f x \<noteq> Inl Panic) \<Longrightarrow> tryR r f \<noteq> Inl Panic"
  by (cases r) auto

lemma if_no_panic: "(c \<Longrightarrow> a \<noteq> Inl Panic) \<Longrightarrow> (\<not> c \<Longrightarrow> b \<noteq> Inl Panic) \<Longrightarrow> (if c then a else b) \<noteq> Inl Panic"
  by simp

lemma case_no_panic: "(\<And>a b. x = (a, b) \<Longrightarrow> f a b \<noteq> Inl Panic) \<Longrightarrow> (case x of (a, b) \<Rightarrow> f a b) \<noteq> Inl Panic"
  by (cases x) simp

lemma slice_no_panic:
  "n \<le> length b \<Longrightarrow> slice_to b n \<noteq> Inl Panic" "n \<le> length b \<Longrightarrow> slice_from b n \<noteq> Inl Panic"
  by simp_all

section \<open>Bytes and strings\<close>

definition string_of_bytes :: "bytes \<Rightarrow> string" where
  "string_of_bytes = map (\<lambda>b. char_of (unat b))"

definition bytes_of_string :: "string \<Rightarrow> bytes" where
  "bytes_of_string = map (\<lambda>c. word_of_nat (of_char c))"

lemma of_char_less_256: "(of_char c :: nat) < 256"
  using of_char_mod_256 [of c, where ?'a = nat] by (metis mod_less_divisor zero_less_numeral)

lemma string_of_bytes_of_string [simp]: "string_of_bytes (bytes_of_string s) = s"
  by (induction s)
    (simp_all add: string_of_bytes_def bytes_of_string_def unat_of_nat of_char_less_256)

lemma bytes_of_string_of_bytes [simp]: "bytes_of_string (string_of_bytes b) = b"
proof (induction b)
  case (Cons w b)
  have "unat w < 256" using unsigned_less [of w, where ?'a = nat] by simp
  then have "(of_char (char_of (unat w) :: char) :: nat) = unat w" by simp
  with Cons show ?case by (simp add: string_of_bytes_def bytes_of_string_def)
qed (simp add: string_of_bytes_def bytes_of_string_def)

lemma length_string_of_bytes [simp]: "length (string_of_bytes b) = length b"
  by (simp add: string_of_bytes_def)

lemma length_bytes_of_string [simp]: "length (bytes_of_string s) = length s"
  by (simp add: bytes_of_string_def)

lemma string_of_bytes_append [simp]: "string_of_bytes (a @ b) = string_of_bytes a @ string_of_bytes b"
  by (simp add: string_of_bytes_def)

lemma bytes_of_string_append [simp]: "bytes_of_string (a @ b) = bytes_of_string a @ bytes_of_string b"
  by (simp add: bytes_of_string_def)

lemma string_of_bytes_inj [simp]: "string_of_bytes a = string_of_bytes b \<longleftrightarrow> a = b"
  by (metis bytes_of_string_of_bytes)

lemma bytes_of_string_inj [simp]: "bytes_of_string a = bytes_of_string b \<longleftrightarrow> a = b"
  by (metis string_of_bytes_of_string)

abbreviation NUL :: char where "NUL \<equiv> CHR 0x00"
abbreviation LF :: char where "LF \<equiv> CHR 0x0A"

lemma string_of_bytes_Nil [simp]: "string_of_bytes b = [] \<longleftrightarrow> b = []"
  by (simp add: string_of_bytes_def)

lemma NUL_in_string_of_bytes [simp]: "NUL \<in> set (string_of_bytes b) \<longleftrightarrow> 0 \<in> set b"
proof -
  have "NUL = char_of (unat w) \<longleftrightarrow> w = 0" for w :: byte
  proof -
    have "unat w < 256" using unsigned_less [of w, where ?'a = nat] by simp
    then have "(of_char (char_of (unat w) :: char) :: nat) = unat w" by simp
    moreover have "(of_char NUL :: nat) = 0" by simp
    ultimately show ?thesis by (metis unat_eq_zero of_char_eq_iff)
  qed
  then show ?thesis by (simp add: string_of_bytes_def image_iff)
qed

lemma NUL_bytes: "NUL \<notin> set s \<Longrightarrow> 0 \<notin> set (bytes_of_string s)"
  by (metis NUL_in_string_of_bytes string_of_bytes_of_string)

lemma replicate_numeral: "replicate (numeral k) x = x # replicate (pred_numeral k) x"
  by (simp add: numeral_eq_Suc)

section \<open>Package strings\<close>

definition HasPrefix :: "string \<Rightarrow> string \<Rightarrow> bool" where
  "HasPrefix s p \<longleftrightarrow> take (length p) s = p"

definition HasSuffix :: "string \<Rightarrow> string \<Rightarrow> bool" where
  "HasSuffix s p \<longleftrightarrow> length p \<le> length s \<and> drop (length s - length p) s = p"

definition TrimPrefix :: "string \<Rightarrow> string \<Rightarrow> string" where
  "TrimPrefix s p = (if HasPrefix s p then drop (length p) s else s)"

definition TrimSuffix :: "string \<Rightarrow> string \<Rightarrow> string" where
  "TrimSuffix s p = (if HasSuffix s p then take (length s - length p) s else s)"

fun Contains :: "string \<Rightarrow> string \<Rightarrow> bool" where
  "Contains [] p \<longleftrightarrow> p = []"
| "Contains (c # s) p \<longleftrightarrow> HasPrefix (c # s) p \<or> Contains s p"

text \<open>\<^verbatim>\<open>strings.Split\<close> with a one-byte separator.\<close>

fun Split :: "string \<Rightarrow> char \<Rightarrow> string list" where
  "Split [] sep = [[]]"
| "Split (c # s) sep =
     (if c = sep then [] # Split s sep
      else case Split s sep of [] \<Rightarrow> [[c]] | f # fs \<Rightarrow> (c # f) # fs)"

fun Join :: "string list \<Rightarrow> string \<Rightarrow> string" where
  "Join [] sep = []"
| "Join [s] sep = s"
| "Join (s # t # ss) sep = s @ sep @ Join (t # ss) sep"

text \<open>\<^verbatim>\<open>strings.Cut\<close> with a one-byte separator: before, after, found.\<close>

fun Cut :: "string \<Rightarrow> char \<Rightarrow> string \<times> string \<times> bool" where
  "Cut [] sep = ([], [], False)"
| "Cut (c # s) sep =
     (if c = sep then ([], s, True)
      else case Cut s sep of (a, b, found) \<Rightarrow> (c # a, b, found))"

definition TrimRight :: "string \<Rightarrow> char \<Rightarrow> string" where
  "TrimRight s c = rev (dropWhile (\<lambda>x. x = c) (rev s))"

definition Trim :: "string \<Rightarrow> char \<Rightarrow> string" where
  "Trim s c = TrimRight (dropWhile (\<lambda>x. x = c) s) c"

text \<open>
  \<^verbatim>\<open>strings.ToLower\<close> maps a string of ASCII bytes byte by byte; any other string goes through
  the Unicode tables, which the parameter \<open>ul\<close> stands for.
\<close>

definition ascii_char :: "char \<Rightarrow> bool" where
  "ascii_char c \<longleftrightarrow> (of_char c :: nat) < 128"

definition lower_char :: "char \<Rightarrow> char" where
  "lower_char c = (let n = of_char c :: nat in if 65 \<le> n \<and> n \<le> 90 then char_of (n + 32) else c)"

definition ToLower :: "(string \<Rightarrow> string) \<Rightarrow> string \<Rightarrow> string" where
  "ToLower ul s = (if list_all ascii_char s then map lower_char s else ul s)"

text \<open>
  \<^verbatim>\<open>strings.Fields\<close>: the maximal runs between white space. Besides the ASCII white space, the
  UTF-8 encodings of the white space code points (U+0085, U+00A0, U+1680, U+2000 to U+200A,
  U+2028, U+2029, U+202F, U+205F, U+3000) separate fields; their lead bytes never occur inside
  another encoded code point, so matching them byte by byte is what decoding does.
\<close>

definition space_len :: "string \<Rightarrow> nat" where
  "space_len s = (case map (\<lambda>c. of_char c :: nat) (take 3 s) of
      [] \<Rightarrow> 0
    | a # r \<Rightarrow>
       if a = 32 \<or> (9 \<le> a \<and> a \<le> 13) then 1
       else case r of
          [] \<Rightarrow> 0
        | b # r' \<Rightarrow>
           if a = 0xC2 \<and> (b = 0x85 \<or> b = 0xA0) then 2
           else case r' of
              [] \<Rightarrow> 0
            | d # _ \<Rightarrow>
               if a = 0xE1 \<and> b = 0x9A \<and> d = 0x80
                 \<or> a = 0xE2 \<and> b = 0x80 \<and> (0x80 \<le> d \<and> d \<le> 0x8A \<or> d = 0xA8 \<or> d = 0xA9 \<or> d = 0xAF)
                 \<or> a = 0xE2 \<and> b = 0x81 \<and> d = 0x9F
                 \<or> a = 0xE3 \<and> b = 0x80 \<and> d = 0x80
               then 3 else 0)"

function fields_from :: "string \<Rightarrow> string \<Rightarrow> string list" where
  "fields_from cur [] = (if cur = [] then [] else [cur])"
| "fields_from cur (c # s) =
     (let k = space_len (c # s) in
      if k = 0 then fields_from (cur @ [c]) s
      else (if cur = [] then [] else [cur]) @ fields_from [] (drop k (c # s)))"
  by pat_completeness auto
termination
  by (relation "measure (\<lambda>(cur, s). length s)") (auto simp: Let_def)

definition Fields :: "string \<Rightarrow> string list" where
  "Fields s = fields_from [] s"

subsection \<open>Laws of the string functions\<close>

lemma HasPrefix_append [simp]: "HasPrefix (p @ s) p"
  by (simp add: HasPrefix_def)

lemma HasPrefix_iff: "HasPrefix s p \<longleftrightarrow> (\<exists>r. s = p @ r)"
  by (metis HasPrefix_append HasPrefix_def append_take_drop_id)

lemma HasSuffix_append [simp]: "HasSuffix (s @ p) p"
  by (simp add: HasSuffix_def)

lemma HasSuffix_iff: "HasSuffix s p \<longleftrightarrow> (\<exists>r. s = r @ p)"
  by (metis HasSuffix_append HasSuffix_def append_take_drop_id)

lemma TrimPrefix_append [simp]: "TrimPrefix (p @ s) p = s"
  by (simp add: TrimPrefix_def)

lemma TrimSuffix_append [simp]: "TrimSuffix (s @ p) p = s"
  by (simp add: TrimSuffix_def)

lemma Contains_Nil [simp]: "Contains s []"
  by (cases s) (simp_all add: HasPrefix_def)

lemma Contains_iff: "Contains s p \<longleftrightarrow> (\<exists>a b. s = a @ p @ b)"
proof (induction s)
  case (Cons c s)
  have "(\<exists>a b. c # s = a @ p @ b) \<longleftrightarrow> (\<exists>b. c # s = p @ b) \<or> (\<exists>a b. s = a @ p @ b)"
    by (metis append_Cons append_Nil neq_Nil_conv list.inject)
  with Cons show ?case by (simp add: HasPrefix_iff)
qed auto

lemma Contains_char: "Contains s [c] \<longleftrightarrow> c \<in> set s"
  by (auto simp: Contains_iff in_set_conv_decomp)

lemma Split_not_Nil [simp]: "Split s sep \<noteq> []"
  by (cases s) (auto split: list.splits)

lemma Split_no_sep: "f \<in> set (Split s sep) \<Longrightarrow> sep \<notin> set f"
  by (induction s arbitrary: f) (auto split: list.splits if_splits)

lemma Split_free [simp]: "sep \<notin> set s \<Longrightarrow> Split s sep = [s]"
  by (induction s) auto

lemma Split_append: "sep \<notin> set a \<Longrightarrow> Split (a @ sep # b) sep = a # Split b sep"
  by (induction a) auto

lemma Join_Cons: "fs \<noteq> [] \<Longrightarrow> Join (f # fs) sep = f @ sep @ Join fs sep"
  by (cases fs) auto

lemma Join_Split: "Join (Split s sep) [sep] = s"
proof (induction s)
  case (Cons c s)
  obtain f fs where f: "Split s sep = f # fs" by (meson Split_not_Nil neq_Nil_conv)
  with Cons show ?case by (cases fs) (auto simp: Join_Cons)
qed simp

lemma Split_Join:
  "fs \<noteq> [] \<Longrightarrow> \<forall>f\<in>set fs. sep \<notin> set f \<Longrightarrow> Split (Join fs [sep]) sep = fs"
proof (induction fs)
  case (Cons f fs)
  then show ?case by (cases fs) (auto simp: Join_Cons Split_append)
qed simp

lemma Cut_found: "sep \<notin> set a \<Longrightarrow> Cut (a @ sep # b) sep = (a, b, True)"
  by (induction a) auto

lemma Cut_free: "sep \<notin> set a \<Longrightarrow> Cut a sep = (a, [], False)"
  by (induction a) auto

lemma Cut_length: "Cut s sep = (a, b, f) \<Longrightarrow> s \<noteq> [] \<Longrightarrow> length b < length s"
  by (induction s arbitrary: a b f) (fastforce split: if_splits prod.splits)+

lemma append_sep_inject:
  "c \<notin> set a \<Longrightarrow> c \<notin> set a' \<Longrightarrow> a @ c # b = a' @ c # b' \<longleftrightarrow> a = a' \<and> b = b'"
proof (induction a arbitrary: a')
  case Nil
  then show ?case by (cases a') auto
next
  case (Cons x a)
  then show ?case by (cases a') auto
qed

lemma lower_char_ascii: "ascii_char c \<Longrightarrow> ascii_char (lower_char c)"
  by (simp add: ascii_char_def lower_char_def Let_def)

lemma lower_char_idem [simp]: "lower_char (lower_char c) = lower_char c"
  by (simp add: lower_char_def Let_def)

end
