(* ===== verification/GoNet.thy ===== *)
theory GoNet
  imports Prelude
begin

text \<open>
  The parts of Go's packages \<^verbatim>\<open>net\<close>, \<^verbatim>\<open>net/netip\<close> and \<^verbatim>\<open>strconv\<close> that the proxy uses:
  splitting and joining host and port, parsing IP addresses and recognising loopback ones,
  and decimal integers. They are definitions of the language's standard library, so none of
  them is mapped to a line of the repository; the proxy's own code calls them.
\<close>

section \<open>Indices of a byte\<close>

fun index_of :: "string \<Rightarrow> char \<Rightarrow> nat option" where
  "index_of [] c = None"
| "index_of (x # s) c = (if x = c then Some 0 else map_option Suc (index_of s c))"

definition last_index :: "string \<Rightarrow> char \<Rightarrow> nat option" where
  "last_index s c = map_option (\<lambda>i. length s - 1 - i) (index_of (rev s) c)"

lemma index_of_None [simp]: "index_of s c = None \<longleftrightarrow> c \<notin> set s"
  by (induction s) auto

lemma index_of_append: "c \<notin> set a \<Longrightarrow> index_of (a @ c # b) c = Some (length a)"
  by (induction a) auto

lemma index_of_SomeD: "index_of s c = Some i \<Longrightarrow> \<exists>a b. s = a @ c # b \<and> c \<notin> set a \<and> i = length a"
proof (induction s arbitrary: i)
  case (Cons x s)
  show ?case
  proof (cases "x = c")
    case True
    with Cons.prems show ?thesis by (auto intro!: exI [of _ "[]"])
  next
    case False
    with Cons.prems obtain j where "index_of s c = Some j" "i = Suc j" by auto
    with Cons.IH obtain a b where "s = a @ c # b" "c \<notin> set a" "j = length a" by blast
    with False \<open>i = Suc j\<close> show ?thesis by (metis append_Cons length_Cons set_ConsD)
  qed
qed simp

lemma last_index_None [simp]: "last_index s c = None \<longleftrightarrow> c \<notin> set s"
  by (simp add: last_index_def)

lemma last_index_append: "c \<notin> set b \<Longrightarrow> last_index (a @ c # b) c = Some (length a)"
  using index_of_append [of c "rev b" "rev a"] by (simp add: last_index_def)

lemma last_index_SomeD:
  "last_index s c = Some i \<Longrightarrow> \<exists>a b. s = a @ c # b \<and> c \<notin> set b \<and> i = length a"
proof -
  assume "last_index s c = Some i"
  then obtain j where j: "index_of (rev s) c = Some j" "i = length s - 1 - j"
    by (auto simp: last_index_def)
  from index_of_SomeD [OF j(1)] obtain a b
    where ab: "rev s = a @ c # b" "c \<notin> set a" "j = length a" by blast
  from ab(1) have s: "s = rev b @ c # rev a"
    by (metis append.assoc append_Cons append_Nil rev.simps(2) rev_append rev_rev_ident)
  with j(2) ab show ?thesis by (intro exI [of _ "rev b"] exI [of _ "rev a"]) simp
qed

section \<open>Host and port\<close>

abbreviation colon :: char where "colon \<equiv> CHR '':''"
abbreviation lbrack :: char where "lbrack \<equiv> CHR ''[''"
abbreviation rbrack :: char where "rbrack \<equiv> CHR '']''"

definition SplitHostPort :: "string \<Rightarrow> (string \<times> string) result" where
  "SplitHostPort s =
     (let finish = (\<lambda>host j k i.
            if lbrack \<in> set (drop j s) then Inl (NewErr ''unexpected '[' in address'')
            else if rbrack \<in> set (drop k s) then Inl (NewErr ''unexpected ']' in address'')
            else Inr (host, drop (Suc i) s))
      in case last_index s colon of
        None \<Rightarrow> Inl (NewErr ''missing port in address'')
      | Some i \<Rightarrow>
          if HasPrefix s [lbrack] then
            (case index_of s rbrack of
               None \<Rightarrow> Inl (NewErr ''missing ']' in address'')
             | Some e \<Rightarrow>
                 if Suc e = length s then Inl (NewErr ''missing port in address'')
                 else if Suc e = i then finish (drop 1 (take e s)) 1 (Suc e) i
                 else if s ! Suc e = colon then Inl (NewErr ''too many colons in address'')
                 else Inl (NewErr ''missing port in address''))
          else if colon \<in> set (take i s) then Inl (NewErr ''too many colons in address'')
          else finish (take i s) 0 0 i)"

definition JoinHostPort :: "string \<Rightarrow> string \<Rightarrow> string" where
  "JoinHostPort host port =
     (if colon \<in> set host then lbrack # host @ rbrack # colon # port
      else host @ colon # port)"

definition plain_host :: "string \<Rightarrow> bool" where
  "plain_host h \<longleftrightarrow> lbrack \<notin> set h \<and> rbrack \<notin> set h"

definition plain_port :: "string \<Rightarrow> bool" where
  "plain_port p \<longleftrightarrow> colon \<notin> set p \<and> lbrack \<notin> set p \<and> rbrack \<notin> set p"

lemma SplitHostPort_JoinHostPort:
  assumes "plain_host h" "plain_port p"
  shows "SplitHostPort (JoinHostPort h p) = Inr (h, p)"
proof (cases "colon \<in> set h")
  case True
  have l: "last_index (lbrack # h @ rbrack # colon # p) colon = Some (Suc (Suc (length h)))"
    using last_index_append [of colon p "lbrack # h @ [rbrack]"] assms(2)
    by (simp add: plain_port_def)
  have r: "index_of (h @ rbrack # colon # p) rbrack = Some (length h)"
    using index_of_append [of rbrack h "colon # p"] assms(1) by (simp add: plain_host_def)
  from assms True show ?thesis
    by (simp add: SplitHostPort_def JoinHostPort_def l r HasPrefix_def plain_host_def
        plain_port_def Let_def nth_append)
next
  case False
  have l: "last_index (h @ colon # p) colon = Some (length h)"
    using last_index_append [of colon p h] assms(2) by (simp add: plain_port_def)
  have "\<not> HasPrefix (h @ colon # p) [lbrack]"
    using assms(1) by (cases h) (auto simp: HasPrefix_def plain_host_def)
  with assms False show ?thesis
    by (simp add: SplitHostPort_def JoinHostPort_def l plain_host_def plain_port_def Let_def)
qed

lemma SplitHostPort_port:
  assumes "SplitHostPort s = Inr (h, p)"
  shows "plain_port p"
proof -
  obtain i where i: "last_index s colon = Some i"
    using assms by (auto simp: SplitHostPort_def Let_def split: option.splits)
  from last_index_SomeD [OF i] obtain a b where s: "s = a @ colon # b" "colon \<notin> set b" "i = length a"
    by blast
  have p: "p = b" using assms i s by (auto simp: SplitHostPort_def Let_def split: option.splits if_splits)
  have "lbrack \<notin> set b \<and> rbrack \<notin> set b"
    using assms i s by (auto simp: SplitHostPort_def Let_def split: option.splits if_splits)
  with p s show ?thesis by (simp add: plain_port_def)
qed

section \<open>Integers\<close>

definition is_digit :: "char \<Rightarrow> bool" where
  "is_digit c \<longleftrightarrow> 48 \<le> (of_char c :: nat) \<and> (of_char c :: nat) \<le> 57"

definition digit_val :: "char \<Rightarrow> nat" where
  "digit_val c = of_char c - 48"

definition dec_val :: "string \<Rightarrow> nat" where
  "dec_val s = foldl (\<lambda>n c. 10 * n + digit_val c) 0 s"

text \<open>\<^verbatim>\<open>strconv.Atoi\<close> on a 64-bit platform.\<close>

definition Atoi :: "string \<Rightarrow> int result" where
  "Atoi s =
     (let neg = HasPrefix s ''-'';
          d = (if neg \<or> HasPrefix s ''+'' then drop 1 s else s) in
      if d = [] \<or> \<not> list_all is_digit d then Inl (NewErr ''invalid syntax'')
      else if neg then
        (if int (dec_val d) \<le> 2 ^ 63 then Inr (- int (dec_val d)) else Inl (NewErr ''value out of range''))
      else
        (if int (dec_val d) < 2 ^ 63 then Inr (int (dec_val d)) else Inl (NewErr ''value out of range'')))"

fun dec_string :: "nat \<Rightarrow> string" where
  "dec_string n =
     (if n < 10 then [char_of (48 + n)] else dec_string (n div 10) @ [char_of (48 + n mod 10)])"

declare dec_string.simps [simp del]

definition int_string :: "int \<Rightarrow> string" where
  "int_string i = (if i < 0 then CHR ''-'' # dec_string (nat (- i)) else dec_string (nat i))"

lemma dec_val_append: "dec_val (a @ [c]) = 10 * dec_val a + digit_val c"
  by (simp add: dec_val_def)

lemma dec_string_correct:
  "dec_val (dec_string n) = n \<and> list_all is_digit (dec_string n) \<and> dec_string n \<noteq> []"
proof (induction n rule: dec_string.induct)
  case (1 n)
  have d: "(of_char (char_of (48 + m) :: char) :: nat) = 48 + m" if "m < 10" for m :: nat
    using that by simp
  show ?case
  proof (cases "n < 10")
    case True
    then show ?thesis
      by (subst (1 2 3) dec_string.simps) (simp add: dec_val_def digit_val_def is_digit_def d)
  next
    case False
    have m: "n mod 10 < 10" by simp
    from False show ?thesis using 1
      by (subst (1 2 3) dec_string.simps)
        (simp add: dec_val_append digit_val_def d [OF m] is_digit_def [of "char_of _"])
  qed
qed

lemma digit_not_sign:
  "is_digit c \<Longrightarrow> c \<noteq> CHR ''-'' \<and> c \<noteq> CHR ''+'' \<and> c \<noteq> CHR '':''"
  by (auto simp: is_digit_def)

lemma Atoi_dec_string: "n < 2 ^ 63 \<Longrightarrow> Atoi (dec_string n) = Inr (int n)"
proof -
  assume n: "n < 2 ^ 63"
  obtain c s where c: "dec_string n = c # s" using dec_string_correct [of n] by (cases "dec_string n") auto
  with dec_string_correct [of n] have "is_digit c" by simp
  then have "c \<noteq> CHR ''-''" "c \<noteq> CHR ''+''" using digit_not_sign by auto
  with c n dec_string_correct [of n] show ?thesis by (simp add: Atoi_def HasPrefix_def Let_def)
qed

section \<open>IP addresses\<close>

text \<open>
  \<^verbatim>\<open>netip.parseIPv4Fields\<close>: the value and digit count of the current octet, the octets read so
  far, the rest. A dot right after another dot or at the start is one met with no digit read.
\<close>

fun parseIPv4Fields :: "nat \<Rightarrow> nat \<Rightarrow> nat list \<Rightarrow> string \<Rightarrow> nat list option" where
  "parseIPv4Fields val digLen fields [] =
     (if length fields < 3 then None else Some (fields @ [val]))"
| "parseIPv4Fields val digLen fields (c # s) =
     (if is_digit c then
        (if digLen = 1 \<and> val = 0 then None
         else let val' = val * 10 + digit_val c in
              if val' > 255 then None else parseIPv4Fields val' (Suc digLen) fields s)
      else if c = CHR ''.'' then
        (if digLen = 0 \<or> s = [] then None
         else if length fields = 3 then None
         else parseIPv4Fields 0 0 (fields @ [val]) s)
      else None)"

definition is_hex :: "char \<Rightarrow> bool" where
  "is_hex c \<longleftrightarrow> (let n = of_char c :: nat in
     48 \<le> n \<and> n \<le> 57 \<or> 97 \<le> n \<and> n \<le> 102 \<or> 65 \<le> n \<and> n \<le> 70)"

definition unhex :: "char \<Rightarrow> nat" where
  "unhex c = (let n = of_char c :: nat in
     if 48 \<le> n \<and> n \<le> 57 then n - 48
     else if 97 \<le> n \<and> n \<le> 102 then n - 87
     else if 65 \<le> n \<and> n \<le> 70 then n - 55 else 0)"

definition hex_group :: "string \<Rightarrow> (nat \<times> string) option" where
  "hex_group s = (let ds = takeWhile is_hex s in
     if ds = [] \<or> length ds > 4 then None
     else Some (foldl (\<lambda>n c. 16 * n + unhex c) 0 ds, drop (length ds) s))"

function parseIPv6Loop ::
  "nat list \<Rightarrow> nat option \<Rightarrow> string \<Rightarrow> (nat list \<times> nat option \<times> string) option" where
  "parseIPv6Loop ip ellipsis s =
     (if 16 \<le> length ip then Some (ip, ellipsis, s)
      else case hex_group s of
        None \<Rightarrow> None
      | Some (acc, rest) \<Rightarrow>
          if HasPrefix rest ''.'' then
            (if ellipsis = None \<and> length ip \<noteq> 12 then None
             else if length ip + 4 > 16 then None
             else case parseIPv4Fields 0 0 [] s of
                None \<Rightarrow> None
              | Some fields \<Rightarrow> Some (ip @ fields, ellipsis, []))
          else
            (let ip' = ip @ [acc div 256, acc mod 256] in
             case rest of
               [] \<Rightarrow> Some (ip', ellipsis, [])
             | c # s1 \<Rightarrow>
                 if c \<noteq> CHR '':'' then None
                 else if s1 = [] then None
                 else if HasPrefix s1 '':'' then
                   (if ellipsis \<noteq> None then None
                    else if drop 1 s1 = [] then Some (ip', Some (length ip'), [])
                    else parseIPv6Loop ip' (Some (length ip')) (drop 1 s1))
                 else parseIPv6Loop ip' ellipsis s1))"
  by pat_completeness auto
termination
  by (relation "measure (\<lambda>(ip, e, s). 16 - length ip)") (auto simp: Let_def)

declare parseIPv6Loop.simps [simp del]

definition parseIPv6 :: "string \<Rightarrow> nat list option" where
  "parseIPv6 s =
     (if CHR ''%'' \<in> set s then None
      else if s = ''::'' then Some (replicate 16 0)
      else let lead = HasPrefix s ''::'' in
        case parseIPv6Loop [] (if lead then Some 0 else None) (if lead then drop 2 s else s) of
          None \<Rightarrow> None
        | Some (ip, ellipsis, rest) \<Rightarrow>
            if rest \<noteq> [] then None
            else if length ip < 16 then
              (case ellipsis of
                 None \<Rightarrow> None
               | Some e \<Rightarrow> Some (take e ip @ replicate (16 - length ip) 0 @ drop e ip))
            else if ellipsis \<noteq> None then None
            else Some ip)"

text \<open>
  \<^verbatim>\<open>net.ParseIP\<close>: the 16-byte form, \<^const>\<open>None\<close> for \<^verbatim>\<open>nil\<close>. An address with a zone is
  refused, so a \<^verbatim>\<open>%\<close> anywhere gives \<^const>\<open>None\<close>.
\<close>

definition ParseIP :: "string \<Rightarrow> nat list option" where
  "ParseIP s =
     (case filter (\<lambda>c. c = CHR ''.'' \<or> c = CHR '':'' \<or> c = CHR ''%'') s of
        [] \<Rightarrow> None
      | c # _ \<Rightarrow>
          if c = CHR ''.'' then
            map_option (\<lambda>f. replicate 10 0 @ [255, 255] @ f) (parseIPv4Fields 0 0 [] s)
          else if c = CHR '':'' then parseIPv6 s
          else None)"

definition IsLoopback :: "nat list \<Rightarrow> bool" where
  "IsLoopback ip \<longleftrightarrow>
     (if take 12 ip = replicate 10 0 @ [255, 255] then ip ! 12 = 127
      else ip = replicate 15 0 @ [1])"

lemma parse_v4_example: "ParseIP ''127.0.0.1'' = Some (replicate 10 0 @ [255, 255, 127, 0, 0, 1])"
  by (simp add: ParseIP_def is_digit_def digit_val_def)

lemma parse_v6_example: "ParseIP ''::1'' = Some (replicate 15 0 @ [1])"
  by (simp add: ParseIP_def parseIPv6_def parseIPv6Loop.simps HasPrefix_def hex_group_def is_hex_def unhex_def replicate_numeral)

lemma split_v6_example: "SplitHostPort ''[::1]:5432'' = Inr (''::1'', ''5432'')"
  by (simp add: SplitHostPort_def last_index_def HasPrefix_def)

end
