(* ===== verification/ProxyConfig.thy ===== *)
theory ProxyConfig
  imports GoNet
begin

text \<open>
  The configuration (\<^verbatim>\<open>iamproxy/config.go\<close>): its records, loading and validation, the deep copy,
  and the loopback test. \<open>Validate\<close> is the code's loop over listeners and principals with its
  dictionaries as explicit state; the predicate \<open>valid_config\<close> says declaratively which
  configurations it accepts.
\<close>

section \<open>Data\<close>

record Listener =
  Name :: string
  Listen :: string
  Provider :: string
  Engine :: string
  Instance :: string
  Hostname :: string
  Region :: string
  ResourceID :: string
  Tenant :: string
  Upstream :: string
  UpstreamTLS :: string

record Principal =
  ID :: string
  Email :: string
  Groups :: "string list"
  Grants :: "string list"
  BackendUser :: string
  BackendPassword :: string
  AWSAccessKey :: string
  AWSSecretKey :: string
  AWSSessionToken :: string
  ECSAuthorizationToken :: string
  GoogleRefreshToken :: string
  AzureClientID :: string
  AzureClientSecret :: string

record Config =
  HTTPListen :: string
  HTTPSListen :: string
  PublicURL :: string
  TLSCert :: string
  TLSKey :: string
  Listeners :: "Listener list"
  Principals :: "Principal list"

text \<open>The zero value that indexing a Go map with a missing key gives.\<close>

definition zero_Listener :: Listener where
  "zero_Listener = \<lparr>Name = [], Listen = [], Provider = [], Engine = [], Instance = [],
     Hostname = [], Region = [], ResourceID = [], Tenant = [], Upstream = [], UpstreamTLS = []\<rparr>"

definition map_get :: "(string \<rightharpoonup> string) \<Rightarrow> string \<Rightarrow> string" where
  "map_get m k = (case m k of None \<Rightarrow> [] | Some v \<Rightarrow> v)"

section \<open>Operations\<close>

definition loopbackAddress :: "string \<Rightarrow> bool" where
  "loopbackAddress addr =
     (case SplitHostPort addr of
        Inl _ \<Rightarrow> False
      | Inr (host, _) \<Rightarrow>
          if host = ''localhost'' then True
          else case ParseIP host of None \<Rightarrow> False | Some ip \<Rightarrow> IsLoopback ip)"

text \<open>\<^verbatim>\<open>_, port, _ := net.SplitHostPort(addr)\<close>: the empty port on an error.\<close>

definition port_of :: "string \<Rightarrow> string" where
  "port_of addr = (case SplitHostPort addr of Inl _ \<Rightarrow> [] | Inr (_, port) \<Rightarrow> port)"

definition Granted :: "Principal \<Rightarrow> string \<Rightarrow> bool" where
  "Granted p listener \<longleftrightarrow> list_ex (\<lambda>g. g = listener) (Grants p)"

definition clone_principal :: "Principal \<Rightarrow> Principal" where
  "clone_principal p = p\<lparr>Groups := [] @ Groups p, Grants := [] @ Grants p\<rparr>"

definition clone :: "Config \<Rightarrow> Config" where
  "clone c = c\<lparr>Listeners := [] @ Listeners c, Principals := map clone_principal ([] @ Principals c)\<rparr>"

text \<open>\<^verbatim>\<open>googleUsername\<close> (\<^verbatim>\<open>identity.go\<close>); the index 0 of \<^verbatim>\<open>SplitN\<close> always exists.\<close>

definition googleUsername :: "(string \<Rightarrow> string) \<Rightarrow> string \<Rightarrow> string \<Rightarrow> string" where
  "googleUsername ul email engine =
     (let email = ToLower ul email in
      if engine = ''mysql'' then fst (Cut email CHR ''@'')
      else TrimSuffix email ''.gserviceaccount.com'')"

subsection \<open>Validate\<close>

text \<open>One turn of the loop over listeners: the two dictionaries, and the listener's checks.\<close>

definition validateListener :: "string set \<Rightarrow> string set \<Rightarrow> Listener \<Rightarrow> (string set \<times> string set) result" where
  "validateListener listeners addresses l =
     (if Name l = [] \<or> Listen l = [] \<or> Upstream l = [] \<or> Instance l = [] then
        Inl (Errorf ''listener %q missing required field'' [Name l])
      else if Provider l \<noteq> ''aws'' \<and> Provider l \<noteq> ''google'' \<and> Provider l \<noteq> ''azure'' then
        Inl (Errorf ''listener %s: invalid provider'' [Name l])
      else if Engine l \<noteq> ''postgres'' \<and> Engine l \<noteq> ''mysql'' then
        Inl (Errorf ''listener %s: invalid engine'' [Name l])
      else case SplitHostPort (Listen l) of
        Inl err \<Rightarrow> Inl (Wrapf ''listener %s: %w'' [Name l] err)
      | Inr (_, port) \<Rightarrow>
          if Name l \<in> listeners \<or> port \<noteq> ''0'' \<and> Listen l \<in> addresses then
            Inl (Errorf ''duplicate listener name or address: %s'' [Name l])
          else if Provider l = ''aws'' \<and> (Hostname l = [] \<or> Region l = [] \<or> ResourceID l = []) then
            Inl (Errorf ''listener %s: AWS requires hostname, region and resource_id'' [Name l])
          else if Provider l = ''azure'' \<and> Tenant l = [] then
            Inl (Errorf ''listener %s: Azure requires tenant'' [Name l])
          else if UpstreamTLS l \<noteq> [] \<and> UpstreamTLS l \<noteq> ''disable'' \<and> UpstreamTLS l \<noteq> ''require''
              \<and> UpstreamTLS l \<noteq> ''verify-full'' then
            Inl (Errorf ''listener %s: invalid upstream_tls'' [Name l])
          else if \<not> loopbackAddress (Listen l) then
            Inl (Errorf ''listener %s: only loopback binds are supported'' [Name l])
          else Inr (insert (Name l) listeners, insert (Listen l) addresses))"

fun validateListeners :: "string set \<Rightarrow> string set \<Rightarrow> Listener list \<Rightarrow> (string set \<times> string set) result" where
  "validateListeners listeners addresses [] = Inr (listeners, addresses)"
| "validateListeners listeners addresses (l # ls) =
     tryR (validateListener listeners addresses l) (\<lambda>(ns, as). validateListeners ns as ls)"

record names =
  ids :: "string set"
  keys :: "string set"
  backendUsers :: "string \<rightharpoonup> string"
  googleNames :: "string \<rightharpoonup> string"
  azureNames :: "string \<rightharpoonup> string"

definition no_names :: names where
  "no_names = \<lparr>ids = {}, keys = {}, backendUsers = Map.empty, googleNames = Map.empty,
     azureNames = Map.empty\<rparr>"

text \<open>
  \<^verbatim>\<open>if other := m[key]; other != "" && other != p.ID { return err }; m[key] = p.ID\<close>.
\<close>

definition claim_name :: "(string \<rightharpoonup> string) \<Rightarrow> string \<Rightarrow> string \<Rightarrow> go_error \<Rightarrow> (string \<rightharpoonup> string) result" where
  "claim_name m key pid err =
     (let other = map_get m key in
      if other \<noteq> [] \<and> other \<noteq> pid then Inl err else Inr (m(key \<mapsto> pid)))"

definition name_key :: "string \<Rightarrow> string \<Rightarrow> string" where
  "name_key g n = g @ [NUL] @ n"

definition validateGrant ::
  "(string \<Rightarrow> string) \<Rightarrow> string set \<Rightarrow> (string \<rightharpoonup> Listener) \<Rightarrow> Principal \<Rightarrow> names \<Rightarrow> string \<Rightarrow> names result" where
  "validateGrant ul listeners byName p st g =
     (if g \<notin> listeners then Inl (Errorf ''principal %s: unknown listener grant %s'' [ID p, g])
      else
        let l = (case byName g of None \<Rightarrow> zero_Listener | Some l \<Rightarrow> l) in
        tryR (claim_name (backendUsers st) (name_key g (BackendUser p)) (ID p)
               (Errorf ''listener %s: backend user %s is shared by principals'' [g, BackendUser p]))
        (\<lambda>bu. let st = st\<lparr>backendUsers := bu\<rparr> in
         tryR (if Provider l = ''google'' then
                 (if Email p = [] then Inl (Errorf ''principal %s: Google email required'' [ID p])
                  else claim_name (googleNames st)
                         (name_key g (googleUsername ul (Email p) (Engine l))) (ID p)
                         (Errorf ''listener %s: ambiguous Google database username'' [g]))
               else Inr (googleNames st))
         (\<lambda>gn. let st = st\<lparr>googleNames := gn\<rparr> in
          tryR (if Provider l = ''azure'' then
                  (if Email p = [] then Inl (Errorf ''principal %s: Azure email required'' [ID p])
                   else claim_name (azureNames st) (name_key g (Email p)) (ID p)
                          (Errorf ''listener %s: duplicate Azure username'' [g]))
                else Inr (azureNames st))
          (\<lambda>an. Inr (st\<lparr>azureNames := an\<rparr>)))))"

fun validateGrants ::
  "(string \<Rightarrow> string) \<Rightarrow> string set \<Rightarrow> (string \<rightharpoonup> Listener) \<Rightarrow> Principal \<Rightarrow> names \<Rightarrow> string list \<Rightarrow> names result" where
  "validateGrants ul listeners byName p st [] = Inr st"
| "validateGrants ul listeners byName p st (g # gs) =
     tryR (validateGrant ul listeners byName p st g)
       (\<lambda>st. validateGrants ul listeners byName p st gs)"

definition validatePrincipal ::
  "(string \<Rightarrow> string) \<Rightarrow> string set \<Rightarrow> (string \<rightharpoonup> Listener) \<Rightarrow> names \<Rightarrow> Principal \<Rightarrow> names result" where
  "validatePrincipal ul listeners byName st p =
     (if ID p = [] \<or> BackendUser p = [] \<or> BackendPassword p = [] then
        Inl (Errorf ''principal %s: id and backend credentials required'' [ID p])
      else if ID p \<in> ids st then Inl (Errorf ''duplicate principal %s'' [ID p])
      else
        let st = st\<lparr>ids := insert (ID p) (ids st)\<rparr> in
        tryR (if AWSAccessKey p \<noteq> [] then
                (if AWSSecretKey p = [] \<or> AWSAccessKey p \<in> keys st then
                   Inl (Errorf ''principal %s: invalid AWS key'' [ID p])
                 else Inr (st\<lparr>keys := insert (AWSAccessKey p) (keys st)\<rparr>))
              else Inr st)
        (\<lambda>st. if ECSAuthorizationToken p \<noteq> [] \<and> AWSAccessKey p = [] then
                Inl (Errorf ''principal %s: ECS authorization token requires AWS credentials'' [ID p])
              else validateGrants ul listeners byName p st (Grants p)))"

fun validatePrincipals ::
  "(string \<Rightarrow> string) \<Rightarrow> string set \<Rightarrow> (string \<rightharpoonup> Listener) \<Rightarrow> names \<Rightarrow> Principal list \<Rightarrow> names result" where
  "validatePrincipals ul listeners byName st [] = Inr st"
| "validatePrincipals ul listeners byName st (p # ps) =
     tryR (validatePrincipal ul listeners byName st p)
       (\<lambda>st. validatePrincipals ul listeners byName st ps)"

text \<open>\<^verbatim>\<open>byName\<close>: a later listener of the same name replaces an earlier one.\<close>

fun index_by_name :: "(string \<rightharpoonup> Listener) \<Rightarrow> Listener list \<Rightarrow> (string \<rightharpoonup> Listener)" where
  "index_by_name m [] = m"
| "index_by_name m (l # ls) = index_by_name (m(Name l \<mapsto> l)) ls"

text \<open>The result is the configuration with its default filled in, as \<^verbatim>\<open>Validate\<close> leaves it.\<close>

definition Validate_Config :: "(string \<Rightarrow> string) \<Rightarrow> Config \<Rightarrow> Config result" where
  "Validate_Config ul c0 =
     (let c = (if HTTPListen c0 = [] then c0\<lparr>HTTPListen := ''127.0.0.1:8090''\<rparr> else c0) in
      if \<not> loopbackAddress (HTTPListen c) then
        Inl (NewErr ''credential endpoint must bind to loopback'')
      else if HTTPSListen c \<noteq> [] \<and> \<not> loopbackAddress (HTTPSListen c) then
        Inl (NewErr ''TLS credential endpoint must bind to loopback'')
      else if (TLSCert c = []) \<noteq> (TLSKey c = []) then
        Inl (NewErr ''tls_cert and tls_key must both be set'')
      else if length (Listeners c) = 0 then
        Inl (NewErr ''at least one listener is required'')
      else
        let addresses = {HTTPListen c} in
        tryR (if HTTPSListen c \<noteq> [] then
                (if port_of (HTTPSListen c) \<noteq> ''0'' \<and> HTTPSListen c \<in> addresses then
                   Inl (NewErr ''duplicate credential endpoint address'')
                 else Inr (insert (HTTPSListen c) addresses))
              else Inr addresses)
        (\<lambda>addresses.
         tryR (validateListeners {} addresses (Listeners c))
         (\<lambda>(listeners, _).
          tryR (validatePrincipals ul listeners (index_by_name Map.empty (Listeners c)) no_names
                 (Principals c))
          (\<lambda>_. Inr c))))"

subsection \<open>Loading\<close>

text \<open>
  The YAML decoder is third-party code: \<open>yaml\<close> gives the outcome of the two calls of
  \<^verbatim>\<open>Decode\<close> on a document's bytes, and \<open>ReadFile\<close> the file system's answer.
\<close>

definition ParseConfig ::
  "(string \<Rightarrow> string) \<Rightarrow> (string \<Rightarrow> Config result \<times> unit result) \<Rightarrow> string \<Rightarrow> Config result" where
  "ParseConfig ul yaml b =
     (case fst (yaml b) of
        Inl err \<Rightarrow> if errors_Is err EOF then Inl (NewErr ''configuration is empty'') else Inl err
      | Inr c \<Rightarrow>
          (case snd (yaml b) of
             Inl err \<Rightarrow>
               if \<not> errors_Is err EOF then
                 Inl (NewErr ''configuration must contain exactly one YAML document'')
               else Validate_Config ul c
           | Inr _ \<Rightarrow> Inl (NewErr ''configuration must contain exactly one YAML document'')))"

definition LoadConfig ::
  "(string \<Rightarrow> string) \<Rightarrow> (string \<Rightarrow> Config result \<times> unit result) \<Rightarrow> (string \<Rightarrow> string result) \<Rightarrow> string \<Rightarrow> Config result" where
  "LoadConfig ul yaml ReadFile path =
     tryR (ReadFile path) (\<lambda>b.
       case ParseConfig ul yaml b of
         Inl err \<Rightarrow> Inl (Wrapf ''%s: %w'' [path] err)
       | Inr c \<Rightarrow> Inr c)"

section \<open>What Validate accepts\<close>

definition fixed_port :: "string \<Rightarrow> bool" where
  "fixed_port a \<longleftrightarrow> port_of a \<noteq> ''0''"

definition valid_listener :: "Listener \<Rightarrow> bool" where
  "valid_listener l \<longleftrightarrow>
     Name l \<noteq> [] \<and> Listen l \<noteq> [] \<and> Upstream l \<noteq> [] \<and> Instance l \<noteq> [] \<and>
     Provider l \<in> {''aws'', ''google'', ''azure''} \<and> Engine l \<in> {''postgres'', ''mysql''} \<and>
     (Provider l = ''aws'' \<longrightarrow> Hostname l \<noteq> [] \<and> Region l \<noteq> [] \<and> ResourceID l \<noteq> []) \<and>
     (Provider l = ''azure'' \<longrightarrow> Tenant l \<noteq> []) \<and>
     UpstreamTLS l \<in> {[], ''disable'', ''require'', ''verify-full''} \<and>
     loopbackAddress (Listen l)"

definition provider_is :: "(string \<rightharpoonup> Listener) \<Rightarrow> string \<Rightarrow> string \<Rightarrow> bool" where
  "provider_is byName prov g \<longleftrightarrow> (case byName g of None \<Rightarrow> False | Some l \<Rightarrow> Provider l = prov)"

definition valid_principal :: "(string \<rightharpoonup> Listener) \<Rightarrow> Principal \<Rightarrow> bool" where
  "valid_principal byName p \<longleftrightarrow>
     ID p \<noteq> [] \<and> BackendUser p \<noteq> [] \<and> BackendPassword p \<noteq> [] \<and>
     (AWSAccessKey p \<noteq> [] \<longrightarrow> AWSSecretKey p \<noteq> []) \<and>
     (ECSAuthorizationToken p \<noteq> [] \<longrightarrow> AWSAccessKey p \<noteq> []) \<and>
     (\<forall>g\<in>set (Grants p). byName g \<noteq> None \<and>
        (provider_is byName ''google'' g \<or> provider_is byName ''azure'' g \<longrightarrow> Email p \<noteq> []))"

definition backend_keys :: "Principal \<Rightarrow> string list" where
  "backend_keys p = map (\<lambda>g. name_key g (BackendUser p)) (Grants p)"

definition google_keys :: "(string \<Rightarrow> string) \<Rightarrow> (string \<rightharpoonup> Listener) \<Rightarrow> Principal \<Rightarrow> string list" where
  "google_keys ul byName p =
     map (\<lambda>g. name_key g (googleUsername ul (Email p) (Engine (case byName g of None \<Rightarrow> zero_Listener | Some l \<Rightarrow> l))))
       (filter (provider_is byName ''google'') (Grants p))"

definition azure_keys :: "(string \<rightharpoonup> Listener) \<Rightarrow> Principal \<Rightarrow> string list" where
  "azure_keys byName p =
     map (\<lambda>g. name_key g (Email p)) (filter (provider_is byName ''azure'') (Grants p))"

definition disjoint_keys :: "(Principal \<Rightarrow> string list) \<Rightarrow> Principal list \<Rightarrow> bool" where
  "disjoint_keys f ps \<longleftrightarrow> sorted_wrt (\<lambda>p q. set (f p) \<inter> set (f q) = {}) ps"

definition access_keys :: "Principal list \<Rightarrow> string list" where
  "access_keys ps = filter (\<lambda>k. k \<noteq> []) (map AWSAccessKey ps)"

definition with_default :: "Config \<Rightarrow> Config" where
  "with_default c = (if HTTPListen c = [] then c\<lparr>HTTPListen := ''127.0.0.1:8090''\<rparr> else c)"

definition endpoint_addresses :: "Config \<Rightarrow> string list" where
  "endpoint_addresses c =
     HTTPListen c # (if HTTPSListen c = [] then [] else [HTTPSListen c]) @ map Listen (Listeners c)"

definition valid_config :: "(string \<Rightarrow> string) \<Rightarrow> Config \<Rightarrow> bool" where
  "valid_config ul c \<longleftrightarrow>
     loopbackAddress (HTTPListen c) \<and>
     (HTTPSListen c \<noteq> [] \<longrightarrow> loopbackAddress (HTTPSListen c)) \<and>
     (TLSCert c = [] \<longleftrightarrow> TLSKey c = []) \<and>
     Listeners c \<noteq> [] \<and>
     (\<forall>l\<in>set (Listeners c). valid_listener l) \<and>
     distinct (map Name (Listeners c)) \<and>
     distinct (filter fixed_port (endpoint_addresses c)) \<and>
     (let byName = index_by_name Map.empty (Listeners c); ps = Principals c in
      (\<forall>p\<in>set ps. valid_principal byName p) \<and>
      distinct (map ID ps) \<and> distinct (access_keys ps) \<and>
      disjoint_keys backend_keys ps \<and>
      disjoint_keys (google_keys ul byName) ps \<and>
      disjoint_keys (azure_keys byName) ps)"

subsection \<open>Listeners\<close>

lemma loopback_split: "loopbackAddress a \<Longrightarrow> \<exists>h p. SplitHostPort a = Inr (h, p)"
  by (auto simp: loopbackAddress_def split: sum.splits)

lemma validateListener_iff [go_simps]:
  "validateListener ns as l = Inr r \<longleftrightarrow>
     valid_listener l \<and> Name l \<notin> ns \<and> \<not> (fixed_port (Listen l) \<and> Listen l \<in> as) \<and>
     r = (insert (Name l) ns, insert (Listen l) as)"
proof (cases "SplitHostPort (Listen l)")
  case (Inl e)
  then have "\<not> loopbackAddress (Listen l)" using loopback_split [of "Listen l"] by auto
  with Inl show ?thesis by (simp add: validateListener_def valid_listener_def)
next
  case (Inr hp)
  obtain h p where "hp = (h, p)" by (cases hp)
  with Inr have hp: "SplitHostPort (Listen l) = Inr (h, p)" by simp
  show ?thesis
    unfolding validateListener_def valid_listener_def fixed_port_def port_of_def hp
      sum.case prod.case if_Inl_Inr sum.inject insert_iff empty_iff by blast
qed

lemma validateListeners_iff:
  "validateListeners ns as ls = Inr (ns', as') \<longleftrightarrow>
     (\<forall>l\<in>set ls. valid_listener l) \<and> distinct (map Name ls) \<and> Name ` set ls \<inter> ns = {} \<and>
     distinct (filter fixed_port (map Listen ls)) \<and>
     set (filter fixed_port (map Listen ls)) \<inter> as = {} \<and>
     ns' = ns \<union> Name ` set ls \<and> as' = as \<union> Listen ` set ls"
proof (induction ls arbitrary: ns as)
  case Nil
  then show ?case by auto
next
  case (Cons l ls)
  show ?case
    unfolding validateListeners.simps tryR_Inr_iff validateListener_iff by (auto simp: Cons.IH)
qed

lemma index_by_name_iff:
  "distinct (map Name ls) \<Longrightarrow>
     index_by_name m ls g = Some l \<longleftrightarrow>
       l \<in> set ls \<and> Name l = g \<or> g \<notin> Name ` set ls \<and> m g = Some l"
  by (induction ls arbitrary: m) (auto simp: image_iff)

lemma index_by_name_dom: "dom (index_by_name m ls) = dom m \<union> Name ` set ls"
  by (induction ls arbitrary: m) auto

subsection \<open>Names claimed by principals\<close>

definition free_for :: "(string \<rightharpoonup> string) \<Rightarrow> string list \<Rightarrow> string \<Rightarrow> bool" where
  "free_for m ks pid \<longleftrightarrow> (\<forall>k\<in>set ks. map_get m k = [] \<or> map_get m k = pid)"

definition claimed :: "(string \<rightharpoonup> string) \<Rightarrow> string list \<Rightarrow> string \<Rightarrow> (string \<rightharpoonup> string)" where
  "claimed m ks pid = (\<lambda>k. if k \<in> set ks then Some pid else m k)"

lemma claim_name_iff:
  "claim_name m k pid e = Inr m' \<longleftrightarrow> free_for m [k] pid \<and> m' = claimed m [k] pid"
  by (auto simp: claim_name_def free_for_def claimed_def Let_def fun_upd_def fun_eq_iff)

lemma claimed_simps [simp]:
  "claimed m [] pid = m"
  "claimed (claimed m ks pid) ks' pid = claimed m (ks @ ks') pid"
  by (auto simp: claimed_def)

lemma free_for_simps [simp]:
  "free_for m [] pid"
  "free_for m ks pid \<and> free_for (claimed m ks pid) ks' pid \<longleftrightarrow> free_for m (ks @ ks') pid"
  by (auto simp: free_for_def claimed_def map_get_def)

definition grant_ok :: "(string \<rightharpoonup> Listener) \<Rightarrow> Principal \<Rightarrow> string \<Rightarrow> bool" where
  "grant_ok byName p g \<longleftrightarrow> byName g \<noteq> None \<and>
     (provider_is byName ''google'' g \<or> provider_is byName ''azure'' g \<longrightarrow> Email p \<noteq> [])"

definition claim_all ::
  "(string \<Rightarrow> string) \<Rightarrow> (string \<rightharpoonup> Listener) \<Rightarrow> Principal \<Rightarrow> names \<Rightarrow> names" where
  "claim_all ul byName p st = st\<lparr>
     backendUsers := claimed (backendUsers st) (backend_keys p) (ID p),
     googleNames := claimed (googleNames st) (google_keys ul byName p) (ID p),
     azureNames := claimed (azureNames st) (azure_keys byName p) (ID p)\<rparr>"

definition all_free ::
  "(string \<Rightarrow> string) \<Rightarrow> (string \<rightharpoonup> Listener) \<Rightarrow> Principal \<Rightarrow> names \<Rightarrow> bool" where
  "all_free ul byName p st \<longleftrightarrow>
     free_for (backendUsers st) (backend_keys p) (ID p) \<and>
     free_for (googleNames st) (google_keys ul byName p) (ID p) \<and>
     free_for (azureNames st) (azure_keys byName p) (ID p)"

lemma keys_simps:
  "backend_keys (p\<lparr>Grants := []\<rparr>) = []"
  "google_keys ul byName (p\<lparr>Grants := []\<rparr>) = []"
  "azure_keys byName (p\<lparr>Grants := []\<rparr>) = []"
  "backend_keys (p\<lparr>Grants := g # gs\<rparr>) =
     name_key g (BackendUser p) # backend_keys (p\<lparr>Grants := gs\<rparr>)"
  "google_keys ul byName (p\<lparr>Grants := g # gs\<rparr>) =
     (if provider_is byName ''google'' g
      then [name_key g (googleUsername ul (Email p)
              (Engine (case byName g of None \<Rightarrow> zero_Listener | Some l \<Rightarrow> l)))] else []) @
     google_keys ul byName (p\<lparr>Grants := gs\<rparr>)"
  "azure_keys byName (p\<lparr>Grants := g # gs\<rparr>) =
     (if provider_is byName ''azure'' g then [name_key g (Email p)] else []) @
     azure_keys byName (p\<lparr>Grants := gs\<rparr>)"
  by (simp_all add: backend_keys_def google_keys_def azure_keys_def)

lemma validateGrant_iff:
  "validateGrant ul (dom byName) byName p st g = Inr st' \<longleftrightarrow>
     grant_ok byName p g \<and> all_free ul byName (p\<lparr>Grants := [g]\<rparr>) st \<and>
     st' = claim_all ul byName (p\<lparr>Grants := [g]\<rparr>) st"
proof (cases "byName g")
  case None
  then show ?thesis by (simp add: validateGrant_def grant_ok_def domIff)
next
  case (Some l)
  then show ?thesis
    by (cases "Provider l = ''google''"; cases "Provider l = ''azure''"; cases "Email p = []")
      (simp_all add: validateGrant_def grant_ok_def domIff provider_is_def tryR_Inr_iff
        claim_name_iff all_free_def claim_all_def keys_simps Let_def eq_commute [of st'])
qed

lemma all_free_Cons:
  "all_free ul byName (p\<lparr>Grants := [g]\<rparr>) st \<and>
   all_free ul byName (p\<lparr>Grants := gs\<rparr>) (claim_all ul byName (p\<lparr>Grants := [g]\<rparr>) st) \<longleftrightarrow>
   all_free ul byName (p\<lparr>Grants := g # gs\<rparr>) st"
  by (auto simp: all_free_def claim_all_def keys_simps free_for_def claimed_def map_get_def)

lemma claim_all_Cons:
  "claim_all ul byName (p\<lparr>Grants := gs\<rparr>) (claim_all ul byName (p\<lparr>Grants := [g]\<rparr>) st) =
   claim_all ul byName (p\<lparr>Grants := g # gs\<rparr>) st"
  by (simp add: claim_all_def keys_simps)

lemma validateGrants_iff:
  "validateGrants ul (dom byName) byName p st gs = Inr st' \<longleftrightarrow>
     (\<forall>g\<in>set gs. grant_ok byName p g) \<and> all_free ul byName (p\<lparr>Grants := gs\<rparr>) st \<and>
     st' = claim_all ul byName (p\<lparr>Grants := gs\<rparr>) st"
proof (induction gs arbitrary: st)
  case Nil
  then show ?case
    by (auto simp: all_free_def claim_all_def keys_simps)
next
  case (Cons g gs)
  let ?one = "p\<lparr>Grants := [g]\<rparr>" and ?rest = "p\<lparr>Grants := gs\<rparr>"
  have "validateGrants ul (dom byName) byName p st (g # gs) = Inr st' \<longleftrightarrow>
      grant_ok byName p g \<and> (\<forall>g\<in>set gs. grant_ok byName p g) \<and>
      (all_free ul byName ?one st \<and> all_free ul byName ?rest (claim_all ul byName ?one st)) \<and>
      st' = claim_all ul byName ?rest (claim_all ul byName ?one st)"
    unfolding validateGrants.simps tryR_Inr_iff validateGrant_iff Cons.IH by blast
  then show ?case unfolding all_free_Cons claim_all_Cons by simp
qed

subsection \<open>Principals\<close>

definition names_inv :: "names \<Rightarrow> bool" where
  "names_inv st \<longleftrightarrow> [] \<notin> ids st \<and>
     ran (backendUsers st) \<subseteq> ids st \<and> ran (googleNames st) \<subseteq> ids st \<and> ran (azureNames st) \<subseteq> ids st"

definition enter :: "Principal \<Rightarrow> names \<Rightarrow> names" where
  "enter p st = st\<lparr>ids := insert (ID p) (ids st),
     keys := (if AWSAccessKey p = [] then keys st else insert (AWSAccessKey p) (keys st))\<rparr>"

lemma free_for_fresh:
  "ran m \<subseteq> I \<Longrightarrow> [] \<notin> I \<Longrightarrow> pid \<notin> I \<Longrightarrow> free_for m ks pid \<longleftrightarrow> set ks \<inter> dom m = {}"
  by (fastforce simp: free_for_def map_get_def ran_def dom_def split: option.splits)

lemma ran_claimed: "ran (claimed m ks pid) \<subseteq> insert pid (ran m)"
  by (auto simp: claimed_def ran_def)

lemma dom_claimed [simp]: "dom (claimed m ks pid) = set ks \<union> dom m"
  by (auto simp: claimed_def)

lemma all_free_fresh:
  "names_inv st \<Longrightarrow> ID p \<notin> ids st \<Longrightarrow>
     all_free ul byName p (enter p st) \<longleftrightarrow>
       set (backend_keys p) \<inter> dom (backendUsers st) = {} \<and>
       set (google_keys ul byName p) \<inter> dom (googleNames st) = {} \<and>
       set (azure_keys byName p) \<inter> dom (azureNames st) = {}"
  unfolding all_free_def enter_def names_inv_def by (simp add: free_for_fresh [of _ "ids st"])

lemma names_inv_step:
  assumes "names_inv st" "ID p \<noteq> []"
  shows "names_inv (claim_all ul byName p (enter p st))"
proof -
  have "ran m \<subseteq> ids st \<Longrightarrow> ran (claimed m ks (ID p)) \<subseteq> insert (ID p) (ids st)" for m ks
    using ran_claimed [of m ks "ID p"] by blast
  with assms show ?thesis by (simp add: names_inv_def claim_all_def enter_def)
qed

lemma validatePrincipal_iff:
  assumes "names_inv st"
  shows "validatePrincipal ul (dom byName) byName st p = Inr st' \<longleftrightarrow>
     valid_principal byName p \<and> ID p \<notin> ids st \<and>
     (AWSAccessKey p \<noteq> [] \<longrightarrow> AWSAccessKey p \<notin> keys st) \<and>
     set (backend_keys p) \<inter> dom (backendUsers st) = {} \<and>
     set (google_keys ul byName p) \<inter> dom (googleNames st) = {} \<and>
     set (azure_keys byName p) \<inter> dom (azureNames st) = {} \<and>
     st' = claim_all ul byName p (enter p st)"
proof -
  have same: "p\<lparr>Grants := Grants p\<rparr> = p" by simp
  have g: "(\<forall>g\<in>set (Grants p). grant_ok byName p g) \<longleftrightarrow>
      (\<forall>g\<in>set (Grants p). byName g \<noteq> None \<and>
        (provider_is byName ''google'' g \<or> provider_is byName ''azure'' g \<longrightarrow> Email p \<noteq> []))"
    by (simp add: grant_ok_def)
  have e: "enter p st = (if AWSAccessKey p \<noteq> []
        then st\<lparr>ids := insert (ID p) (ids st), keys := insert (AWSAccessKey p) (keys st)\<rparr>
        else st\<lparr>ids := insert (ID p) (ids st)\<rparr>)"
    by (simp add: enter_def)
  have "validatePrincipal ul (dom byName) byName st p = Inr st' \<longleftrightarrow>
     valid_principal byName p \<and> ID p \<notin> ids st \<and>
     (AWSAccessKey p \<noteq> [] \<longrightarrow> AWSAccessKey p \<notin> keys st) \<and>
     all_free ul byName p (enter p st) \<and> st' = claim_all ul byName p (enter p st)"
    unfolding valid_principal_def g [symmetric] e
    by (cases "AWSAccessKey p = []")
      (simp_all add: validatePrincipal_def Let_def validateGrants_iff same conj_ac)
  then show ?thesis using all_free_fresh [OF assms] by blast
qed

lemma disjoint_keys_simps [simp]:
  "disjoint_keys f []"
  "disjoint_keys f (p # ps) \<longleftrightarrow> (\<forall>q\<in>set ps. set (f p) \<inter> set (f q) = {}) \<and> disjoint_keys f ps"
  by (simp_all add: disjoint_keys_def)

lemma disjoint_step:
  "(\<forall>q\<in>set (p # ps). set (f q) \<inter> dom m = {}) \<and> disjoint_keys f (p # ps) \<longleftrightarrow>
   set (f p) \<inter> dom m = {} \<and>
   (\<forall>q\<in>set ps. set (f q) \<inter> dom (claimed m (f p) pid) = {}) \<and> disjoint_keys f ps"
  by auto

definition principals_ok ::
  "(string \<Rightarrow> string) \<Rightarrow> (string \<rightharpoonup> Listener) \<Rightarrow> names \<Rightarrow> Principal list \<Rightarrow> bool" where
  "principals_ok ul byName st ps \<longleftrightarrow>
     (\<forall>p\<in>set ps. valid_principal byName p) \<and>
     (distinct (map ID ps) \<and> ID ` set ps \<inter> ids st = {}) \<and>
     (distinct (access_keys ps) \<and> set (access_keys ps) \<inter> keys st = {}) \<and>
     ((\<forall>p\<in>set ps. set (backend_keys p) \<inter> dom (backendUsers st) = {}) \<and> disjoint_keys backend_keys ps) \<and>
     ((\<forall>p\<in>set ps. set (google_keys ul byName p) \<inter> dom (googleNames st) = {}) \<and>
        disjoint_keys (google_keys ul byName) ps) \<and>
     ((\<forall>p\<in>set ps. set (azure_keys byName p) \<inter> dom (azureNames st) = {}) \<and>
        disjoint_keys (azure_keys byName) ps)"

lemma principals_ok_Cons:
  "principals_ok ul byName st (p # ps) \<longleftrightarrow>
     valid_principal byName p \<and> ID p \<notin> ids st \<and>
     (AWSAccessKey p \<noteq> [] \<longrightarrow> AWSAccessKey p \<notin> keys st) \<and>
     set (backend_keys p) \<inter> dom (backendUsers st) = {} \<and>
     set (google_keys ul byName p) \<inter> dom (googleNames st) = {} \<and>
     set (azure_keys byName p) \<inter> dom (azureNames st) = {} \<and>
     principals_ok ul byName (claim_all ul byName p (enter p st)) ps"
proof -
  have k: "distinct (access_keys (p # ps)) \<and> set (access_keys (p # ps)) \<inter> keys st = {} \<longleftrightarrow>
      (AWSAccessKey p \<noteq> [] \<longrightarrow> AWSAccessKey p \<notin> keys st) \<and>
      distinct (access_keys ps) \<and> set (access_keys ps) \<inter> keys (enter p st) = {}"
    by (auto simp: access_keys_def enter_def)
  have i: "distinct (map ID (p # ps)) \<and> ID ` set (p # ps) \<inter> ids st = {} \<longleftrightarrow>
      ID p \<notin> ids st \<and> distinct (map ID ps) \<and> ID ` set ps \<inter> ids (enter p st) = {}"
    by (auto simp: enter_def)
  have f: "ids (claim_all ul byName p s) = ids s" "keys (claim_all ul byName p s) = keys s"
     "backendUsers (claim_all ul byName p s) = claimed (backendUsers s) (backend_keys p) (ID p)"
     "googleNames (claim_all ul byName p s) = claimed (googleNames s) (google_keys ul byName p) (ID p)"
     "azureNames (claim_all ul byName p s) = claimed (azureNames s) (azure_keys byName p) (ID p)"
     "backendUsers (enter p s) = backendUsers s" "googleNames (enter p s) = googleNames s"
     "azureNames (enter p s) = azureNames s" for s
    by (simp_all add: claim_all_def enter_def)
  have v: "(\<forall>q\<in>set (p # ps). valid_principal byName q) \<longleftrightarrow>
      valid_principal byName p \<and> (\<forall>q\<in>set ps. valid_principal byName q)" by simp
  show ?thesis
    unfolding principals_ok_def f k i v disjoint_step [where pid = "ID p"] by (simp only: conj_ac)
qed

lemma validatePrincipals_iff:
  "names_inv st \<Longrightarrow>
     (\<exists>st'. validatePrincipals ul (dom byName) byName st ps = Inr st') \<longleftrightarrow> principals_ok ul byName st ps"
proof (induction ps arbitrary: st)
  case Nil
  then show ?case by (simp add: principals_ok_def access_keys_def)
next
  case (Cons p ps)
  show ?case
  proof (cases "valid_principal byName p")
    case True
    then have "ID p \<noteq> []" by (simp add: valid_principal_def)
    with Cons.prems have "names_inv (claim_all ul byName p (enter p st))" by (rule names_inv_step)
    from Cons.IH [OF this] show ?thesis
      unfolding principals_ok_Cons validatePrincipals.simps tryR_Inr_iff
        validatePrincipal_iff [OF Cons.prems] by blast
  next
    case False
    then show ?thesis
      unfolding principals_ok_Cons validatePrincipals.simps tryR_Inr_iff
        validatePrincipal_iff [OF Cons.prems] by blast
  qed
qed

subsection \<open>Validate decides valid_config\<close>

lemma principals_ok_empty:
  "principals_ok ul byName no_names ps \<longleftrightarrow>
     (\<forall>p\<in>set ps. valid_principal byName p) \<and> distinct (map ID ps) \<and> distinct (access_keys ps) \<and>
     disjoint_keys backend_keys ps \<and> disjoint_keys (google_keys ul byName) ps \<and>
     disjoint_keys (azure_keys byName) ps"
  by (simp add: principals_ok_def no_names_def)

lemma names_inv_empty: "names_inv no_names"
  by (simp add: names_inv_def no_names_def)

lemma distinct_endpoints:
  "distinct (filter P (h # (if s = [] then [] else [s]) @ xs)) \<longleftrightarrow>
     \<not> (s \<noteq> [] \<and> P s \<and> s = h) \<and> distinct (filter P xs) \<and>
     set (filter P xs) \<inter> ({h} \<union> (if s = [] then {} else {s})) = {}"
  by (cases "s = []"; cases "P h"; cases "P s") auto

lemma Validate_Config_iff:
  "Validate_Config ul c = Inr c' \<longleftrightarrow> valid_config ul (with_default c) \<and> c' = with_default c"
proof -
  define d where "d = with_default c"
  define byName where "byName = index_by_name Map.empty (Listeners d)"
  have dom: "dom byName = Name ` set (Listeners d)" by (simp add: byName_def index_by_name_dom)
  have v: "(\<exists>r. validatePrincipals ul (Name ` set (Listeners d)) byName no_names (Principals d) = Inr r)
      \<longleftrightarrow> principals_ok ul byName no_names (Principals d)"
    using validatePrincipals_iff [OF names_inv_empty] dom by metis
  have fp: "port_of a \<noteq> ''0'' \<longleftrightarrow> fixed_port a" for a by (simp add: fixed_port_def)
  define dup where "dup \<longleftrightarrow> HTTPSListen d \<noteq> [] \<and> fixed_port (HTTPSListen d) \<and> HTTPSListen d = HTTPListen d"
  define as where "as = {HTTPListen d} \<union> (if HTTPSListen d = [] then {} else {HTTPSListen d})"
  have a: "(if HTTPSListen d \<noteq> [] then
              (if fixed_port (HTTPSListen d) \<and> HTTPSListen d \<in> {HTTPListen d} then Inl e
               else Inr (insert (HTTPSListen d) {HTTPListen d}))
            else Inr {HTTPListen d}) = Inr as' \<longleftrightarrow>
        \<not> dup \<and> as' = as"
    for e :: go_error and as'
    unfolding as_def dup_def by (cases "HTTPSListen d = []") (simp_all add: insert_commute, blast+)
  have dist: "distinct (filter fixed_port (endpoint_addresses d)) \<longleftrightarrow>
      \<not> dup \<and>
      distinct (filter fixed_port (map Listen (Listeners d))) \<and>
      set (filter fixed_port (map Listen (Listeners d))) \<inter> as = {}"
    unfolding endpoint_addresses_def as_def dup_def by (rule distinct_endpoints)
  have "Validate_Config ul c = Inr c' \<longleftrightarrow>
      loopbackAddress (HTTPListen d) \<and>
      (HTTPSListen d \<noteq> [] \<longrightarrow> loopbackAddress (HTTPSListen d)) \<and>
      (TLSCert d = [] \<longleftrightarrow> TLSKey d = []) \<and> Listeners d \<noteq> [] \<and>
      \<not> dup \<and>
      ((\<forall>l\<in>set (Listeners d). valid_listener l) \<and> distinct (map Name (Listeners d)) \<and>
       distinct (filter fixed_port (map Listen (Listeners d))) \<and>
       set (filter fixed_port (map Listen (Listeners d))) \<inter> as = {}) \<and>
      (\<exists>r. validatePrincipals ul (Name ` set (Listeners d)) byName no_names (Principals d) = Inr r) \<and>
      c' = d"
    unfolding Validate_Config_def with_default_def [symmetric] d_def [symmetric] Let_def fp
      byName_def [symmetric] if_Inl_Inr tryR_Inr_iff a split_paired_Ex prod.case
      validateListeners_iff Int_empty_right Un_empty_left sum.inject
    unfolding length_0_conv not_not eq_commute [of d] by blast
  then show ?thesis
    unfolding valid_config_def d_def [symmetric] Let_def byName_def [symmetric] dist
      principals_ok_empty [symmetric] v by blast
qed

section \<open>A configuration\<close>

text \<open>
  The fixtures of \<^verbatim>\<open>identity_test.go\<close>, completed with the upstream and backend account that
  validation asks for; the witnesses of the development run on them.
\<close>

definition fixture_aws :: Listener where
  "fixture_aws = \<lparr>Name = ''aws-pg'', Listen = ''127.0.0.1:15432'', Provider = ''aws'',
     Engine = ''postgres'', Instance = ''db'', Hostname = ''db.test'', Region = ''us-east-1'',
     ResourceID = ''db-123'', Tenant = [], Upstream = ''127.0.0.1:5432'', UpstreamTLS = []\<rparr>"

definition fixture_google :: Listener where
  "fixture_google = \<lparr>Name = ''google-my'', Listen = ''127.0.0.1:13306'', Provider = ''google'',
     Engine = ''mysql'', Instance = ''db'', Hostname = [], Region = [],
     ResourceID = [], Tenant = [], Upstream = ''127.0.0.1:3306'', UpstreamTLS = ''disable''\<rparr>"

definition fixture_azure :: Listener where
  "fixture_azure = \<lparr>Name = ''azure-pg'', Listen = ''127.0.0.1:15433'', Provider = ''azure'',
     Engine = ''postgres'', Instance = ''db'', Hostname = [], Region = [],
     ResourceID = [], Tenant = ''tenant-1'', Upstream = ''127.0.0.1:5432'', UpstreamTLS = ''require''\<rparr>"

definition fixture_alice :: Principal where
  "fixture_alice = \<lparr>ID = ''alice'', Email = ''alice@example.com'', Groups = [''readers''],
     Grants = [''aws-pg'', ''google-my'', ''azure-pg''], BackendUser = ''alice'',
     BackendPassword = ''secret'', AWSAccessKey = ''AKIATEST'', AWSSecretKey = ''test-secret'',
     AWSSessionToken = [], ECSAuthorizationToken = [], GoogleRefreshToken = ''refresh'',
     AzureClientID = ''client-1'', AzureClientSecret = ''secret''\<rparr>"

definition fixture_bob :: Principal where
  "fixture_bob = \<lparr>ID = ''bob'', Email = ''Bob@Example.com'', Groups = [],
     Grants = [''google-my'', ''azure-pg''], BackendUser = ''bob'',
     BackendPassword = ''hunter2'', AWSAccessKey = [], AWSSecretKey = [],
     AWSSessionToken = [], ECSAuthorizationToken = [], GoogleRefreshToken = [],
     AzureClientID = [], AzureClientSecret = []\<rparr>"

definition fixture_config :: Config where
  "fixture_config = \<lparr>HTTPListen = ''127.0.0.1:8090'', HTTPSListen = [],
     PublicURL = ''http://127.0.0.1:8090'', TLSCert = [], TLSKey = [],
     Listeners = [fixture_aws, fixture_google, fixture_azure], Principals = [fixture_alice, fixture_bob]\<rparr>"

lemmas fixture_defs =
  fixture_config_def fixture_alice_def fixture_bob_def fixture_aws_def fixture_google_def fixture_azure_def

lemma loopback_127:
  assumes "SplitHostPort a = Inr (''127.0.0.1'', p)"
  shows "loopbackAddress a"
  using assms by (simp add: loopbackAddress_def parse_v4_example IsLoopback_def replicate_numeral)

lemmas eval_net = loopback_127 SplitHostPort_def last_index_def HasPrefix_def

lemma fixture_listeners_valid:
  "valid_listener fixture_aws" "valid_listener fixture_google" "valid_listener fixture_azure"
  by (simp_all add: valid_listener_def fixture_defs eval_net)

lemma fixture_usernames:
  "googleUsername ul (Email fixture_alice) ''mysql'' = ''alice''"
  "googleUsername ul (Email fixture_bob) ''mysql'' = ''bob''"
  by (simp_all add: googleUsername_def fixture_defs ToLower_def ascii_char_def lower_char_def char_of_def bit_Suc_0_iff)

lemma fixture_byName:
  "index_by_name Map.empty (Listeners fixture_config) =
     [''aws-pg'' \<mapsto> fixture_aws, ''google-my'' \<mapsto> fixture_google, ''azure-pg'' \<mapsto> fixture_azure]"
  by (simp add: fixture_config_def) (simp add: fixture_defs)

lemma fixture_config_valid: "valid_config ul fixture_config"
proof -
  let ?byName = "index_by_name Map.empty (Listeners fixture_config)"
  have "distinct (filter fixed_port (endpoint_addresses fixture_config))"
    by (rule distinct_filter) (simp add: fixture_defs endpoint_addresses_def)
  moreover have "loopbackAddress (HTTPListen fixture_config)"
    by (simp add: fixture_defs eval_net)
  moreover have "valid_principal ?byName fixture_alice" "valid_principal ?byName fixture_bob"
    unfolding fixture_byName by (simp_all add: valid_principal_def fixture_defs)
  moreover have "disjoint_keys backend_keys [fixture_alice, fixture_bob]"
    by (simp add: backend_keys_def name_key_def) (simp add: fixture_defs)
  moreover have "Engine fixture_google = ''mysql''" by (simp add: fixture_google_def)
  then have "disjoint_keys (google_keys ul ?byName) [fixture_alice, fixture_bob]"
    unfolding fixture_byName
    by (simp add: google_keys_def name_key_def provider_is_def fixture_usernames
        fixture_alice_def [THEN arg_cong, of Grants] fixture_bob_def [THEN arg_cong, of Grants]
        fixture_google_def [THEN arg_cong, of Provider] fixture_aws_def [THEN arg_cong, of Provider]
        fixture_azure_def [THEN arg_cong, of Provider])
  moreover have "disjoint_keys (azure_keys ?byName) [fixture_alice, fixture_bob]"
    unfolding fixture_byName by (simp add: azure_keys_def name_key_def provider_is_def fixture_defs)
  moreover have "distinct (map ID [fixture_alice, fixture_bob])"
    "distinct (access_keys [fixture_alice, fixture_bob])"
    "distinct (map Name (Listeners fixture_config))" "(TLSCert fixture_config = []) = (TLSKey fixture_config = [])"
    by (simp_all add: access_keys_def fixture_defs)
  ultimately show ?thesis using fixture_listeners_valid
    by (simp add: valid_config_def fixture_config_def)
qed

section \<open>Properties\<close>

text \<open>
  C1: \<^verbatim>\<open>Validate\<close> accepts exactly the configurations that, once the default HTTP address is filled
  in, satisfy the declarative \<open>valid_config\<close>: every listener well formed and on loopback, names and
  fixed-port addresses distinct, every principal well formed and granted known listeners only, and
  no identity, access key, backend account or database username claimed twice on a listener. What
  it returns is the configuration with that default.
\<close>

theorem Validate_accepts_exactly:
  "Validate_Config ul c = Inr c' \<longleftrightarrow> valid_config ul (with_default c) \<and> c' = with_default c"
  by (rule Validate_Config_iff)

lemma disjoint_keysD:
  "disjoint_keys f ps \<Longrightarrow> p \<in> set ps \<Longrightarrow> q \<in> set ps \<Longrightarrow> k \<in> set (f p) \<Longrightarrow> k \<in> set (f q) \<Longrightarrow> p = q"
  by (induction ps) auto

lemma Validate_valid: "Validate_Config ul c = Inr c' \<Longrightarrow> valid_config ul c'"
  by (simp add: Validate_Config_iff)

lemma fixture_validates: "Validate_Config ul fixture_config = Inr fixture_config"
proof -
  have "with_default fixture_config = fixture_config"
    by (simp add: with_default_def fixture_config_def)
  then show ?thesis by (simp add: Validate_Config_iff fixture_config_valid)
qed

lemma fixture_members:
  "fixture_alice \<in> set (Principals fixture_config)" "fixture_bob \<in> set (Principals fixture_config)"
  "fixture_google \<in> set (Listeners fixture_config)" "fixture_azure \<in> set (Listeners fixture_config)"
  "fixture_aws \<in> set (Listeners fixture_config)"
  by (simp_all add: fixture_config_def)

lemma fixture_grants:
  "Granted fixture_alice (Name fixture_google)" "Granted fixture_bob (Name fixture_google)"
  "Granted fixture_alice (Name fixture_azure)" "Granted fixture_bob (Name fixture_azure)"
  "Granted fixture_alice (Name fixture_aws)" "\<not> Granted fixture_bob (Name fixture_aws)"
  by (simp_all add: Granted_def fixture_defs)

lemma fixture_distinct [simp]: "fixture_alice \<noteq> fixture_bob"
  by (simp add: fixture_defs)

lemma byName_listener:
  "valid_config ul c \<Longrightarrow> l \<in> set (Listeners c) \<Longrightarrow>
     index_by_name Map.empty (Listeners c) (Name l) = Some l"
  by (simp add: valid_config_def index_by_name_iff)

lemma Granted_iff [simp]: "Granted p g \<longleftrightarrow> g \<in> set (Grants p)"
  by (auto simp: Granted_def list_ex_iff)

lemma valid_backend_exclusive:
  assumes "valid_config ul c" "p \<in> set (Principals c)" "q \<in> set (Principals c)"
    and "Granted p g" "Granted q g" "BackendUser p = BackendUser q"
  shows "p = q"
proof -
  from assms(1) have d: "disjoint_keys backend_keys (Principals c)"
    by (simp add: valid_config_def Let_def)
  have "name_key g (BackendUser p) \<in> set (backend_keys p)"
    "name_key g (BackendUser p) \<in> set (backend_keys q)"
    using assms(4-6) by (auto simp: backend_keys_def)
  with disjoint_keysD [OF d assms(2,3)] show ?thesis by blast
qed

lemma valid_google_exclusive:
  assumes "valid_config ul c" "l \<in> set (Listeners c)" "p \<in> set (Principals c)" "q \<in> set (Principals c)"
    and "Granted p (Name l)" "Granted q (Name l)" "Provider l = ''google''"
    and "googleUsername ul (Email p) (Engine l) = googleUsername ul (Email q) (Engine l)"
  shows "p = q"
proof -
  let ?byName = "index_by_name Map.empty (Listeners c)"
  let ?k = "name_key (Name l) (googleUsername ul (Email p) (Engine l))"
  from assms(1) have d: "disjoint_keys (google_keys ul ?byName) (Principals c)"
    by (simp add: valid_config_def Let_def)
  have "?k \<in> set (google_keys ul ?byName p)" "?k \<in> set (google_keys ul ?byName q)"
    using assms(5-8) byName_listener [OF assms(1,2)] by (force simp: google_keys_def provider_is_def)+
  with disjoint_keysD [OF d assms(3,4)] show ?thesis by blast
qed

lemma valid_azure_exclusive:
  assumes "valid_config ul c" "l \<in> set (Listeners c)" "p \<in> set (Principals c)" "q \<in> set (Principals c)"
    and "Granted p (Name l)" "Granted q (Name l)" "Provider l = ''azure''" "Email p = Email q"
  shows "p = q"
proof -
  let ?byName = "index_by_name Map.empty (Listeners c)"
  from assms(1) have d: "disjoint_keys (azure_keys ?byName) (Principals c)"
    by (simp add: valid_config_def Let_def)
  have "name_key (Name l) (Email p) \<in> set (azure_keys ?byName p)"
    "name_key (Name l) (Email p) \<in> set (azure_keys ?byName q)"
    using assms(5-8) byName_listener [OF assms(1,2)] by (auto simp: azure_keys_def provider_is_def)
  with disjoint_keysD [OF d assms(3,4)] show ?thesis by blast
qed

text \<open>
  In an accepted configuration two different principals granted the same listener never share
  a backend account there.
\<close>

theorem backend_account_exclusive:
  assumes "Validate_Config ul c = Inr c'"
    and "p \<in> set (Principals c')" "q \<in> set (Principals c')" "p \<noteq> q"
    and "Granted p g" "Granted q g"
  shows "BackendUser p \<noteq> BackendUser q"
  using valid_backend_exclusive [OF Validate_valid [OF assms(1)] assms(2,3,5,6)] assms(4) by blast

theorem backend_account_exclusive_witness:
  "BackendUser fixture_alice \<noteq> BackendUser fixture_bob"
  by (rule backend_account_exclusive [OF fixture_validates fixture_members(1,2) fixture_distinct
        fixture_grants(1,2)])

text \<open>
  C2: In an accepted configuration the e-mails of the principals granted a listener tell them apart. Two
  different principals granted a Google listener have different normalised database usernames
  there, and two granted an Azure listener have different e-mails, which are their user principal
  names. Nothing is said of the other Azure usernames: a group name may be shared by its members.
\<close>

theorem email_usernames_unambiguous:
  assumes "Validate_Config ul c = Inr c'" "l \<in> set (Listeners c')"
    and "p \<in> set (Principals c')" "q \<in> set (Principals c')" "p \<noteq> q"
    and "Granted p (Name l)" "Granted q (Name l)"
  shows "(Provider l = ''google'' \<longrightarrow>
           googleUsername ul (Email p) (Engine l) \<noteq> googleUsername ul (Email q) (Engine l)) \<and>
         (Provider l = ''azure'' \<longrightarrow> Email p \<noteq> Email q)"
  using valid_google_exclusive [OF Validate_valid [OF assms(1)] assms(2-4,6,7)]
    valid_azure_exclusive [OF Validate_valid [OF assms(1)] assms(2-4,6,7)] assms(5) by blast

theorem email_usernames_unambiguous_witness:
  "googleUsername (\<lambda>s. s) (Email fixture_alice) (Engine fixture_google) \<noteq>
     googleUsername (\<lambda>s. s) (Email fixture_bob) (Engine fixture_google)"
  using email_usernames_unambiguous [OF fixture_validates fixture_members(3,1,2) fixture_distinct
      fixture_grants(1,2), of "\<lambda>s. s"]
  by (simp add: fixture_google_def)

lemma ParseConfig_Inr:
  assumes "ParseConfig ul yaml b = Inr c"
  shows "\<exists>d e. fst (yaml b) = Inr d \<and> snd (yaml b) = Inl e \<and> errors_Is e EOF \<and>
    c = with_default d \<and> valid_config ul c"
proof -
  obtain d where d: "fst (yaml b) = Inr d"
    using assms by (cases "fst (yaml b)") (auto simp: ParseConfig_def split: if_splits)
  obtain e where e: "snd (yaml b) = Inl e"
    using assms d by (cases "snd (yaml b)") (auto simp: ParseConfig_def)
  from assms d e show ?thesis
    by (auto simp: ParseConfig_def Validate_Config_iff split: if_splits)
qed

text \<open>
  Whatever the file system and the YAML decoder answer, a configuration that \<^verbatim>\<open>LoadConfig\<close>
  returns satisfies \<open>valid_config\<close>, and it came from a file with exactly one document.
\<close>

theorem LoadConfig_valid:
  assumes "LoadConfig ul yaml ReadFile path = Inr c"
  shows "valid_config ul c \<and>
    (\<exists>b d. ReadFile path = Inr b \<and> fst (yaml b) = Inr d \<and> c = with_default d \<and>
       (\<exists>e. snd (yaml b) = Inl e \<and> errors_Is e EOF))"
proof -
  obtain b where b: "ReadFile path = Inr b"
    using assms by (cases "ReadFile path") (simp_all add: LoadConfig_def)
  with assms have "ParseConfig ul yaml b = Inr c"
    by (cases "ParseConfig ul yaml b") (simp_all add: LoadConfig_def)
  from ParseConfig_Inr [OF this] b show ?thesis by auto
qed

theorem LoadConfig_valid_witness:
  "valid_config (\<lambda>s. s) fixture_config"
proof -
  have "LoadConfig (\<lambda>s. s) (\<lambda>_. (Inr fixture_config, Inl EOF)) (\<lambda>_. Inr []) ''config.yaml'' = Inr fixture_config"
    by (simp add: LoadConfig_def ParseConfig_def fixture_validates)
  from LoadConfig_valid [OF this] show ?thesis by blast
qed

end
