(* ===== verification/GoCodec.thy ===== *)
theory GoCodec
  imports GoNet
begin

text \<open>
  The encodings of Go's standard library that the proxy uses: \<^verbatim>\<open>encoding/hex\<close>,
  \<^verbatim>\<open>base64.RawURLEncoding\<close>, the parts of \<^verbatim>\<open>net/url\<close> behind \<^verbatim>\<open>url.Parse\<close> of an https URL and
  \<^verbatim>\<open>url.ParseQuery\<close>, and \<^verbatim>\<open>time.Parse\<close> and \<^verbatim>\<open>Time.Format\<close> for the layouts that occur. Decoders
  return an option, \<^const>\<open>None\<close> for a non-nil error.
\<close>

section \<open>Hexadecimal\<close>

definition hex_digit :: "nat \<Rightarrow> char" where
  "hex_digit n = (if n < 10 then char_of (48 + n) else char_of (87 + n))"

definition hex_encode :: "bytes \<Rightarrow> string" where
  "hex_encode b = concat (map (\<lambda>w. [hex_digit (unat w div 16), hex_digit (unat w mod 16)]) b)"

fun hex_decode :: "string \<Rightarrow> bytes option" where
  "hex_decode [] = Some []"
| "hex_decode [c] = None"
| "hex_decode (a # b # s) =
     (if is_hex a \<and> is_hex b then
        map_option (Cons (word_of_nat (16 * unhex a + unhex b))) (hex_decode s)
      else None)"

lemma unhex_less: "unhex c < 16"
  unfolding unhex_def Let_def by (simp split: if_split) linarith

lemma hex_digit_unhex: "n < 16 \<Longrightarrow> is_hex (hex_digit n) \<and> unhex (hex_digit n) = n"
  by (cases "n < 10") (simp_all add: hex_digit_def is_hex_def unhex_def Let_def)

lemma unat_byte_less: "unat (w :: byte) < 256"
  using unsigned_less [of w, where ?'a = nat] by simp

lemma hex_decode_encode: "hex_decode (hex_encode b) = Some b"
proof (induction b)
  case (Cons w b)
  have "unat w div 16 < 16" using unat_byte_less [of w] by simp
  with Cons show ?case by (simp add: hex_encode_def hex_digit_unhex)
qed (simp add: hex_encode_def)

lemma length_hex_encode [simp]: "length (hex_encode b) = 2 * length b"
  by (induction b) (simp_all add: hex_encode_def)

lemma hex_decode_length: "hex_decode s = Some b \<Longrightarrow> length s = 2 * length b"
  by (induction s arbitrary: b rule: hex_decode.induct) (auto split: if_splits)

section \<open>Base64\<close>

definition b64_char :: "nat \<Rightarrow> char" where
  "b64_char n = (if n < 26 then char_of (65 + n) else if n < 52 then char_of (71 + n)
     else if n < 62 then char_of (n - 4) else if n = 62 then CHR ''-'' else CHR ''_'')"

definition b64_val :: "char \<Rightarrow> nat option" where
  "b64_val c = (let n = of_char c :: nat in
     if 65 \<le> n \<and> n \<le> 90 then Some (n - 65)
     else if 97 \<le> n \<and> n \<le> 122 then Some (n - 71)
     else if 48 \<le> n \<and> n \<le> 57 then Some (n + 4)
     else if c = CHR ''-'' then Some 62 else if c = CHR ''_'' then Some 63 else None)"

fun b64_sextets :: "bytes \<Rightarrow> nat list" where
  "b64_sextets [] = []"
| "b64_sextets [a] = [unat a div 4, unat a mod 4 * 16]"
| "b64_sextets [a, b] = [unat a div 4, unat a mod 4 * 16 + unat b div 16, unat b mod 16 * 4]"
| "b64_sextets (a # b # c # r) =
     [unat a div 4, unat a mod 4 * 16 + unat b div 16, unat b mod 16 * 4 + unat c div 64,
      unat c mod 64] @ b64_sextets r"

fun b64_bytes :: "nat list \<Rightarrow> bytes option" where
  "b64_bytes [] = Some []"
| "b64_bytes [p] = None"
| "b64_bytes [p, q] = Some [word_of_nat (p * 4 + q div 16)]"
| "b64_bytes [p, q, r] = Some [word_of_nat (p * 4 + q div 16), word_of_nat (q mod 16 * 16 + r div 4)]"
| "b64_bytes (p # q # r # s # t) =
     map_option (\<lambda>b. [word_of_nat (p * 4 + q div 16), word_of_nat (q mod 16 * 16 + r div 4),
       word_of_nat (r mod 4 * 64 + s)] @ b) (b64_bytes t)"

definition b64_encode :: "bytes \<Rightarrow> string" where
  "b64_encode b = map b64_char (b64_sextets b)"

text \<open>The decoder skips line breaks and ignores the unused low bits of a last partial group.\<close>

definition b64_decode :: "string \<Rightarrow> bytes option" where
  "b64_decode s =
     (let vs = map b64_val (filter (\<lambda>c. c \<noteq> CHR 0x0A \<and> c \<noteq> CHR 0x0D) s) in
      if None \<in> set vs then None else b64_bytes (map the vs))"

lemma b64_char_val:
  assumes "n < 64"
  shows "b64_val (b64_char n) = Some n \<and> b64_char n \<noteq> CHR 0x0A \<and> b64_char n \<noteq> CHR 0x0D
    \<and> b64_char n \<noteq> CHR ''.''"
proof -
  have c: "(of_char (char_of m :: char) :: nat) = m" if "m < 256" for m :: nat using that by simp
  have ne: "char_of m \<noteq> CHR 0x0A \<and> char_of m \<noteq> CHR 0x0D \<and> char_of m \<noteq> CHR ''.''
      \<and> char_of m \<noteq> CHR ''-'' \<and> char_of m \<noteq> CHR ''_''"
    if "m < 256" "m \<noteq> 10" "m \<noteq> 13" "m \<noteq> 46" "m \<noteq> 45" "m \<noteq> 95" for m :: nat
  proof -
    have "(of_char (char_of m :: char) :: nat) = m" using that(1) by simp
    then show ?thesis using that(2-) by (auto dest: arg_cong [where f = "of_char :: char \<Rightarrow> nat"])
  qed
  consider "n < 26" | "26 \<le> n" "n < 52" | "52 \<le> n" "n < 62" | "n = 62" | "n = 63"
    using assms by linarith
  then show ?thesis
  proof cases
    case 1
    then show ?thesis using ne [of "65 + n"] by (simp add: b64_char_def b64_val_def)
  next
    case 2
    then show ?thesis using ne [of "71 + n"] by (simp add: b64_char_def b64_val_def)
  next
    case 3
    then show ?thesis using ne [of "n - 4"] by (auto simp: b64_char_def b64_val_def Let_def)
  qed (simp_all add: b64_char_def b64_val_def)
qed

lemma b64_sextets_less: "v \<in> set (b64_sextets b) \<Longrightarrow> v < 64"
proof (induction b rule: b64_sextets.induct)
  case (2 a)
  then show ?case using unat_byte_less [of a] by auto
next
  case (3 a b)
  then show ?case using unat_byte_less [of a] unat_byte_less [of b] by auto
next
  case (4 a b c r)
  then show ?case using unat_byte_less [of a] unat_byte_less [of b] unat_byte_less [of c] by auto
qed simp

lemma pack_digits:
  "r < n \<Longrightarrow> (q * n + r) div n = q \<and> (q * n + r) mod n = r" for q r n :: nat
  by simp

lemma sextet_sums:
  fixes a b c :: nat
  assumes "b < 256" "c < 256"
  shows "a div 4 * 4 + (a mod 4 * 16 + b div 16) div 16 = a"
    "(a mod 4 * 16 + b div 16) mod 16 * 16 + (b mod 16 * 4 + c div 64) div 4 = b"
    "(b mod 16 * 4 + c div 64) mod 4 * 64 + c mod 64 = c"
  using assms pack_digits [of "b div 16" 16 "a mod 4"] pack_digits [of "c div 64" 4 "b mod 16"]
  by (simp_all add: div_mult_mod_eq)

lemma b64_bytes_sextets: "b64_bytes (b64_sextets b) = Some b"
proof (induction b rule: b64_sextets.induct)
  case (2 a)
  then show ?case using sextet_sums(1) [of 0 0 "unat a"] by simp
next
  case (3 a b)
  then show ?case
    using sextet_sums(1,2) [of "unat b" 0 "unat a"] unat_byte_less [of b] by simp
next
  case (4 a b c r)
  then show ?case
    using sextet_sums(1,2) [of "unat b" "unat c" "unat a"] sextet_sums(3) [of "unat b" "unat c"]
      unat_byte_less [of b] unat_byte_less [of c]
    by simp
qed simp

lemma b64_decode_encode: "b64_decode (b64_encode b) = Some b"
proof -
  have f: "filter (\<lambda>c. c \<noteq> CHR 0x0A \<and> c \<noteq> CHR 0x0D) (map b64_char (b64_sextets b)) =
      map b64_char (b64_sextets b)"
    using b64_char_val b64_sextets_less by (fastforce simp: filter_id_conv)
  have v: "map b64_val (map b64_char (b64_sextets b)) = map Some (b64_sextets b)"
    using b64_char_val b64_sextets_less by (auto simp: map_eq_conv)
  show ?thesis
    unfolding b64_decode_def b64_encode_def f v Let_def by (auto simp: b64_bytes_sextets comp_def)
qed

lemma b64_encode_no_dot: "CHR ''.'' \<notin> set (b64_encode b)"
  using b64_char_val b64_sextets_less by (fastforce simp: b64_encode_def)

lemma b64_encode_inj: "b64_encode a = b64_encode b \<Longrightarrow> a = b"
  by (metis b64_decode_encode option.inject)

section \<open>URL escapes\<close>

datatype url_mode = encodePath | encodeHost | encodeZone | encodeQueryComponent | encodeFragment

definition is_alnum :: "char \<Rightarrow> bool" where
  "is_alnum c \<longleftrightarrow> (let n = of_char c :: nat in
     97 \<le> n \<and> n \<le> 122 \<or> 65 \<le> n \<and> n \<le> 90 \<or> 48 \<le> n \<and> n \<le> 57)"

definition shouldEscape :: "char \<Rightarrow> url_mode \<Rightarrow> bool" where
  "shouldEscape c mode \<longleftrightarrow>
     (if is_alnum c then False
      else if (mode = encodeHost \<or> mode = encodeZone) \<and> c \<in> set ''!$&()*+,;=:[]<>'' \<union> {CHR 0x27, CHR 0x22}
      then False
      else if c \<in> set ''-_.~'' then False
      else if c \<in> set ''$&+,/:;=?@'' \<and> mode = encodePath then c = CHR ''?''
      else if c \<in> set ''$&+,/:;=?@'' \<and> mode = encodeQueryComponent then True
      else if c \<in> set ''$&+,/:;=?@'' \<and> mode = encodeFragment then False
      else if mode = encodeFragment \<and> c \<in> set ''!()*'' then False
      else True)"

fun unescape :: "url_mode \<Rightarrow> string \<Rightarrow> string option" where
  "unescape m [] = Some []"
| "unescape m (c # s) =
     (if c = CHR ''%'' then
        (case s of
           a # b # r \<Rightarrow>
             if \<not> is_hex a \<or> \<not> is_hex b then None
             else if m = encodeHost \<and> unhex a < 8 \<and> [a, b] \<noteq> ''25'' then None
             else if m = encodeZone \<and> [a, b] \<noteq> ''25'' \<and> 16 * unhex a + unhex b \<noteq> 32 \<and>
               shouldEscape (char_of (16 * unhex a + unhex b)) encodeHost then None
             else map_option (Cons (char_of (16 * unhex a + unhex b))) (unescape m r)
         | _ \<Rightarrow> None)
      else if c = CHR ''+'' then
        map_option (Cons (if m = encodeQueryComponent then CHR '' '' else c)) (unescape m s)
      else if (m = encodeHost \<or> m = encodeZone) \<and> ascii_char c \<and> shouldEscape c m then None
      else map_option (Cons c) (unescape m s))"

abbreviation QueryUnescape :: "string \<Rightarrow> string option" where
  "QueryUnescape \<equiv> unescape encodeQueryComponent"

definition upper_hex :: "nat \<Rightarrow> char" where
  "upper_hex n = (if n < 10 then char_of (48 + n) else char_of (55 + n))"

definition url_escape :: "url_mode \<Rightarrow> string \<Rightarrow> string" where
  "url_escape m s = concat (map (\<lambda>c.
     if m = encodeQueryComponent \<and> c = CHR '' '' then ''+''
     else if shouldEscape c m then
       [CHR ''%'', upper_hex (of_char c div 16), upper_hex (of_char c mod 16)]
     else [c]) s)"

lemma upper_hex_unhex: "n < 16 \<Longrightarrow> is_hex (upper_hex n) \<and> unhex (upper_hex n) = n"
  by (cases "n < 10") (simp_all add: upper_hex_def is_hex_def unhex_def Let_def)

section \<open>Query strings\<close>

text \<open>
  \<^verbatim>\<open>url.Values\<close> as the list of its key-value pairs in the order of arrival; the values of a key
  are those of its pairs, in order. Iterating over the Go map visits the keys in any order.
\<close>

type_synonym url_values = "(string \<times> string) list"

definition values_of :: "url_values \<Rightarrow> string \<Rightarrow> string list" where
  "values_of v k = map snd (filter (\<lambda>kv. fst kv = k) v)"

definition Get :: "url_values \<Rightarrow> string \<Rightarrow> string" where
  "Get v k = (case values_of v k of [] \<Rightarrow> [] | x # _ \<Rightarrow> x)"

definition delete_key :: "url_values \<Rightarrow> string \<Rightarrow> url_values" where
  "delete_key v k = filter (\<lambda>kv. fst kv \<noteq> k) v"

text \<open>One segment between ampersands: no pair, a pair, or an error.\<close>

definition parse_segment :: "string \<Rightarrow> url_values option" where
  "parse_segment seg =
     (if CHR '';'' \<in> set seg then None
      else if seg = [] then Some []
      else case Cut seg CHR ''='' of (key, value, _) \<Rightarrow>
        case QueryUnescape key of None \<Rightarrow> None
        | Some k \<Rightarrow> (case QueryUnescape value of None \<Rightarrow> None | Some v \<Rightarrow> Some [(k, v)]))"

text \<open>\<^verbatim>\<open>url.ParseQuery\<close>: the pairs of the good segments, and whether there was no error.\<close>

definition max_query_params :: nat where
  "max_query_params = 10000"

definition ParseQuery :: "string \<Rightarrow> url_values \<times> bool" where
  "ParseQuery query =
     (let segs = Split query CHR ''&'' in
      if length segs > max_query_params then ([], False)
      else (concat (map (\<lambda>s. case parse_segment s of None \<Rightarrow> [] | Some kv \<Rightarrow> kv) segs),
            list_all (\<lambda>s. parse_segment s \<noteq> None) segs))"

section \<open>URLs\<close>

record url =
  User :: bool  \<comment> \<open>whether \<^verbatim>\<open>User\<close> is non-nil\<close>
  Host :: string
  Path :: string
  RawPath :: string
  RawQuery :: string
  Fragment :: string

definition validOptionalPort :: "string \<Rightarrow> bool" where
  "validOptionalPort port \<longleftrightarrow>
     port = [] \<or> (hd port = colon \<and> list_all is_digit (tl port))"

text \<open>Whether a bracketed host is an IPv6 address, possibly with a zone.\<close>

definition ipv6_literal :: "string \<Rightarrow> bool" where
  "ipv6_literal h \<longleftrightarrow>
     (case filter (\<lambda>c. c = CHR ''.'' \<or> c = colon \<or> c = CHR ''%'') h of
        [] \<Rightarrow> False
      | c # _ \<Rightarrow> c = colon \<and>
          (case Cut h CHR ''%'' of (addr, zone, found) \<Rightarrow>
             (found \<longrightarrow> zone \<noteq> []) \<and> parseIPv6 addr \<noteq> None))"

fun find_zone :: "string \<Rightarrow> (string \<times> string) option" where
  "find_zone [] = None"
| "find_zone (c # s) =
     (if HasPrefix (c # s) ''%25'' then Some ([], c # s)
      else map_option (\<lambda>(a, b). (c # a, b)) (find_zone s))"

definition bracket_host :: "string \<Rightarrow> string \<Rightarrow> string option" where
  "bracket_host hostname colonPort =
     (if \<not> validOptionalPort colonPort then None
      else case unescape encodeHost colonPort of None \<Rightarrow> None
      | Some port \<Rightarrow>
          let name = (case find_zone hostname of
                None \<Rightarrow> unescape encodeHost hostname
              | Some (a, z) \<Rightarrow>
                  (case unescape encodeHost a of None \<Rightarrow> None
                   | Some a' \<Rightarrow> map_option ((@) a') (unescape encodeZone z))) in
          case name of None \<Rightarrow> None
          | Some h \<Rightarrow> if ipv6_literal h then Some ([lbrack] @ h @ [rbrack] @ port) else None)"

definition parseHost :: "string \<Rightarrow> string option" where
  "parseHost host =
     (case last_index host lbrack of
        Some i \<Rightarrow>
          if i > 0 then None
          else (case last_index host rbrack of
                  None \<Rightarrow> None
                | Some e \<Rightarrow> bracket_host (drop 1 (take e host)) (drop (Suc e) host))
      | None \<Rightarrow>
          (case index_of host colon of
             Some i \<Rightarrow> if validOptionalPort (drop i host) then unescape encodeHost host else None
           | None \<Rightarrow> unescape encodeHost host))"

text \<open>
  \<^verbatim>\<open>url.Parse("https://" + s)\<close>. The scheme is always \<^verbatim>\<open>https\<close> and the rest starts with \<^verbatim>\<open>//\<close>, so
  only the authority form of the parser is reached. User information makes \<^verbatim>\<open>User\<close> non-nil or is
  an error; both show as \<^const>\<open>User\<close> here, since the caller refuses either.
\<close>

definition is_ctl :: "char \<Rightarrow> bool" where
  "is_ctl c \<longleftrightarrow> (of_char c :: nat) < 32 \<or> (of_char c :: nat) = 127"

definition url_Parse_https :: "string \<Rightarrow> url option" where
  "url_Parse_https s =
     (case Cut s CHR ''#'' of (u, frag, _) \<Rightarrow>
      if list_ex is_ctl u then None
      else case Cut u CHR ''?'' of (rest, query, _) \<Rightarrow>
        let authority = takeWhile (\<lambda>c. c \<noteq> CHR ''/'') rest;
            path = dropWhile (\<lambda>c. c \<noteq> CHR ''/'') rest;
            user = CHR ''@'' \<in> set authority;
            host = (case last_index authority CHR ''@'' of None \<Rightarrow> authority | Some i \<Rightarrow> drop (Suc i) authority)
        in case parseHost host of None \<Rightarrow> None
        | Some h \<Rightarrow>
            (case unescape encodePath path of None \<Rightarrow> None
             | Some p \<Rightarrow>
                 (case unescape encodeFragment frag of None \<Rightarrow> None
                  | Some f \<Rightarrow> Some \<lparr>User = user, Host = h, Path = p,
                      RawPath = (if url_escape encodePath p = path then [] else path),
                      RawQuery = query, Fragment = f\<rparr>)))"

section \<open>Dates\<close>

definition second :: int where "second = 1000000000"
definition minute :: int where "minute = 60 * second"
definition hour :: int where "hour = 3600 * second"

text \<open>\<^verbatim>\<open>Time.Unix\<close>: whole seconds, rounded towards minus infinity.\<close>

definition Unix :: "time \<Rightarrow> int" where
  "Unix t = t div second"

definition days_from_civil :: "int \<Rightarrow> int \<Rightarrow> int \<Rightarrow> int" where
  "days_from_civil y m d =
     (let y' = (if m \<le> 2 then y - 1 else y); era = y' div 400; yoe = y' - era * 400;
          doy = (153 * (if m > 2 then m - 3 else m + 9) + 2) div 5 + d - 1;
          doe = yoe * 365 + yoe div 4 - yoe div 100 + doy
      in era * 146097 + doe - 719468)"

definition civil_from_days :: "int \<Rightarrow> int \<times> int \<times> int" where
  "civil_from_days days =
     (let z = days + 719468; era = z div 146097; doe = z - era * 146097;
          yoe = (doe - doe div 1460 + doe div 36524 - doe div 146096) div 365;
          doy = doe - (365 * yoe + yoe div 4 - yoe div 100);
          mp = (5 * doy + 2) div 153; d = doy - (153 * mp + 2) div 5 + 1;
          m = (if mp < 10 then mp + 3 else mp - 9); y = yoe + era * 400
      in (if m \<le> 2 then y + 1 else y, m, d))"

definition is_leap :: "int \<Rightarrow> bool" where
  "is_leap y \<longleftrightarrow> y mod 4 = 0 \<and> (y mod 100 \<noteq> 0 \<or> y mod 400 = 0)"

definition daysIn :: "int \<Rightarrow> int \<Rightarrow> int" where
  "daysIn m y = (if m = 2 then (if is_leap y then 29 else 28)
     else if m \<in> {4, 6, 9, 11} then 30 else 31)"

definition getnum :: "bool \<Rightarrow> string \<Rightarrow> (int \<times> string) option" where
  "getnum fixed s =
     (case s of [] \<Rightarrow> None
      | c # r \<Rightarrow>
          if \<not> is_digit c then None
          else case r of
              [] \<Rightarrow> if fixed then None else Some (int (digit_val c), [])
            | d # r' \<Rightarrow>
                if is_digit d then Some (int (10 * digit_val c + digit_val d), r')
                else if fixed then None else Some (int (digit_val c), r))"

definition skip_char :: "char \<Rightarrow> string \<Rightarrow> string option" where
  "skip_char c s = (if HasPrefix s [c] then Some (drop 1 s) else None)"

text \<open>
  A fraction after the seconds is accepted though the layout has none: the nanoseconds of at most
  nine digits, and the rest.
\<close>

definition frac_seconds :: "string \<Rightarrow> int \<times> string" where
  "frac_seconds s =
     (case s of
        c # d # _ \<Rightarrow>
          if (c = CHR ''.'' \<or> c = CHR '','') \<and> is_digit d then
            (let ds = takeWhile is_digit (drop 1 s); used = take 9 ds
             in (int (dec_val used) * 10 ^ (9 - length used), drop (Suc (length ds)) s))
          else (0, s)
      | _ \<Rightarrow> (0, s))"

text \<open>\<^verbatim>\<open>time.Parse("20060102T150405Z", s)\<close>.\<close>

definition parse_year :: "string \<Rightarrow> (int \<times> string) option" where
  "parse_year s = (if length s < 4 \<or> \<not> list_all is_digit (take 4 s) then None
     else Some (int (dec_val (take 4 s)), drop 4 s))"

definition in_range :: "int \<Rightarrow> int \<Rightarrow> (int \<times> string) option \<Rightarrow> (int \<times> string) option" where
  "in_range lo hi r = (case r of None \<Rightarrow> None
     | Some (n, s) \<Rightarrow> if lo \<le> n \<and> n \<le> hi then Some (n, s) else None)"

definition parse_amz_date :: "string \<Rightarrow> time option" where
  "parse_amz_date s0 =
     Option.bind (parse_year s0) (\<lambda>(year, s).
     Option.bind (in_range 1 12 (getnum True s)) (\<lambda>(month, s).
     Option.bind (getnum True s) (\<lambda>(day, s).
     Option.bind (skip_char CHR ''T'' s) (\<lambda>s.
     Option.bind (in_range 0 23 (getnum False s)) (\<lambda>(hr, s).
     Option.bind (in_range 0 59 (getnum True s)) (\<lambda>(mi, s).
     Option.bind (in_range 0 59 (getnum True s)) (\<lambda>(sec, s).
     case frac_seconds s of (nsec, s) \<Rightarrow>
     Option.bind (skip_char CHR ''Z'' s) (\<lambda>s.
     if s \<noteq> [] \<or> day < 1 \<or> day > daysIn month year then None
     else Some (((days_from_civil year month day * 24 + hr) * 60 + mi) * minute + sec * second + nsec)))))))))"

lemma parse_amz_date_length: "parse_amz_date s = Some t \<Longrightarrow> 8 \<le> length s"
proof -
  assume "parse_amz_date s = Some t"
  then obtain y s1 m s2 d s3 where *: "parse_year s = Some (y, s1)"
    "in_range 1 12 (getnum True s1) = Some (m, s2)" "getnum True s2 = Some (d, s3)"
    by (auto simp: parse_amz_date_def bind_eq_Some_conv)
  have g: "getnum True x = Some (n, x') \<Longrightarrow> length x = length x' + 2" for x n x'
    by (auto simp: getnum_def split: list.splits if_splits)
  have "getnum True s1 = Some (m, s2)"
    using *(2) by (auto simp: in_range_def split: option.splits if_splits)
  from g [OF this] g [OF *(3)] *(1) show ?thesis
    by (auto simp: parse_year_def split: if_splits)
qed

lemma parse_amz_date_day: "parse_amz_date s = Some t \<Longrightarrow> list_all is_digit (take 8 s)"
proof -
  assume "parse_amz_date s = Some t"
  then obtain y s1 m s2 d s3 where *: "parse_year s = Some (y, s1)"
    "in_range 1 12 (getnum True s1) = Some (m, s2)" "getnum True s2 = Some (d, s3)"
    by (auto simp: parse_amz_date_def bind_eq_Some_conv)
  have g: "getnum True x = Some (n, x') \<Longrightarrow> \<exists>a b. x = a # b # x' \<and> is_digit a \<and> is_digit b" for x n x'
    by (auto simp: getnum_def split: list.splits if_splits)
  have "getnum True s1 = Some (m, s2)"
    using *(2) by (auto simp: in_range_def split: option.splits if_splits)
  from g [OF this] g [OF *(3)] obtain a b c e where
    "s1 = a # b # c # e # s3" "is_digit a" "is_digit b" "is_digit c" "is_digit e" by auto
  moreover obtain q where "s = q @ s1" "length q = 4" "list_all is_digit q"
    using *(1) by (metis append_take_drop_id length_take min.absorb2 not_less option.discI
        option.inject parse_year_def prod.inject)
  ultimately show ?thesis by simp
qed

text \<open>The layouts \<^verbatim>\<open>time.RFC3339\<close> and \<^verbatim>\<open>time.RFC3339Nano\<close> in UTC.\<close>

definition pad :: "nat \<Rightarrow> int \<Rightarrow> string" where
  "pad w n = (let s = dec_string (nat n) in replicate (w - length s) CHR ''0'' @ s)"

definition rfc3339_seconds :: "time \<Rightarrow> string" where
  "rfc3339_seconds t =
     (let u = Unix t; sod = u mod 86400 in
      case civil_from_days (u div 86400) of (y, m, d) \<Rightarrow>
        pad 4 y @ ''-'' @ pad 2 m @ ''-'' @ pad 2 d @ ''T'' @
        pad 2 (sod div 3600) @ '':'' @ pad 2 (sod mod 3600 div 60) @ '':'' @ pad 2 (sod mod 60))"

definition RFC3339 :: "time \<Rightarrow> string" where
  "RFC3339 t = rfc3339_seconds t @ ''Z''"

definition RFC3339Nano :: "time \<Rightarrow> string" where
  "RFC3339Nano t =
     (let ns = t mod second; f = rev (dropWhile (\<lambda>c. c = CHR ''0'') (rev (pad 9 ns))) in
      rfc3339_seconds t @ (if ns = 0 then [] else CHR ''.'' # f) @ ''Z'')"

end
