(* ===== verification/Service.thy ===== *)
theory Service
  imports ProxyConfig GoCodec
begin

text \<open>
  The shared state of the credential issuer and the validators (\<^verbatim>\<open>service\<close> in
  \<^verbatim>\<open>iamproxy/identity.go\<close>), the code outside the repository it relies on, as a record of
  parameters, and the interface of an expiring token store, which the Google token registry here
  and the IMDSv2 token table of the HTTP component both provide.
\<close>

section \<open>The platform\<close>

text \<open>
  JSON values as the code builds them. Marshalling them, and unmarshalling into the two anonymous
  structs of \<^verbatim>\<open>validateAzure\<close>, is the platform's, as are SHA-256, RSA and the Unicode tables.
\<close>

datatype json = JStr string | JInt int | JArr "json list" | JObj "(string \<times> json) list" | JNull

record jwt_header =
  Alg :: string
  Kid :: string

record jwt_claims =
  Iss :: string
  Aud :: string
  Tid :: string
  Oid :: string
  Upn :: string
  Nbf :: int
  Exp :: int
  ClaimGroups :: "string list"

record rsa_key =
  modulus :: bytes
  exponent :: bytes

record platform =
  unicode_lower :: "string \<Rightarrow> string"
  sha256 :: "bytes \<Rightarrow> bytes"
  rsa_sign :: "rsa_key \<Rightarrow> bytes \<Rightarrow> bytes result"
  rsa_verify :: "rsa_key \<Rightarrow> bytes \<Rightarrow> bytes \<Rightarrow> bool"
  json_Marshal :: "json \<Rightarrow> string"
  unmarshal_header :: "string \<Rightarrow> jwt_header option"
  unmarshal_claims :: "string \<Rightarrow> jwt_claims option"

text \<open>\<^verbatim>\<open>subtle.ConstantTimeCompare(x, y) == 1\<close>: equal lengths and no differing byte.\<close>

definition ConstantTimeCompare :: "bytes \<Rightarrow> bytes \<Rightarrow> bool" where
  "ConstantTimeCompare x y \<longleftrightarrow>
     length x = length y \<and> fold (\<lambda>(a, b) acc. acc OR (a XOR b)) (zip x y) 0 = 0"

lemma xor_zero_iff: "a XOR b = 0 \<longleftrightarrow> a = b" for a b :: byte
proof
  assume "a XOR b = 0"
  then have "(a XOR b) XOR b = b" by simp
  then show "a = b" by (simp add: xor.assoc)
qed simp

lemma or_zero_iff: "a OR b = 0 \<longleftrightarrow> a = 0 \<and> b = 0" for a b :: byte
  by (simp add: or_eq_0_iff)

lemma fold_or_zero:
  "length x = length y \<Longrightarrow>
     fold (\<lambda>(a, b) acc. acc OR (a XOR b)) (zip x y) (w :: byte) = 0 \<longleftrightarrow> w = 0 \<and> x = y"
  by (induction x y arbitrary: w rule: list_induct2) (auto simp: or_zero_iff xor_zero_iff)

lemma ConstantTimeCompare_iff [simp]: "ConstantTimeCompare x y \<longleftrightarrow> x = y"
  by (auto simp: ConstantTimeCompare_def fold_or_zero)

definition checkSecret :: "string \<Rightarrow> string \<Rightarrow> bool" where
  "checkSecret a b \<longleftrightarrow> ConstantTimeCompare (bytes_of_string a) (bytes_of_string b)"

lemma checkSecret_iff [simp]: "checkSecret a b \<longleftrightarrow> a = b"
  by (simp add: checkSecret_def)

section \<open>State\<close>

record googleToken =
  TokenPrincipal :: string
  Scope :: string
  Expiry :: time

record service =
  SConfig :: Config
  googleTokens :: "string \<rightharpoonup> googleToken"
  azureKey :: rsa_key

text \<open>Key generation is the platform's; it is the only way \<^verbatim>\<open>newService\<close> fails.\<close>

definition newService :: "Config \<Rightarrow> rsa_key result \<Rightarrow> service result" where
  "newService c generated =
     tryR generated (\<lambda>key. Inr \<lparr>SConfig = c, googleTokens = Map.empty, azureKey = key\<rparr>)"

definition principal :: "service \<Rightarrow> string \<Rightarrow> Principal option" where
  "principal s pid = find (\<lambda>p. ID p = pid) (Principals (SConfig s))"

lemma principal_SomeD: "principal s pid = Some p \<Longrightarrow> p \<in> set (Principals (SConfig s)) \<and> ID p = pid"
  by (auto simp: principal_def find_Some_iff)

lemma find_distinct_key:
  "distinct (map f xs) \<Longrightarrow> x \<in> set xs \<Longrightarrow> find (\<lambda>y. f y = f x) xs = Some x"
  by (induction xs) (auto simp: image_iff)

lemma principal_ID:
  "distinct (map ID (Principals (SConfig s))) \<Longrightarrow> p \<in> set (Principals (SConfig s)) \<Longrightarrow>
     principal s (ID p) = Some p"
  by (simp add: principal_def find_distinct_key)

definition googleSQLScope :: string where
  "googleSQLScope = ''https://www.googleapis.com/auth/sqlservice.login''"

definition cloudPlatformScope :: string where
  "cloudPlatformScope = ''https://www.googleapis.com/auth/cloud-platform''"

definition azureAudience :: string where
  "azureAudience = ''https://ossrdbms-aad.database.windows.net''"

text \<open>\<open>rnd\<close> is what \<^verbatim>\<open>rand.Read\<close> put into the buffer, \<open>now\<close> the reading of the clock.\<close>

definition google_token_string :: "bytes \<Rightarrow> string" where
  "google_token_string rnd = ''ya29.mock.'' @ b64_encode rnd"

definition googleIssue :: "service \<Rightarrow> Principal \<Rightarrow> string \<Rightarrow> bytes \<Rightarrow> time \<Rightarrow> service \<times> string \<times> int" where
  "googleIssue s p scope rnd now =
     (let token = google_token_string rnd in
      (s\<lparr>googleTokens := (googleTokens s)(token \<mapsto>
          \<lparr>TokenPrincipal = ID p, Scope = scope, Expiry = now + hour\<rparr>)\<rparr>, token, 3600))"

section \<open>Expiring token stores\<close>

text \<open>
  What the validators rely on: a token just stored is found with what was stored, storing never
  changes another token's entry, and drops it only once expired.
\<close>

locale token_store =
  fixes lookup :: "'st \<Rightarrow> 'tok \<Rightarrow> 'info option"
    and expiry :: "'info \<Rightarrow> time"
    and store :: "'e \<Rightarrow> time \<Rightarrow> 'tok \<Rightarrow> 'info \<Rightarrow> 'st \<Rightarrow> 'st"
  assumes lookup_store_same: "lookup (store e now t i st) t = Some i"
    and lookup_store_other: "u \<noteq> t \<Longrightarrow> lookup (store e now t i st) u = Some j \<Longrightarrow> lookup st u = Some j"
    and store_keeps: "u \<noteq> t \<Longrightarrow> lookup st u = Some j \<Longrightarrow> now < expiry j \<Longrightarrow>
       lookup (store e now t i st) u = Some j"
begin

definition live :: "'st \<Rightarrow> 'tok \<Rightarrow> time \<Rightarrow> bool" where
  "live st t now \<longleftrightarrow> (\<exists>i. lookup st t = Some i \<and> now < expiry i)"

fun store_all :: "('e \<times> time \<times> 'tok \<times> 'info) list \<Rightarrow> 'st \<Rightarrow> 'st" where
  "store_all [] st = st"
| "store_all ((e, now, t, i) # es) st = store_all es (store e now t i st)"

lemma live_store: "now' < expiry i \<Longrightarrow> live (store e now t i st) t now'"
  by (simp add: live_def lookup_store_same)

text \<open>A token live at a later reading survives every store made before that reading.\<close>

lemma live_store_other: "u \<noteq> t \<Longrightarrow> live st u now' \<Longrightarrow> now \<le> now' \<Longrightarrow> live (store e now t i st) u now'"
  unfolding live_def using store_keeps by (meson order_le_less_trans)

text \<open>No token comes from nowhere: what is found was there before or was stored.\<close>

lemma store_origin:
  "lookup (store e now u j st) t = Some i \<Longrightarrow> t = u \<and> i = j \<or> lookup st t = Some i"
  by (cases "t = u") (simp add: lookup_store_same, blast dest: lookup_store_other)

lemma store_all_origin:
  "lookup (store_all es st) t = Some i \<Longrightarrow>
     lookup st t = Some i \<or> (\<exists>e now. (e, now, t, i) \<in> set es)"
proof (induction es st rule: store_all.induct)
  case (2 e now u j es st)
  from 2 have "lookup (store e now u j st) t = Some i \<or> (\<exists>e now. (e, now, t, i) \<in> set es)" by simp
  then show ?case using store_origin [of e now u j st t i] by auto
qed simp

lemma store_all_live:
  "live st t now' \<Longrightarrow> \<forall>(e, now, u, i)\<in>set es. u \<noteq> t \<and> now \<le> now' \<Longrightarrow> live (store_all es st) t now'"
  by (induction es st rule: store_all.induct) (auto intro: live_store_other)

end

definition google_store :: "unit \<Rightarrow> time \<Rightarrow> string \<Rightarrow> googleToken \<Rightarrow> service \<Rightarrow> service" where
  "google_store u now t i s = s\<lparr>googleTokens := (googleTokens s)(t \<mapsto> i)\<rparr>"

interpretation google: token_store googleTokens Expiry google_store
  by unfold_locales (auto simp: google_store_def)

lemma googleIssue_store:
  "googleIssue s p scope rnd now =
     (google_store () now (google_token_string rnd)
        \<lparr>TokenPrincipal = ID p, Scope = scope, Expiry = now + hour\<rparr> s,
      google_token_string rnd, 3600)"
  by (simp add: googleIssue_def google_store_def Let_def)

lemma SConfig_google_store [simp]: "SConfig (google_store u now t i s) = SConfig s"
  by (simp add: google_store_def)

lemma principal_google_store [simp]: "principal (google_store u now t i s) pid = principal s pid"
  by (simp add: principal_def)

section \<open>A concrete platform\<close>

text \<open>
  The parameters at concrete functions, for the examples: a digest that pads or cuts to 32 bytes,
  signatures that repeat the digest, and a JSON writer that keeps the object id, from which the
  reader knows the claims of the tokens issued to the two principals at one time.
\<close>

definition fixture_header :: jwt_header where
  "fixture_header = \<lparr>Alg = ''RS256'', Kid = ''mock-1''\<rparr>"

definition fixture_claims :: "string \<Rightarrow> jwt_claims" where
  "fixture_claims oid = \<lparr>Iss = ''http://127.0.0.1:8090/tenant-1/v2.0'', Aud = azureAudience,
     Tid = ''tenant-1'', Oid = oid,
     Upn = (if oid = ''alice'' then ''alice@example.com'' else ''Bob@Example.com''),
     Nbf = 1790294400, Exp = 1790298000, ClaimGroups = (if oid = ''alice'' then [''readers''] else [])\<rparr>"

definition fixture_marshal :: "json \<Rightarrow> string" where
  "fixture_marshal j = (case j of
     JObj m \<Rightarrow> (case map_of m ''oid'' of Some (JStr s) \<Rightarrow> s | _ \<Rightarrow> []) | _ \<Rightarrow> [])"

definition fixture_platform :: platform where
  "fixture_platform = \<lparr>unicode_lower = (\<lambda>s. s), sha256 = (\<lambda>b. take 32 (b @ replicate 32 0)),
     rsa_sign = (\<lambda>_ h. Inr h), rsa_verify = (\<lambda>_ h sig. sig = h),
     json_Marshal = fixture_marshal, unmarshal_header = (\<lambda>_. Some fixture_header),
     unmarshal_claims = (\<lambda>s. Some (fixture_claims s))\<rparr>"

definition fixture_service :: service where
  "fixture_service = \<lparr>SConfig = fixture_config, googleTokens = Map.empty,
     azureKey = \<lparr>modulus = [1], exponent = [1, 0, 1]\<rparr>\<rparr>"

end
