(* ===== verification/Aws.thy ===== *)
theory Aws
  imports Service "HOL-Library.List_Lexorder" "HOL-Library.Char_ord" "HOL-Library.Multiset"
begin

text \<open>
  RDS IAM tokens (\<^verbatim>\<open>iamproxy/aws.go\<close>): the canonical query of SigV4 and the validation of a
  presigned \<^verbatim>\<open>rds-db\<close> URL. The lemmas show that \<^verbatim>\<open>url.ParseQuery\<close> reads back what \<open>awsQuery\<close>
  writes, that the canonical form does not depend on the order in which Go visits the map, that
  validation never panics, and that it accepts exactly the tokens signed with the principal's
  secret for this endpoint, user, region and time window.
\<close>

section \<open>Signing\<close>

text \<open>\<^verbatim>\<open>hmac.New(sha256.New, key)\<close>: a 64-byte block.\<close>

definition hmac_sha256 :: "platform \<Rightarrow> bytes \<Rightarrow> bytes \<Rightarrow> bytes" where
  "hmac_sha256 P key msg =
     (let k = (if length key > 64 then sha256 P key else key);
          block = k @ replicate (64 - length k) 0;
          inner = sha256 P (map (\<lambda>b. b XOR 0x36) block @ msg)
      in sha256 P (map (\<lambda>b. b XOR 0x5c) block @ inner))"

definition awsHMAC :: "platform \<Rightarrow> bytes \<Rightarrow> string \<Rightarrow> bytes" where
  "awsHMAC P key msg = hmac_sha256 P key (bytes_of_string msg)"

definition aws_unreserved :: "char \<Rightarrow> bool" where
  "aws_unreserved c \<longleftrightarrow>
     (of_char CHR ''A'' :: nat) \<le> of_char c \<and> (of_char c :: nat) \<le> of_char CHR ''Z'' \<or>
     (of_char CHR ''a'' :: nat) \<le> of_char c \<and> (of_char c :: nat) \<le> of_char CHR ''z'' \<or>
     (of_char CHR ''0'' :: nat) \<le> of_char c \<and> (of_char c :: nat) \<le> of_char CHR ''9'' \<or>
     c = CHR ''-'' \<or> c = CHR ''_'' \<or> c = CHR ''.'' \<or> c = CHR ''~''"

definition hexchars :: string where
  "hexchars = ''0123456789ABCDEF''"

definition awsEncode :: "string \<Rightarrow> string" where
  "awsEncode s = concat (map (\<lambda>c.
     if aws_unreserved c then [c]
     else [CHR ''%'', hexchars ! (of_char c div 16), hexchars ! (of_char c mod 16)]) s)"

text \<open>The pairs in the order in which the iteration over the map meets them, then sorted.\<close>

definition awsQuery :: "url_values \<Rightarrow> string" where
  "awsQuery v = Join (sort (map (\<lambda>(k, value). awsEncode k @ ''='' @ awsEncode value) v)) ''&''"

text \<open>The hash of the empty body, in hexadecimal.\<close>

definition empty_body_hash :: string where
  "empty_body_hash = ''e3b0c44298fc1c149afbf4c8996fb92427ae41e4649b934ca495991b7852b855''"

definition aws_canonical :: "url_values \<Rightarrow> string \<Rightarrow> string" where
  "aws_canonical v host =
     ''GET'' @ [LF] @ ''/'' @ [LF] @ awsQuery v @ [LF] @ ''host:'' @ host @ [LF, LF] @ ''host'' @ [LF]
       @ empty_body_hash"

text \<open>Lines 108 to 116: the expected signature of a query without its signature key.\<close>

definition aws_signature ::
  "platform \<Rightarrow> string \<Rightarrow> url_values \<Rightarrow> string \<Rightarrow> string \<Rightarrow> string list \<Rightarrow> bytes" where
  "aws_signature P secret v host date cred =
     (let hash = sha256 P (bytes_of_string (aws_canonical v host));
          scope = Join (drop 1 cred) ''/'';
          stringToSign = ''AWS4-HMAC-SHA256'' @ [LF] @ date @ [LF] @ scope @ [LF] @ hex_encode hash;
          k = awsHMAC P (bytes_of_string (''AWS4'' @ secret)) (cred ! 1);
          k = awsHMAC P k (cred ! 2);
          k = awsHMAC P k ''rds-db'';
          k = awsHMAC P k ''aws4_request''
      in awsHMAC P k stringToSign)"

section \<open>Validation\<close>

text \<open>Lines 93 to 120, with the query, its host and the decoded signature at hand.\<close>

definition aws_check_credential ::
  "platform \<Rightarrow> service \<Rightarrow> Listener \<Rightarrow> url_values \<Rightarrow> string \<Rightarrow> bytes \<Rightarrow> string \<Rightarrow> Principal result" where
  "aws_check_credential P s l v host sigBytes date =
     (let cred = Split (Get v ''X-Amz-Credential'') CHR ''/'' in
      if length cred \<noteq> 5 then Inl (NewErr ''wrong credential scope'')
      else tryR (slice_to date 8) (\<lambda>day.
      if cred ! 1 \<noteq> day \<or> cred ! 2 \<noteq> Region l \<or> cred ! 3 \<noteq> ''rds-db'' \<or> cred ! 4 \<noteq> ''aws4_request'' then
        Inl (NewErr ''wrong credential scope'')
      else case find (\<lambda>p. AWSAccessKey p = cred ! 0) (Principals (SConfig s)) of
        None \<Rightarrow> Inl (NewErr ''unknown credential'')
      | Some p \<Rightarrow>
          if AWSSecretKey p = [] \<or> Get v ''X-Amz-Security-Token'' \<noteq> AWSSessionToken p then
            Inl (NewErr ''unknown credential'')
          else if \<not> ConstantTimeCompare
              (aws_signature P (AWSSecretKey p) (delete_key v ''X-Amz-Signature'') host date cred) sigBytes
          then Inl (NewErr ''invalid signature'')
          else Inr p))"

text \<open>Lines 73 to 92: the fields of the query; the clock is read twice.\<close>

definition aws_check_query ::
  "platform \<Rightarrow> service \<Rightarrow> Listener \<Rightarrow> string \<Rightarrow> url_values \<Rightarrow> string \<Rightarrow> time \<Rightarrow> time \<Rightarrow> Principal result" where
  "aws_check_query P s l username v host now1 now2 =
     (if Get v ''Action'' \<noteq> ''connect'' \<or> Get v ''DBUser'' \<noteq> username \<or>
         Get v ''X-Amz-Algorithm'' \<noteq> ''AWS4-HMAC-SHA256'' \<or> Get v ''X-Amz-SignedHeaders'' \<noteq> ''host'' then
        Inl (NewErr ''invalid query'')
      else let sig = Get v ''X-Amz-Signature'' in
      if length sig \<noteq> 64 then Inl (NewErr ''missing signature'')
      else case hex_decode sig of
        None \<Rightarrow> Inl (NewErr ''encoding/hex'')
      | Some sigBytes \<Rightarrow>
      (case Atoi (Get v ''X-Amz-Expires'') of
        Inl _ \<Rightarrow> Inl (NewErr ''invalid expiry'')
      | Inr exp \<Rightarrow>
      if exp < 1 \<or> exp > 900 then Inl (NewErr ''invalid expiry'')
      else let date = Get v ''X-Amz-Date'' in
      case parse_amz_date date of
        None \<Rightarrow> Inl (NewErr ''expired token'')
      | Some issued \<Rightarrow>
      if now1 < issued + - 5 * minute \<or> \<not> now2 < issued + exp * second then
        Inl (NewErr ''expired token'')
      else aws_check_credential P s l v host sigBytes date))"

definition validateAWS ::
  "platform \<Rightarrow> service \<Rightarrow> Listener \<Rightarrow> string \<Rightarrow> string \<Rightarrow> time \<Rightarrow> time \<Rightarrow> Principal result" where
  "validateAWS P s l username token now1 now2 =
     (if Contains token ''://'' then Inl (NewErr ''scheme not allowed'')
      else case url_Parse_https token of
        None \<Rightarrow> Inl (NewErr ''invalid token URL'')
      | Some u \<Rightarrow>
      if User u \<or> Fragment u \<noteq> [] \<or> RawPath u \<noteq> [] \<or> Path u \<noteq> ''/'' \<and> Path u \<noteq> [] then
        Inl (NewErr ''invalid token URL'')
      else case SplitHostPort (Listen l) of
        Inl _ \<Rightarrow> Inl (NewErr ''wrong endpoint'')
      | Inr (_, port) \<Rightarrow>
      if Host u \<noteq> JoinHostPort (Hostname l) port then Inl (NewErr ''wrong endpoint'')
      else case ParseQuery (RawQuery u) of (v, ok) \<Rightarrow>
      if \<not> ok then Inl (NewErr ''net/url'')
      else if \<not> distinct (map fst v) then Inl (NewErr ''duplicate query key'')
      else aws_check_query P s l username v (Host u) now1 now2)"

section \<open>The canonical query\<close>

lemma char_div_16: "(of_char c :: nat) div 16 < 16"
  using of_char_less_256 [of c] by (intro less_mult_imp_div_less) simp

lemma hexchars_all: "list_all (\<lambda>n. is_hex (hexchars ! n) \<and> unhex (hexchars ! n) = n) [0..<16]"
  by code_simp

lemma hexchars_unhex: "n < 16 \<Longrightarrow> is_hex (hexchars ! n) \<and> unhex (hexchars ! n) = n"
  using hexchars_all by (simp add: list_all_iff)

lemma unreserved_not_special:
  "aws_unreserved c \<Longrightarrow> c \<notin> {CHR ''%'', CHR ''+'', CHR ''&'', CHR ''='', CHR '';'', CHR ''/'', CHR '':'',
     CHR ''#'', CHR ''?'', CHR ''@''}"
  by (auto simp: aws_unreserved_def)

lemma awsEncode_Nil [simp]: "awsEncode [] = []"
  by (simp add: awsEncode_def)

lemma awsEncode_Cons:
  "awsEncode (c # s) =
     (if aws_unreserved c then [c]
      else [CHR ''%'', hexchars ! (of_char c div 16), hexchars ! (of_char c mod 16)]) @ awsEncode s"
  by (simp add: awsEncode_def)

lemma QueryUnescape_awsEncode: "QueryUnescape (awsEncode s) = Some s"
proof (induction s)
  case (Cons c s)
  show ?case
  proof (cases "aws_unreserved c")
    case True
    with Cons unreserved_not_special [OF True] show ?thesis by (simp add: awsEncode_Cons)
  next
    case False
    have "of_char c mod 16 < (16::nat)" by simp
    with Cons False hexchars_unhex [OF char_div_16 [of c]] hexchars_unhex [of "of_char c mod 16"]
    show ?thesis by (simp add: awsEncode_Cons)
  qed
qed simp

lemma awsEncode_inj: "awsEncode s = awsEncode t \<longleftrightarrow> s = t"
  by (metis QueryUnescape_awsEncode option.inject)

lemma is_hex_not_special:
  "is_hex c \<Longrightarrow> c \<notin> {CHR ''&'', CHR ''='', CHR '';'', CHR ''/'', CHR '':'', CHR ''#'', CHR ''?'', CHR ''@'', LF}
     \<and> \<not> is_ctl c"
  by (auto simp: is_hex_def is_ctl_def Let_def)

lemma awsEncode_chars: "c \<in> set (awsEncode s) \<Longrightarrow> aws_unreserved c \<or> c = CHR ''%'' \<or> is_hex c"
proof (induction s)
  case (Cons x s)
  then show ?case
    using hexchars_unhex [OF char_div_16 [of x]] hexchars_unhex [of "of_char x mod 16"]
    by (auto simp: awsEncode_Cons split: if_splits)
qed simp

lemma unreserved_not_ctl: "aws_unreserved c \<Longrightarrow> \<not> is_ctl c"
  by (auto simp: aws_unreserved_def is_ctl_def)

lemma awsEncode_not_special:
  "CHR ''&'' \<notin> set (awsEncode s)" "CHR ''='' \<notin> set (awsEncode s)" "CHR '';'' \<notin> set (awsEncode s)"
  "CHR ''/'' \<notin> set (awsEncode s)" "CHR '':'' \<notin> set (awsEncode s)" "CHR ''#'' \<notin> set (awsEncode s)"
  "CHR ''?'' \<notin> set (awsEncode s)" "CHR ''@'' \<notin> set (awsEncode s)"
  using awsEncode_chars unreserved_not_special is_hex_not_special by force+

lemma awsEncode_not_ctl: "c \<in> set (awsEncode s) \<Longrightarrow> \<not> is_ctl c"
proof -
  assume "c \<in> set (awsEncode s)"
  from awsEncode_chars [OF this] show ?thesis
    using unreserved_not_ctl is_hex_not_special by (auto simp: is_ctl_def)
qed

definition aws_pair :: "string \<times> string \<Rightarrow> string" where
  "aws_pair kv = awsEncode (fst kv) @ ''='' @ awsEncode (snd kv)"

lemma awsQuery_pairs: "awsQuery v = Join (sort (map aws_pair v)) ''&''"
proof -
  have "(\<lambda>(k, value). awsEncode k @ ''='' @ awsEncode value) = aws_pair"
    by (auto simp: aws_pair_def)
  then show ?thesis by (simp only: awsQuery_def)
qed

lemma parse_segment_aws_pair: "parse_segment (aws_pair kv) = Some [kv]"
proof -
  have "Cut (aws_pair kv) CHR ''='' = (awsEncode (fst kv), awsEncode (snd kv), True)"
    using Cut_found [OF awsEncode_not_special(2)] by (simp add: aws_pair_def)
  moreover have "CHR '';'' \<notin> set (aws_pair kv)" "aws_pair kv \<noteq> []"
    by (simp_all add: aws_pair_def awsEncode_not_special)
  ultimately show ?thesis by (simp add: parse_segment_def QueryUnescape_awsEncode)
qed

lemma aws_pair_inj: "inj aws_pair"
  by (metis injI list.inject option.inject parse_segment_aws_pair)

lemma awsQuery_perm: "mset v = mset w \<Longrightarrow> awsQuery v = awsQuery w"
  unfolding awsQuery_pairs by (metis mset_map sorted_list_of_multiset_mset)

text \<open>The pairs in the order of their encodings.\<close>

definition aws_sorted :: "url_values \<Rightarrow> url_values" where
  "aws_sorted v = map (inv aws_pair) (sort (map aws_pair v))"

lemma map_aws_sorted: "map aws_pair (aws_sorted v) = sort (map aws_pair v)"
proof -
  have "\<forall>s\<in>set (sort (map aws_pair v)). aws_pair (inv aws_pair s) = s"
    by (auto simp: f_inv_into_f)
  then show ?thesis unfolding aws_sorted_def map_map comp_def by (intro map_idI) blast
qed

lemma mset_aws_sorted: "mset (aws_sorted v) = mset v"
proof -
  have "image_mset aws_pair (mset (aws_sorted v)) = image_mset aws_pair (mset v)"
    using arg_cong [OF map_aws_sorted [of v], of mset] by (simp flip: mset_map)
  then show ?thesis by (rule injD [OF multiset.inj_map [OF aws_pair_inj]])
qed

lemma ParseQuery_awsQuery_sorted:
  assumes "length v \<le> max_query_params"
  shows "ParseQuery (awsQuery v) = (aws_sorted v, True)"
proof (cases "v = []")
  case True
  then show ?thesis by (simp add: awsQuery_def ParseQuery_def aws_sorted_def max_query_params_def parse_segment_def)
next
  case False
  let ?w = "aws_sorted v"
  have w: "?w \<noteq> []" "length ?w = length v"
    using False mset_aws_sorted [of v] by (auto dest: mset_eq_length)
  have "Split (awsQuery v) CHR ''&'' = map aws_pair ?w"
    unfolding awsQuery_pairs map_aws_sorted [symmetric]
    using w(1) by (intro Split_Join) (auto simp: aws_pair_def awsEncode_not_special)
  moreover have "concat (map (\<lambda>s. case parse_segment s of None \<Rightarrow> [] | Some kv \<Rightarrow> kv) (map aws_pair ?w)) = ?w"
    by (simp add: comp_def parse_segment_aws_pair)
  ultimately show ?thesis
    using assms w(2) by (simp add: ParseQuery_def parse_segment_aws_pair list_all_iff)
qed

section \<open>Soundness\<close>

text \<open>What the query \<open>v\<close> of an accepted token for endpoint \<open>host\<close> says, with the clock readings.\<close>

definition aws_query_ok ::
  "platform \<Rightarrow> service \<Rightarrow> Listener \<Rightarrow> string \<Rightarrow> url_values \<Rightarrow> string \<Rightarrow> time \<Rightarrow> time \<Rightarrow> Principal \<Rightarrow> bool" where
  "aws_query_ok P s l username v host now1 now2 p \<longleftrightarrow>
     Get v ''Action'' = ''connect'' \<and> Get v ''DBUser'' = username \<and>
     Get v ''X-Amz-Algorithm'' = ''AWS4-HMAC-SHA256'' \<and> Get v ''X-Amz-SignedHeaders'' = ''host'' \<and>
     Get v ''X-Amz-Security-Token'' = AWSSessionToken p \<and>
     AWSSecretKey p \<noteq> [] \<and>
     find (\<lambda>q. AWSAccessKey q = AWSAccessKey p) (Principals (SConfig s)) = Some p \<and>
     (\<exists>issued exp. parse_amz_date (Get v ''X-Amz-Date'') = Some issued \<and>
        Atoi (Get v ''X-Amz-Expires'') = Inr exp \<and> 1 \<le> exp \<and> exp \<le> 900 \<and>
        issued - 5 * minute \<le> now1 \<and> now2 < issued + exp * second) \<and>
     (let date = Get v ''X-Amz-Date'';
          cred = [AWSAccessKey p, take 8 date, Region l, ''rds-db'', ''aws4_request''];
          mac = aws_signature P (AWSSecretKey p) (delete_key v ''X-Amz-Signature'') host date cred
      in Split (Get v ''X-Amz-Credential'') CHR ''/'' = cred \<and>
         length (Get v ''X-Amz-Signature'') = 64 \<and> hex_decode (Get v ''X-Amz-Signature'') = Some mac)"

text \<open>Lines 57 and 54: nothing in the URL but the endpoint and the query.\<close>

definition aws_plain_url :: "url \<Rightarrow> bool" where
  "aws_plain_url u \<longleftrightarrow>
     \<not> (User u \<or> Fragment u \<noteq> [] \<or> RawPath u \<noteq> [] \<or> Path u \<noteq> ''/'' \<and> Path u \<noteq> [])"

definition aws_url_ok :: "Listener \<Rightarrow> string \<Rightarrow> url_values \<Rightarrow> string \<Rightarrow> bool" where
  "aws_url_ok l token v host \<longleftrightarrow>
     (\<exists>u h port. \<not> Contains token ''://'' \<and> url_Parse_https token = Some u \<and> aws_plain_url u \<and>
        SplitHostPort (Listen l) = Inr (h, port) \<and>
        Host u = host \<and> host = JoinHostPort (Hostname l) port \<and>
        ParseQuery (RawQuery u) = (v, True) \<and> distinct (map fst v))"

lemma length_5: "length xs = 5 \<longleftrightarrow> xs = [xs ! 0, xs ! 1, xs ! 2, xs ! 3, xs ! 4]"
proof
  assume "xs = [xs ! 0, xs ! 1, xs ! 2, xs ! 3, xs ! 4]"
  then have "length xs = length [xs ! 0, xs ! 1, xs ! 2, xs ! 3, xs ! 4]" by (rule arg_cong)
  then show "length xs = 5" by simp
qed (auto simp: numeral_eq_Suc length_Suc_conv)

lemma aws_check_credential_iff:
  assumes "parse_amz_date date = Some t"
  shows "aws_check_credential P s l v host sb date = Inr p \<longleftrightarrow>
     (let cred = [AWSAccessKey p, take 8 date, Region l, ''rds-db'', ''aws4_request''] in
      Split (Get v ''X-Amz-Credential'') CHR ''/'' = cred \<and>
      find (\<lambda>q. AWSAccessKey q = AWSAccessKey p) (Principals (SConfig s)) = Some p \<and>
      AWSSecretKey p \<noteq> [] \<and> Get v ''X-Amz-Security-Token'' = AWSSessionToken p \<and>
      sb = aws_signature P (AWSSecretKey p) (delete_key v ''X-Amz-Signature'') host date cred)"
proof -
  define cred where "cred = Split (Get v ''X-Amz-Credential'') CHR ''/''"
  have day: "slice_to date 8 = Inr (take 8 date)"
    using parse_amz_date_length [OF assms] by simp
  have find: "find (\<lambda>q. AWSAccessKey q = k) xs = Some p \<Longrightarrow> AWSAccessKey p = k" for k xs
    by (auto simp: find_Some_iff)
  show ?thesis
  proof (cases "length cred = 5")
    case True
    then obtain a b c d e where c: "cred = [a, b, c, d, e]" using length_5 [of cred] by blast
    show ?thesis
      unfolding aws_check_credential_def cred_def [symmetric] c day tryR_simps if_Inl_Inr Let_def
      by (cases "find (\<lambda>q. AWSAccessKey q = a) (Principals (SConfig s))") (auto dest: find)
  qed (auto simp: aws_check_credential_def Let_def simp flip: cred_def)
qed

lemma aws_check_query_iff:
  "aws_check_query P s l username v host now1 now2 = Inr p \<longleftrightarrow>
     aws_query_ok P s l username v host now1 now2 p"
proof -
  define sig date where "sig = Get v ''X-Amz-Signature''" and "date = Get v ''X-Amz-Date''"
  show ?thesis
  proof (cases "hex_decode sig = None \<or> parse_amz_date date = None \<or> (\<exists>e. Atoi (Get v ''X-Amz-Expires'') = Inl e)")
    case True
    then show ?thesis
      unfolding aws_check_query_def aws_query_ok_def sig_def [symmetric] date_def [symmetric] Let_def
      by (auto split: option.splits sum.splits)
  next
    case False
    then obtain sb t exp where *: "hex_decode sig = Some sb" "parse_amz_date date = Some t"
      "Atoi (Get v ''X-Amz-Expires'') = Inr exp"
      by (metis option.exhaust sum.exhaust)
    show ?thesis
      unfolding aws_check_query_def aws_query_ok_def sig_def [symmetric] date_def [symmetric] Let_def
        * option.case sum.case if_Inl_Inr aws_check_credential_iff [OF *(2)] option.inject sum.inject
      by auto
  qed
qed

lemma validateAWS_iff:
  "validateAWS P s l username token now1 now2 = Inr p \<longleftrightarrow>
     (\<exists>v host. aws_url_ok l token v host \<and> aws_query_ok P s l username v host now1 now2 p)"
proof (cases "url_Parse_https token")
  case None
  then show ?thesis by (simp add: validateAWS_def aws_url_ok_def)
next
  case (Some u)
  show ?thesis
  proof (cases "SplitHostPort (Listen l)")
    case (Inl e)
    then show ?thesis using Some by (simp add: validateAWS_def aws_url_ok_def)
  next
    case (Inr hp)
    obtain h port where hp: "hp = (h, port)" by (cases hp)
    obtain v ok where v: "ParseQuery (RawQuery u) = (v, ok)" by (cases "ParseQuery (RawQuery u)")
    have bad: "(User u \<or> Fragment u \<noteq> [] \<or> RawPath u \<noteq> [] \<or> Path u \<noteq> ''/'' \<and> Path u \<noteq> []) = (\<not> aws_plain_url u)"
      unfolding aws_plain_url_def by blast
    have "validateAWS P s l username token now1 now2 = Inr p \<longleftrightarrow>
        \<not> Contains token ''://'' \<and> aws_plain_url u \<and> Host u = JoinHostPort (Hostname l) port \<and>
        ok \<and> distinct (map fst v) \<and> aws_query_ok P s l username v (Host u) now1 now2 p"
      unfolding validateAWS_def Some Inr hp v option.case sum.case prod.case if_Inl_Inr
        aws_check_query_iff bad by (rule iffI; elim conjE; intro conjI; simp)
    then show ?thesis
      unfolding aws_url_ok_def using Some Inr hp v by auto
  qed
qed

text \<open>
  C3: Whatever token \<^verbatim>\<open>validateAWS\<close> accepts was signed for exactly this login: it names the
  listener's endpoint, its query names the database user and the listener's region, its HMAC is the
  one computed with the secret key of the principal it returns over that query and endpoint, and
  the clock lies in the token's window of at most fifteen minutes (and five minutes of skew).
\<close>

theorem validateAWS_sound:
  assumes "validateAWS P s l username token now1 now2 = Inr p"
  shows "p \<in> set (Principals (SConfig s)) \<and> AWSSecretKey p \<noteq> [] \<and>
    (\<exists>u h port v date issued exp.
       url_Parse_https token = Some u \<and> \<not> User u \<and> SplitHostPort (Listen l) = Inr (h, port) \<and>
       Host u = JoinHostPort (Hostname l) port \<and>
       ParseQuery (RawQuery u) = (v, True) \<and> distinct (map fst v) \<and>
       Get v ''DBUser'' = username \<and> Get v ''X-Amz-Date'' = date \<and>
       Split (Get v ''X-Amz-Credential'') CHR ''/'' =
         [AWSAccessKey p, take 8 date, Region l, ''rds-db'', ''aws4_request''] \<and>
       hex_decode (Get v ''X-Amz-Signature'') =
         Some (aws_signature P (AWSSecretKey p) (delete_key v ''X-Amz-Signature'') (Host u) date
           [AWSAccessKey p, take 8 date, Region l, ''rds-db'', ''aws4_request'']) \<and>
       parse_amz_date date = Some issued \<and> Atoi (Get v ''X-Amz-Expires'') = Inr exp \<and>
       1 \<le> exp \<and> exp \<le> 900 \<and> issued - 5 * minute \<le> now1 \<and> now2 < issued + exp * second)"
proof -
  obtain v host where u: "aws_url_ok l token v host"
    and q: "aws_query_ok P s l username v host now1 now2 p"
    using assms by (auto simp: validateAWS_iff)
  have p: "p \<in> set (Principals (SConfig s))" "AWSSecretKey p \<noteq> []"
    using q by (auto simp: aws_query_ok_def find_Some_iff)
  obtain uu h port where uu: "url_Parse_https token = Some uu" "aws_plain_url uu"
    "SplitHostPort (Listen l) = Inr (h, port)" "Host uu = host" "host = JoinHostPort (Hostname l) port"
    "ParseQuery (RawQuery uu) = (v, True)" "distinct (map fst v)"
    using u unfolding aws_url_ok_def by blast
  moreover have "\<not> User uu" using uu(2) by (simp add: aws_plain_url_def)
  ultimately show ?thesis using p q unfolding aws_query_ok_def Let_def by blast
qed

lemma aws_endpoint_host:
  "aws_url_ok l token v host \<Longrightarrow> \<exists>u. url_Parse_https token = Some u \<and> Host u = host \<and>
     ParseQuery (RawQuery u) = (v, True)"
  by (auto simp: aws_url_ok_def)

lemma aws_url_ok_unique:
  "aws_url_ok l token v host \<Longrightarrow> aws_url_ok l' token v' host' \<Longrightarrow> v = v' \<and> host = host'"
  by (auto dest!: aws_endpoint_host)

lemma aws_query_okD:
  assumes "aws_query_ok P s l username v host now1 now2 p"
  shows "Get v ''DBUser'' = username"
    "find (\<lambda>q. AWSAccessKey q = AWSAccessKey p) (Principals (SConfig s)) = Some p"
    "Split (Get v ''X-Amz-Credential'') CHR ''/'' =
       [AWSAccessKey p, take 8 (Get v ''X-Amz-Date''), Region l, ''rds-db'', ''aws4_request'']"
    "\<exists>issued exp. parse_amz_date (Get v ''X-Amz-Date'') = Some issued \<and> exp \<le> 900 \<and>
       issued - 5 * minute \<le> now1 \<and> now2 < issued + exp * second"
  using assms unfolding aws_query_ok_def Let_def by blast+

lemma aws_query_ok_unique:
  assumes q: "aws_query_ok P s l username v host now1 now2 p"
    and q': "aws_query_ok P s l' username' v host now1' now2' p'"
  shows "username = username' \<and> Region l = Region l' \<and> p = p' \<and> now2' < now1 + 20 * minute"
proof -
  obtain issued exp where 1: "parse_amz_date (Get v ''X-Amz-Date'') = Some issued"
    "issued - 5 * minute \<le> now1"
    using aws_query_okD(4) [OF q] by blast
  obtain issued' exp' where 2: "parse_amz_date (Get v ''X-Amz-Date'') = Some issued'"
    "exp' \<le> 900" "now2' < issued' + exp' * second"
    using aws_query_okD(4) [OF q'] by blast
  have "exp' * second \<le> 15 * minute" using 2(2) by (simp add: minute_def second_def)
  then have "now2' < now1 + 20 * minute" using 1 2 by simp
  moreover have r: "AWSAccessKey p = AWSAccessKey p'" "Region l = Region l'"
    using aws_query_okD(3) [OF q] aws_query_okD(3) [OF q'] by simp_all
  moreover have "p = p'"
    using aws_query_okD(2) [OF q] aws_query_okD(2) [OF q'] unfolding r by simp
  ultimately show ?thesis using aws_query_okD(1) [OF q] aws_query_okD(1) [OF q'] by simp
qed

text \<open>
  C4: One token opens one door. If a token is accepted twice, at any listeners and for any user
  names, then the user names, the regions, the endpoints and the authenticated principals are the
  same, and the second acceptance comes less than twenty minutes after the first.
\<close>

theorem validateAWS_token_binding:
  assumes "validateAWS P s l username token now1 now2 = Inr p"
    and "validateAWS P s l' username' token now1' now2' = Inr p'"
  shows "username = username' \<and> p = p' \<and> Region l = Region l' \<and>
    (\<exists>h port h' port'. SplitHostPort (Listen l) = Inr (h, port) \<and> SplitHostPort (Listen l') = Inr (h', port') \<and>
       JoinHostPort (Hostname l) port = JoinHostPort (Hostname l') port') \<and>
    now2' < now1 + 20 * minute"
proof -
  obtain v host where u: "aws_url_ok l token v host"
    and q: "aws_query_ok P s l username v host now1 now2 p"
    using assms(1) by (auto simp: validateAWS_iff)
  obtain v' host' where u': "aws_url_ok l' token v' host'"
    and q': "aws_query_ok P s l' username' v' host' now1' now2' p'"
    using assms(2) by (auto simp: validateAWS_iff)
  have eq: "v' = v" "host' = host" using aws_url_ok_unique [OF u u'] by simp_all
  from u u' eq have "\<exists>h port h' port'. SplitHostPort (Listen l) = Inr (h, port) \<and>
      SplitHostPort (Listen l') = Inr (h', port') \<and>
      JoinHostPort (Hostname l) port = JoinHostPort (Hostname l') port'"
    unfolding aws_url_ok_def by metis
  with aws_query_ok_unique [OF q q' [unfolded eq]] show ?thesis by blast
qed

section \<open>What the signature covers\<close>

lemma awsQuery_inj: "awsQuery v = awsQuery w \<longleftrightarrow> mset v = mset w"
proof
  assume *: "awsQuery v = awsQuery w"
  have split: "Split (awsQuery v) CHR ''&'' = (if v = [] then [[]] else sort (map aws_pair v))" for v
  proof (cases "v = []")
    case False
    then have "sort (map aws_pair v) \<noteq> []" by (metis length_0_conv length_map length_sort)
    then show ?thesis
      unfolding awsQuery_pairs using False
      by (subst Split_Join) (auto simp: aws_pair_def awsEncode_not_special)
  qed (simp add: awsQuery_def)
  have ne: "[[]] \<noteq> sort (map aws_pair v)" for v
  proof
    assume "[[]] = sort (map aws_pair v)"
    then have "[] \<in> set (sort (map aws_pair v))" by (metis list.set_intros(1))
    then show False by (auto simp: aws_pair_def)
  qed
  have "(if v = [] then [[]] else sort (map aws_pair v)) = (if w = [] then [[]] else sort (map aws_pair w))"
    using split [of v] split [of w] * by simp
  then have "v = [] \<and> w = [] \<or> sort (map aws_pair v) = sort (map aws_pair w)"
    using ne [of v] ne [of w] by (auto split: if_splits)
  then have "image_mset aws_pair (mset v) = image_mset aws_pair (mset w)"
    by (metis mset_map mset_sort)
  then show "mset v = mset w" by (rule injD [OF multiset.inj_map [OF aws_pair_inj]])
qed (rule awsQuery_perm)

lemma LF_not_awsQuery: "LF \<notin> set (awsQuery v)"
proof -
  have set_Join: "set (Join fs sep) \<subseteq> (\<Union>f\<in>set fs. set f) \<union> set sep" for fs sep
    by (induction fs sep rule: Join.induct) auto
  have "is_ctl LF" by (simp add: is_ctl_def)
  then have "LF \<notin> set (aws_pair kv)" for kv
    using awsEncode_not_ctl by (auto simp: aws_pair_def)
  with set_Join [of "sort (map aws_pair v)" "''&''"] show ?thesis
    by (auto simp: awsQuery_pairs)
qed

text \<open>
  C5: The canonical request that is hashed and signed determines the whole query, up to the order
  of its parameters, and the endpoint: no parameter or host can be changed, added or dropped, or
  moved between names and values, without changing the signed string.
\<close>

theorem aws_canonical_injective:
  "aws_canonical v host = aws_canonical w host' \<longleftrightarrow> mset v = mset w \<and> host = host'"
proof -
  have "aws_canonical v host = aws_canonical w host' \<longleftrightarrow>
      awsQuery v @ LF # ''host:'' @ host = awsQuery w @ LF # ''host:'' @ host'"
    unfolding aws_canonical_def by simp
  also have "\<dots> \<longleftrightarrow> awsQuery v = awsQuery w \<and> ''host:'' @ host = ''host:'' @ host'"
    by (rule append_sep_inject [OF LF_not_awsQuery LF_not_awsQuery])
  finally show ?thesis by (simp add: awsQuery_inj)
qed

section \<open>No panic\<close>

lemma Atoi_no_panic: "Atoi s \<noteq> Inl Panic"
  by (simp add: Atoi_def Let_def)

text \<open>
  No password makes the validator panic: the only slice expression, \<^verbatim>\<open>date[:8]\<close>, is reached
  after the date has been parsed, which takes at least eight characters.
\<close>

theorem validateAWS_no_panic: "validateAWS P s l username token now1 now2 \<noteq> Inl Panic"
proof -
  have cred: "aws_check_credential P s l v host sb date \<noteq> Inl Panic"
    if "parse_amz_date date = Some t" for v host sb date t
    using parse_amz_date_length [OF that]
    by (simp add: aws_check_credential_def Let_def split: option.split)
  have "aws_check_query P s l username v host now1 now2 \<noteq> Inl Panic" for v host
    unfolding aws_check_query_def Let_def
    using cred by (simp split: option.split sum.split)
  then show ?thesis
    by (simp add: validateAWS_def split: option.split sum.split prod.split)
qed

end
