(* ===== verification/AwsToken.thy ===== *)
theory AwsToken
  imports Aws
begin

text \<open>
  The client side of RDS IAM tokens: a reference signer, which builds the presigned URL the way
  the AWS SDKs do, and the proof that \<open>validateAWS\<close> of \<open>Aws\<close> accepts what it signs. Together with
  the soundness theorems there this says which tokens open which endpoint.
\<close>

section \<open>The signer\<close>

definition rds_credential :: "Principal \<Rightarrow> string \<Rightarrow> string \<Rightarrow> string list" where
  "rds_credential p region date =
     [AWSAccessKey p, take 8 date, region, ''rds-db'', ''aws4_request'']"

definition rds_params :: "Principal \<Rightarrow> string \<Rightarrow> string \<Rightarrow> string \<Rightarrow> nat \<Rightarrow> url_values" where
  "rds_params p region username date exp =
     [(''Action'', ''connect''), (''DBUser'', username),
      (''X-Amz-Algorithm'', ''AWS4-HMAC-SHA256''),
      (''X-Amz-Credential'', Join (rds_credential p region date) ''/''),
      (''X-Amz-Date'', date), (''X-Amz-Expires'', dec_string exp),
      (''X-Amz-SignedHeaders'', ''host'')] @
     (if AWSSessionToken p = [] then [] else [(''X-Amz-Security-Token'', AWSSessionToken p)])"

definition rds_token ::
  "platform \<Rightarrow> Principal \<Rightarrow> string \<Rightarrow> string \<Rightarrow> string \<Rightarrow> string \<Rightarrow> nat \<Rightarrow> string" where
  "rds_token P p host region username date exp =
     (let v = rds_params p region username date exp;
          mac = aws_signature P (AWSSecretKey p) v host date (rds_credential p region date)
      in host @ ''/?'' @ awsQuery (v @ [(''X-Amz-Signature'', hex_encode mac)]))"

section \<open>Reading parameters\<close>

lemma Get_map_of: "Get v k = (case map_of v k of None \<Rightarrow> [] | Some x \<Rightarrow> x)"
  by (induction v) (auto simp: Get_def values_of_def)

lemma Get_perm: "mset w = mset v \<Longrightarrow> distinct (map fst v) \<Longrightarrow> Get w k = Get v k"
proof -
  assume *: "mset w = mset v" "distinct (map fst v)"
  then have d: "distinct (map fst w)" using mset_eq_imp_distinct_iff [of "map fst w" "map fst v"] by simp
  from *(1) have "set w = set v" by (metis set_mset_mset)
  then have "map_of w = map_of v" using map_of_inject_set [OF d *(2)] by simp
  then show ?thesis by (simp add: Get_map_of)
qed

lemma mset_delete_key: "mset w = mset v \<Longrightarrow> mset (delete_key w k) = mset (delete_key v k)"
  by (simp add: delete_key_def)

lemma aws_signature_perm:
  assumes "mset w = mset v"
  shows "aws_signature P k w h d c = aws_signature P k v h d c"
  unfolding aws_signature_def aws_canonical_def awsQuery_perm [OF assms] ..

section \<open>The URL\<close>

definition hostname_char :: "char \<Rightarrow> bool" where
  "hostname_char c \<longleftrightarrow> is_alnum c \<or> c = CHR ''-'' \<or> c = CHR ''.''"

lemma hostname_char_not_special:
  "hostname_char c \<Longrightarrow> c \<notin> {CHR ''%'', CHR ''+'', colon, lbrack, rbrack, CHR ''/'', CHR ''?'', CHR ''#'', CHR ''@''}
     \<and> \<not> is_ctl c"
proof (rule conjI, rule notI)
  assume c: "hostname_char c"
  have key: "\<forall>d\<in>{CHR ''%'', CHR ''+'', colon, lbrack, rbrack, CHR ''/'', CHR ''?'', CHR ''#'', CHR ''@''}.
      \<not> hostname_char d"
    by (simp add: hostname_char_def is_alnum_def)
  assume "c \<in> {CHR ''%'', CHR ''+'', colon, lbrack, rbrack, CHR ''/'', CHR ''?'', CHR ''#'', CHR ''@''}"
  from bspec [OF key this] c show False by simp
next
  show "hostname_char c \<Longrightarrow> \<not> is_ctl c"
    unfolding hostname_char_def is_alnum_def is_ctl_def Let_def by (elim disjE) simp_all
qed

lemma digit_hostname_char: "is_digit c \<Longrightarrow> hostname_char c"
  unfolding is_digit_def hostname_char_def is_alnum_def Let_def by blast

lemma hostname_free:
  "list_all hostname_char h \<Longrightarrow>
     c \<in> {CHR ''%'', CHR ''+'', colon, lbrack, rbrack, CHR ''/'', CHR ''?'', CHR ''#'', CHR ''@''} \<Longrightarrow> c \<notin> set h"
  using hostname_char_not_special unfolding list_all_iff by blast

lemma unescape_hostname: "list_all (\<lambda>c. hostname_char c \<or> c = colon) s \<Longrightarrow> unescape encodeHost s = Some s"
proof (induction s)
  case (Cons c s)
  have "\<not> shouldEscape c encodeHost" if "hostname_char c \<or> c = colon"
    using that by (auto simp: hostname_char_def shouldEscape_def)
  with Cons hostname_char_not_special [of c] show ?case by auto
qed simp

lemma url_Parse_endpoint:
  assumes "list_all hostname_char h" "list_all is_digit port"
    and "CHR ''#'' \<notin> set q" "list_all (\<lambda>c. \<not> is_ctl c) q"
  shows "url_Parse_https (h @ colon # port @ ''/?'' @ q) =
    Some \<lparr>User = False, Host = h @ colon # port, Path = ''/'', RawPath = [], RawQuery = q, Fragment = []\<rparr>"
proof -
  let ?host = "h @ colon # port"
  have p: "list_all hostname_char port" using assms(2) digit_hostname_char by (auto simp: list_all_iff)
  have sp: "CHR ''#'' \<notin> set ?host" "CHR ''?'' \<notin> set ?host" "CHR ''/'' \<notin> set ?host"
    "CHR ''@'' \<notin> set ?host" "lbrack \<notin> set ?host" "colon \<notin> set h"
    using hostname_free [OF assms(1)] hostname_free [OF p] by simp_all
  have hp: "list_all (\<lambda>c. \<not> is_ctl c) h" "list_all (\<lambda>c. \<not> is_ctl c) port"
    using assms(1) p hostname_char_not_special unfolding list_all_iff by blast+
  have "\<not> is_ctl (CHR '':'')" "\<not> is_ctl (CHR ''/'')" "\<not> is_ctl (CHR ''?'')"
    by (simp_all add: is_ctl_def)
  then have ctl: "\<not> list_ex is_ctl (?host @ ''/?'' @ q)"
    using assms(4) hp by (simp add: list_all_iff list_ex_iff) blast
  have c1: "Cut (?host @ ''/?'' @ q) CHR ''#'' = (?host @ ''/?'' @ q, [], False)"
    using sp(1) assms(3) by (intro Cut_free) auto
  have c2: "Cut (?host @ ''/?'' @ q) CHR ''?'' = (?host @ ''/'', q, True)"
    using Cut_found [of "CHR ''?''" "?host @ ''/''" q] sp(2) by simp
  have tk: "takeWhile (\<lambda>c. c \<noteq> CHR ''/'') (?host @ ''/'') = ?host"
    "dropWhile (\<lambda>c. c \<noteq> CHR ''/'') (?host @ ''/'') = ''/''"
    using sp(3) takeWhile_append2 [of ?host "\<lambda>c. c \<noteq> CHR ''/''" "''/''"]
      dropWhile_append2 [of ?host "\<lambda>c. c \<noteq> CHR ''/''" "''/''"] by (fastforce, fastforce)
  have "validOptionalPort (colon # port)" using assms(2) by (simp add: validOptionalPort_def)
  moreover have "unescape encodeHost ?host = Some ?host"
    using assms(1) p by (intro unescape_hostname) (auto simp: list_all_iff)
  moreover have "last_index ?host lbrack = None" using sp(5) by simp
  moreover have "index_of ?host colon = Some (length h)" using index_of_append [OF sp(6)] by simp
  ultimately have ph: "parseHost ?host = Some ?host" by (simp only: parseHost_def option.case append_eq_append_conv drop_append) simp
  have at: "last_index ?host CHR ''@'' = None" "(CHR ''@'' \<in> set ?host) = False" using sp(4) by simp_all
  have path: "unescape encodePath ''/'' = Some ''/''" "url_escape encodePath ''/'' = ''/''"
    by (simp_all add: url_escape_def) (simp_all add: shouldEscape_def is_alnum_def)
  have "h @ colon # port @ ''/?'' @ q = ?host @ ''/?'' @ q" by simp
  then show ?thesis
    unfolding url_Parse_https_def by (simp only: c1 prod.case ctl if_False c2 tk at Let_def option.case ph path
        unescape.simps) (simp add: path)
qed

lemma no_scheme: "count_list s CHR ''/'' \<le> 1 \<Longrightarrow> \<not> Contains s ''://''"
proof
  assume "count_list s CHR ''/'' \<le> 1" "Contains s ''://''"
  then obtain a b where "s = a @ ''://'' @ b" by (auto simp: Contains_iff)
  then have "count_list s CHR ''/'' \<ge> 2" by simp
  with \<open>count_list s CHR ''/'' \<le> 1\<close> show False by simp
qed

lemma awsQuery_chars:
  "CHR ''/'' \<notin> set (awsQuery v)" "CHR ''#'' \<notin> set (awsQuery v)" "list_all (\<lambda>c. \<not> is_ctl c) (awsQuery v)"
proof -
  have amp: "\<not> is_ctl (CHR ''&'')" "\<not> is_ctl (CHR ''='')" by (simp_all add: is_ctl_def)
  have set_Join: "set (Join fs sep) \<subseteq> (\<Union>f\<in>set fs. set f) \<union> set sep" for fs sep
    by (induction fs sep rule: Join.induct) auto
  have j: "c \<in> set (awsQuery v) \<Longrightarrow> c = CHR ''&'' \<or> (\<exists>kv. c \<in> set (aws_pair kv))" for c
    using set_Join [of "sort (map aws_pair v)" "''&''"] by (auto simp: awsQuery_pairs)
  then show "CHR ''/'' \<notin> set (awsQuery v)" "CHR ''#'' \<notin> set (awsQuery v)"
    using j [of "CHR ''/''"] j [of "CHR ''#''"] by (auto simp: aws_pair_def awsEncode_not_special)
  show "list_all (\<lambda>c. \<not> is_ctl c) (awsQuery v)"
    using j amp awsEncode_not_ctl by (fastforce simp: list_all_iff aws_pair_def)
qed

section \<open>Acceptance\<close>

definition rds_full :: "platform \<Rightarrow> Principal \<Rightarrow> string \<Rightarrow> string \<Rightarrow> string \<Rightarrow> string \<Rightarrow> nat \<Rightarrow> url_values" where
  "rds_full P p host region username date exp =
     rds_params p region username date exp @
     [(''X-Amz-Signature'', hex_encode (aws_signature P (AWSSecretKey p)
         (rds_params p region username date exp) host date (rds_credential p region date)))]"

lemma rds_token_full:
  "rds_token P p host region username date exp =
     host @ ''/?'' @ awsQuery (rds_full P p host region username date exp)"
  by (simp add: rds_token_def rds_full_def Let_def)

lemma rds_full_keys:
  "distinct (map fst (rds_full P p host region username date exp))"
  "length (rds_full P p host region username date exp) \<le> 9"
  "delete_key (rds_full P p host region username date exp) ''X-Amz-Signature'' =
     rds_params p region username date exp"
  by (simp_all add: rds_full_def rds_params_def delete_key_def)

lemma rds_full_Get:
  fixes P p host region username date exp
  defines "G \<equiv> Get (rds_full P p host region username date exp)"
  shows "G ''Action'' = ''connect''" "G ''DBUser'' = username"
    "G ''X-Amz-Algorithm'' = ''AWS4-HMAC-SHA256''" "G ''X-Amz-SignedHeaders'' = ''host''"
    "G ''X-Amz-Credential'' = Join (rds_credential p region date) ''/''"
    "G ''X-Amz-Date'' = date" "G ''X-Amz-Expires'' = dec_string exp"
    "G ''X-Amz-Security-Token'' = AWSSessionToken p"
    "G ''X-Amz-Signature'' = hex_encode (aws_signature P (AWSSecretKey p)
         (rds_params p region username date exp) host date (rds_credential p region date))"
  unfolding G_def rds_full_def rds_params_def Get_map_of by simp_all

lemma rds_token_url:
  fixes l port
  assumes "list_all hostname_char (Hostname l)" "SplitHostPort (Listen l) = Inr (h, port)"
    "list_all is_digit port"
  defines "host \<equiv> JoinHostPort (Hostname l) port"
  shows "aws_url_ok l (rds_token P p host region username date exp)
    (aws_sorted (rds_full P p host region username date exp)) host"
proof -
  let ?v = "rds_full P p host region username date exp"
  have host: "host = Hostname l @ colon # port"
    using hostname_free [OF assms(1)] by (simp add: host_def JoinHostPort_def)
  have port: "list_all hostname_char port" using assms(3) digit_hostname_char by (auto simp: list_all_iff)
  have token: "rds_token P p host region username date exp = Hostname l @ colon # port @ ''/?'' @ awsQuery ?v"
    by (simp add: rds_token_full host)
  have "count_list (awsQuery ?v) CHR ''/'' = 0" "count_list (Hostname l) CHR ''/'' = 0" "count_list port CHR ''/'' = 0"
    using awsQuery_chars(1) hostname_free [OF assms(1)] hostname_free [OF port] by (simp_all add: count_list_0_iff)
  then have "\<not> Contains (rds_token P p host region username date exp) ''://''"
    unfolding token by (intro no_scheme) simp
  moreover have "url_Parse_https (rds_token P p host region username date exp) =
      Some \<lparr>User = False, Host = host, Path = ''/'', RawPath = [], RawQuery = awsQuery ?v, Fragment = []\<rparr>"
    using url_Parse_endpoint [OF assms(1,3) awsQuery_chars(2,3), of ?v] unfolding token by (simp add: host)
  moreover have "length ?v \<le> max_query_params"
    using rds_full_keys(2) [of P p host region username date exp] by (simp add: max_query_params_def)
  then have "ParseQuery (awsQuery ?v) = (aws_sorted ?v, True)" by (rule ParseQuery_awsQuery_sorted)
  moreover have "distinct (map fst (aws_sorted ?v))"
    using mset_eq_imp_distinct_iff [of "map fst (aws_sorted ?v)" "map fst ?v"] rds_full_keys(1)
    by (simp add: mset_aws_sorted)
  ultimately show ?thesis
    using assms(2) unfolding aws_url_ok_def host_def [symmetric]
    by (auto simp: aws_plain_url_def host_def)
qed

lemma length_hmac: "\<forall>b. length (sha256 P b) = 32 \<Longrightarrow> length (aws_signature P k v h d c) = 32"
  by (simp add: aws_signature_def awsHMAC_def hmac_sha256_def Let_def)

lemma digits_no_slash: "list_all is_digit s \<Longrightarrow> CHR ''/'' \<notin> set s"
  by (auto simp: list_all_iff is_digit_def)

lemma rds_token_query:
  assumes sha: "\<forall>b. length (sha256 P b) = 32"
    and p: "find (\<lambda>q. AWSAccessKey q = AWSAccessKey p) (Principals (SConfig s)) = Some p"
      "AWSSecretKey p \<noteq> []"
    and slash: "CHR ''/'' \<notin> set (AWSAccessKey p)" "CHR ''/'' \<notin> set (Region l)"
    and date: "parse_amz_date date = Some issued" and exp: "1 \<le> exp" "exp \<le> 900"
  shows "aws_query_ok P s l username (aws_sorted (rds_full P p host (Region l) username date exp)) host now1 now2 p
    \<longleftrightarrow> issued - 5 * minute \<le> now1 \<and> now2 < issued + int exp * second"
proof -
  let ?v = "rds_full P p host (Region l) username date exp"
  let ?w = "aws_sorted ?v"
  let ?cred = "rds_credential p (Region l) date"
  have G: "Get ?w k = Get ?v k" for k
    by (rule Get_perm [OF mset_aws_sorted rds_full_keys(1)])
  have "mset (delete_key ?w ''X-Amz-Signature'') = mset (rds_params p (Region l) username date exp)"
    using mset_delete_key [OF mset_aws_sorted, of ?v] by (simp add: rds_full_keys(3))
  then have mac: "aws_signature P k (delete_key ?w ''X-Amz-Signature'') h d c =
      aws_signature P k (rds_params p (Region l) username date exp) h d c" for k h d c
    by (rule aws_signature_perm)
  have "Split (Join ?cred ''/'') CHR ''/'' = ?cred"
    using slash digits_no_slash [OF parse_amz_date_day [OF date]]
    by (intro Split_Join) (simp_all add: rds_credential_def)
  moreover have "Atoi (dec_string exp) = Inr (int exp)" using exp by (intro Atoi_dec_string) simp
  ultimately show ?thesis
    using p exp date unfolding aws_query_ok_def G rds_full_Get Let_def mac
    by (auto simp: rds_credential_def [symmetric] hex_decode_encode length_hmac [OF sha])
qed

lemma rds_token_login:
  assumes "\<forall>b. length (sha256 P b) = 32"
    and "find (\<lambda>q. AWSAccessKey q = AWSAccessKey p) (Principals (SConfig s)) = Some p"
    and "AWSSecretKey p \<noteq> []"
    and "CHR ''/'' \<notin> set (AWSAccessKey p)" and "CHR ''/'' \<notin> set (Region l)"
    and "list_all hostname_char (Hostname l)"
    and "SplitHostPort (Listen l) = Inr (h, port)" and "list_all is_digit port"
    and "parse_amz_date date = Some issued" and "1 \<le> exp" and "exp \<le> 900"
  shows "validateAWS P s l username
      (rds_token P p (JoinHostPort (Hostname l) port) (Region l) username date exp) now1 now2 = Inr p \<longleftrightarrow>
    issued - 5 * minute \<le> now1 \<and> now2 < issued + int exp * second"
proof -
  let ?t = "rds_token P p (JoinHostPort (Hostname l) port) (Region l) username date exp"
  let ?v = "aws_sorted (rds_full P p (JoinHostPort (Hostname l) port) (Region l) username date exp)"
  have u: "aws_url_ok l ?t ?v (JoinHostPort (Hostname l) port)"
    by (rule rds_token_url [OF assms(6-8)])
  show ?thesis
    unfolding validateAWS_iff
    using aws_url_ok_unique [OF u] u rds_token_query [OF assms(1-5,9-11)] by metis
qed

lemma find_first_unique:
  "x \<in> set xs \<Longrightarrow> \<forall>y\<in>set xs. f y = f x \<longrightarrow> y = x \<Longrightarrow> find (\<lambda>y. f y = f x) xs = Some x"
  by (induction xs) auto

lemma distinct_nonempty_key:
  "distinct (filter (\<lambda>k. k \<noteq> []) (map f xs)) \<Longrightarrow> x \<in> set xs \<Longrightarrow> y \<in> set xs \<Longrightarrow> f x \<noteq> [] \<Longrightarrow>
     f y = f x \<Longrightarrow> y = x"
  by (induction xs) (auto split: if_splits simp: image_iff)

lemma aws_key_unique:
  assumes "Validate_Config ul c = Inr c'" "p \<in> set (Principals c')" "AWSAccessKey p \<noteq> []"
  shows "AWSSecretKey p \<noteq> [] \<and> find (\<lambda>q. AWSAccessKey q = AWSAccessKey p) (Principals c') = Some p"
proof -
  have v: "valid_config ul c'" using assms(1) by (rule Validate_valid)
  then have d: "distinct (access_keys (Principals c'))" by (simp add: valid_config_def Let_def)
  have "\<forall>q\<in>set (Principals c'). AWSAccessKey q = AWSAccessKey p \<longrightarrow> q = p"
    using distinct_nonempty_key [OF d [unfolded access_keys_def]] assms(2,3) by blast
  moreover have "AWSSecretKey p \<noteq> []"
    using v assms(2,3) by (auto simp: valid_config_def Let_def valid_principal_def)
  ultimately show ?thesis using find_first_unique [of p "Principals c'" AWSAccessKey] assms(2) by simp
qed

subsection \<open>An example\<close>

definition fixture_now :: time where
  "fixture_now = 1790294400 * second"

definition fixture_rds_token :: "string \<Rightarrow> string" where
  "fixture_rds_token username =
     rds_token fixture_platform fixture_alice (JoinHostPort ''db.test'' ''15432'') ''us-east-1'' username
       ''20260925T000000Z'' 900"

lemma fixture_rds_names:
  "Hostname fixture_aws = ''db.test''" "Region fixture_aws = ''us-east-1''"
  by (simp_all add: fixture_aws_def)

lemma fixture_rds:
  "\<forall>b. length (sha256 fixture_platform b) = 32"
  "fixture_alice \<in> set (Principals (SConfig fixture_service))"
  "AWSAccessKey fixture_alice \<noteq> []"
  "CHR ''/'' \<notin> set (AWSAccessKey fixture_alice)" "CHR ''/'' \<notin> set (Region fixture_aws)"
  "list_all hostname_char (Hostname fixture_aws)"
  "SplitHostPort (Listen fixture_aws) = Inr (''127.0.0.1'', ''15432'')" "list_all is_digit ''15432''"
  "parse_amz_date ''20260925T000000Z'' = Some fixture_now"
proof -
  show "fixture_alice \<in> set (Principals (SConfig fixture_service))"
    by (simp add: fixture_service_def fixture_members)
  show "parse_amz_date ''20260925T000000Z'' = Some fixture_now" by code_simp
  show "SplitHostPort (Listen fixture_aws) = Inr (''127.0.0.1'', ''15432'')"
    by (simp add: fixture_aws_def eval_net)
  show "list_all hostname_char (Hostname fixture_aws)" "list_all is_digit ''15432''"
    unfolding fixture_rds_names by (simp_all add: hostname_char_def is_alnum_def is_digit_def)
qed (simp_all add: fixture_platform_def min_def fixture_alice_def
    fixture_rds_names)

lemma fixture_rds_config: "Validate_Config (\<lambda>s. s) fixture_config = Inr (SConfig fixture_service)"
  by (simp add: fixture_service_def fixture_validates)

lemma fixture_rds_key:
  "find (\<lambda>q. AWSAccessKey q = AWSAccessKey fixture_alice) (Principals (SConfig fixture_service)) = Some fixture_alice"
  "AWSSecretKey fixture_alice \<noteq> []"
  using aws_key_unique [OF fixture_rds_config fixture_rds(2,3)] by simp_all

text \<open>
  C6: A token that a client signs for a listener with a configured key is accepted, and exactly
  during its window: from five minutes before the signing date until its expiry. The configuration is
  any that \<^verbatim>\<open>Validate\<close> accepts; the SHA-256 parameter is used through its digest length alone.
\<close>

theorem rds_token_accepted:
  assumes "\<forall>b. length (sha256 P b) = 32"
    and "Validate_Config ul c = Inr (SConfig s)"
    and "p \<in> set (Principals (SConfig s))" and "AWSAccessKey p \<noteq> []"
    and "CHR ''/'' \<notin> set (AWSAccessKey p)" and "CHR ''/'' \<notin> set (Region l)"
    and "list_all hostname_char (Hostname l)"
    and "SplitHostPort (Listen l) = Inr (h, port)" and "list_all is_digit port"
    and "parse_amz_date date = Some issued" and "1 \<le> exp" and "exp \<le> 900"
  shows "validateAWS P s l username
      (rds_token P p (JoinHostPort (Hostname l) port) (Region l) username date exp) now1 now2 = Inr p \<longleftrightarrow>
    issued - 5 * minute \<le> now1 \<and> now2 < issued + int exp * second"
proof -
  have "AWSSecretKey p \<noteq> []"
    "find (\<lambda>q. AWSAccessKey q = AWSAccessKey p) (Principals (SConfig s)) = Some p"
    using aws_key_unique [OF assms(2-4)] by simp_all
  then show ?thesis using rds_token_login assms by blast
qed

theorem rds_token_accepted_witness:
  "validateAWS fixture_platform fixture_service fixture_aws ''alice'' (fixture_rds_token ''alice'')
     fixture_now fixture_now = Inr fixture_alice"
  using rds_token_accepted [OF fixture_rds(1) fixture_rds_config fixture_rds(2-9), of 900]
  unfolding fixture_rds_token_def fixture_rds_names by (simp add: fixture_now_def minute_def second_def)

section \<open>A login\<close>

lemma fixture_rds_login:
  "validateAWS fixture_platform fixture_service fixture_aws ''alice'' (fixture_rds_token ''alice'')
     fixture_now fixture_now = Inr fixture_alice"
  using rds_token_login [OF fixture_rds(1) fixture_rds_key fixture_rds(4-9), of 900]
  unfolding fixture_rds_token_def fixture_rds_names by (simp add: fixture_now_def minute_def second_def)

theorem validateAWS_sound_witness:
  "fixture_alice \<in> set (Principals (SConfig fixture_service)) \<and> AWSSecretKey fixture_alice \<noteq> [] \<and>
   (\<exists>u. url_Parse_https (fixture_rds_token ''alice'') = Some u \<and> \<not> User u)"
  using validateAWS_sound [OF fixture_rds_login] by blast

theorem validateAWS_token_binding_witness:
  "validateAWS fixture_platform fixture_service fixture_aws ''alice'' (fixture_rds_token ''alice'')
     fixture_now fixture_now = Inr fixture_alice \<and>
   (\<exists>h port. SplitHostPort (Listen fixture_aws) = Inr (h, port)) \<and> fixture_now < fixture_now + 20 * minute"
  using validateAWS_token_binding [OF fixture_rds_login fixture_rds_login] fixture_rds_login by blast

end
