(* ===== verification/Identity.thy ===== *)
theory Identity
  imports AwsToken
begin

text \<open>
  The rest of \<^verbatim>\<open>iamproxy/identity.go\<close>: the validators of Google access tokens and of Azure ID
  tokens, the Azure token issuer, and \<^verbatim>\<open>Validate\<close>, which dispatches on the provider of a listener
  and is the only authentication the database sessions use. Its contract is the locale
  \<open>authenticator\<close>, interpreted at the end on \<open>Validate\<close> itself. The clock is read where the code
  reads it: once for Google, twice for AWS and Azure.
\<close>

section \<open>Google\<close>

definition google_scope_ok :: "string \<Rightarrow> bool" where
  "google_scope_ok scope \<longleftrightarrow>
     Contains ('' '' @ scope @ '' '') ('' '' @ googleSQLScope @ '' '') \<or>
     Contains ('' '' @ scope @ '' '') '' https://www.googleapis.com/auth/cloud-platform ''"

definition validateGoogle ::
  "platform \<Rightarrow> service \<Rightarrow> Listener \<Rightarrow> string \<Rightarrow> string \<Rightarrow> time \<Rightarrow> Principal result" where
  "validateGoogle P s l username password now =
     (case googleTokens s password of
        None \<Rightarrow> Inl (NewErr ''invalid token'')
      | Some t \<Rightarrow>
          if \<not> now < Expiry t then Inl (NewErr ''invalid token'')
          else if \<not> google_scope_ok (Scope t) then Inl (NewErr ''invalid scope'')
          else (case principal s (TokenPrincipal t) of
                  None \<Rightarrow> Inl (NewErr ''wrong username'')
                | Some p \<Rightarrow>
                    if Email p = [] \<or> username \<noteq> googleUsername (unicode_lower P) (Email p) (Engine l)
                    then Inl (NewErr ''wrong username'')
                    else Inr p))"

section \<open>Azure\<close>

definition azure_issuer :: "service \<Rightarrow> string \<Rightarrow> string" where
  "azure_issuer s tenant = TrimRight (PublicURL (SConfig s)) CHR ''/'' @ ''/'' @ tenant @ ''/v2.0''"

definition azure_head :: json where
  "azure_head = JObj [(''alg'', JStr ''RS256''), (''typ'', JStr ''JWT''), (''kid'', JStr ''mock-1'')]"

definition azure_claims :: "service \<Rightarrow> Principal \<Rightarrow> string \<Rightarrow> string \<Rightarrow> time \<Rightarrow> time \<Rightarrow> json" where
  "azure_claims s p tenant audience life now =
     JObj [(''iss'', JStr (azure_issuer s tenant)), (''aud'', JStr audience), (''tid'', JStr tenant),
       (''oid'', JStr (ID p)), (''upn'', JStr (Email p)), (''iat'', JInt (Unix now)),
       (''nbf'', JInt (Unix now)), (''exp'', JInt (Unix (now + life))),
       (''groups'', JArr (map JStr (Groups p)))]"

definition azureIssueForAudience ::
  "platform \<Rightarrow> service \<Rightarrow> Principal \<Rightarrow> string \<Rightarrow> string \<Rightarrow> time \<Rightarrow> time \<Rightarrow> string result" where
  "azureIssueForAudience P s p tenant audience life0 now =
     (let life = (if life0 \<le> 0 then hour else life0);
          hb = bytes_of_string (json_Marshal P azure_head);
          cb = bytes_of_string (json_Marshal P (azure_claims s p tenant audience life now));
          part = b64_encode hb @ ''.'' @ b64_encode cb;
          h = sha256 P (bytes_of_string part)
      in tryR (rsa_sign P (azureKey s) h) (\<lambda>sig. Inr (part @ ''.'' @ b64_encode sig)))"

definition azureIssue :: "platform \<Rightarrow> service \<Rightarrow> Principal \<Rightarrow> string \<Rightarrow> time \<Rightarrow> time \<Rightarrow> string result" where
  "azureIssue P s p tenant life now = azureIssueForAudience P s p tenant azureAudience life now"

text \<open>Lines 176 to 185: a group logs in when both the principal and the token have it.\<close>

fun azure_group_login :: "string \<Rightarrow> string list \<Rightarrow> string list \<Rightarrow> bool" where
  "azure_group_login username [] cgs = False"
| "azure_group_login username (g # gs) cgs =
     (if g = username \<and> list_ex (\<lambda>cg. cg = g) cgs then True
      else azure_group_login username gs cgs)"

definition azure_check_claims ::
  "service \<Rightarrow> Listener \<Rightarrow> string \<Rightarrow> jwt_claims \<Rightarrow> time \<Rightarrow> time \<Rightarrow> Principal result" where
  "azure_check_claims s l username claims now1 now2 =
     (let issuer = azure_issuer s (Tenant l) in
      if Iss claims \<noteq> issuer \<or> Aud claims \<noteq> azureAudience \<or> Tid claims \<noteq> Tenant l \<or>
         Unix now1 < Nbf claims \<or> Unix now2 \<ge> Exp claims then Inl (NewErr ''invalid jwt claims'')
      else case principal s (Oid claims) of
        None \<Rightarrow> Inl (NewErr ''invalid principal'')
      | Some p \<Rightarrow>
          if Upn claims \<noteq> Email p then Inl (NewErr ''invalid principal'')
          else if username = Email p then Inr p
          else if azure_group_login username (Groups p) (ClaimGroups claims) then Inr p
          else Inl (NewErr ''wrong username''))"

definition validateAzure ::
  "platform \<Rightarrow> service \<Rightarrow> Listener \<Rightarrow> string \<Rightarrow> string \<Rightarrow> time \<Rightarrow> time \<Rightarrow> Principal result" where
  "validateAzure P s l username token now1 now2 =
     (let parts = Split token CHR ''.'' in
      if length parts \<noteq> 3 then Inl (NewErr ''invalid jwt'')
      else case (b64_decode (parts ! 0), b64_decode (parts ! 1), b64_decode (parts ! 2)) of
        (Some hb, Some cb, Some sig) \<Rightarrow>
          (case (unmarshal_header P (string_of_bytes hb), unmarshal_claims P (string_of_bytes cb)) of
             (Some header, Some claims) \<Rightarrow>
               if Alg header \<noteq> ''RS256'' \<or> Kid header \<noteq> ''mock-1'' then Inl (NewErr ''invalid jwt claims'')
               else let h = sha256 P (bytes_of_string (parts ! 0 @ ''.'' @ parts ! 1)) in
               if \<not> rsa_verify P (azureKey s) h sig then Inl (NewErr ''invalid signature'')
               else azure_check_claims s l username claims now1 now2
           | _ \<Rightarrow> Inl (NewErr ''invalid jwt claims''))
      | _ \<Rightarrow> Inl (NewErr ''invalid jwt encoding''))"

definition AzureJWK :: "service \<Rightarrow> json" where
  "AzureJWK s =
     (let n = modulus (azureKey s); e = [1, 0, 1] in
      JObj [(''kty'', JStr ''RSA''), (''kid'', JStr ''mock-1''), (''use'', JStr ''sig''),
        (''alg'', JStr ''RS256''), (''n'', JStr (b64_encode n)), (''e'', JStr (b64_encode e))])"

section \<open>Validate\<close>

definition Validate ::
  "platform \<Rightarrow> service \<Rightarrow> Listener \<Rightarrow> string \<Rightarrow> string \<Rightarrow> time \<Rightarrow> time \<Rightarrow> Principal result" where
  "Validate P s l username password now1 now2 =
     (let r = (if Provider l = ''aws'' then validateAWS P s l username password now1 now2
               else if Provider l = ''google'' then validateGoogle P s l username password now1
               else if Provider l = ''azure'' then validateAzure P s l username password now1 now2
               else Inl (NewErr ''unknown provider''))
      in case r of
           Inl _ \<Rightarrow> Inl (NewErr ''authentication failed'')
         | Inr p \<Rightarrow> if \<not> Granted p (Name l) then Inl (NewErr ''authentication failed'') else Inr p)"

lemma azure_group_login_iff [simp]:
  "azure_group_login username gs cgs \<longleftrightarrow> username \<in> set gs \<and> username \<in> set cgs"
  by (induction gs) (auto simp: list_ex_iff)

lemma validateGoogle_iff:
  "validateGoogle P s l username password now = Inr p \<longleftrightarrow>
     (\<exists>t. googleTokens s password = Some t \<and> now < Expiry t \<and> google_scope_ok (Scope t) \<and>
        principal s (TokenPrincipal t) = Some p \<and> Email p \<noteq> [] \<and>
        username = googleUsername (unicode_lower P) (Email p) (Engine l))"
  by (auto simp: validateGoogle_def split: option.splits)

lemma azure_check_claims_iff:
  "azure_check_claims s l username claims now1 now2 = Inr p \<longleftrightarrow>
     Iss claims = azure_issuer s (Tenant l) \<and> Aud claims = azureAudience \<and> Tid claims = Tenant l \<and>
     Nbf claims \<le> Unix now1 \<and> Unix now2 < Exp claims \<and>
     principal s (Oid claims) = Some p \<and> Upn claims = Email p \<and>
     (username = Email p \<or> username \<in> set (Groups p) \<and> username \<in> set (ClaimGroups claims))"
  unfolding azure_check_claims_def Let_def
  by (cases "principal s (Oid claims)") auto

lemma length_3: "length xs = 3 \<longleftrightarrow> xs = [xs ! 0, xs ! 1, xs ! 2]"
proof
  assume "xs = [xs ! 0, xs ! 1, xs ! 2]"
  then have "length xs = length [xs ! 0, xs ! 1, xs ! 2]" by (rule arg_cong)
  then show "length xs = 3" by simp
qed (auto simp: numeral_eq_Suc length_Suc_conv)

lemma validateAzure_iff:
  "validateAzure P s l username token now1 now2 = Inr p \<longleftrightarrow>
     (\<exists>h c g hb cb sig claims. Split token CHR ''.'' = [h, c, g] \<and>
        b64_decode h = Some hb \<and> b64_decode c = Some cb \<and> b64_decode g = Some sig \<and>
        unmarshal_header P (string_of_bytes hb) = Some \<lparr>Alg = ''RS256'', Kid = ''mock-1''\<rparr> \<and>
        unmarshal_claims P (string_of_bytes cb) = Some claims \<and>
        rsa_verify P (azureKey s) (sha256 P (bytes_of_string (h @ ''.'' @ c))) sig \<and>
        azure_check_claims s l username claims now1 now2 = Inr p)"
proof (cases "length (Split token CHR ''.'') = 3")
  case False
  then have "Split token CHR ''.'' \<noteq> [h, c, g]" for h c g by auto
  with False show ?thesis by (simp add: validateAzure_def)
next
  case True
  then obtain h c g where parts: "Split token CHR ''.'' = [h, c, g]"
    using length_3 by blast
  have hdr: "Alg x = ''RS256'' \<and> Kid x = ''mock-1'' \<longleftrightarrow> x = \<lparr>Alg = ''RS256'', Kid = ''mock-1''\<rparr>" for x :: jwt_header
    by auto
  show ?thesis
    unfolding validateAzure_def parts Let_def hdr [symmetric]
    by (auto split: option.split)
qed

lemma Validate_iff:
  "Validate P s l username password now1 now2 = Inr p \<longleftrightarrow>
     Granted p (Name l) \<and>
     (Provider l = ''aws'' \<and> validateAWS P s l username password now1 now2 = Inr p \<or>
      Provider l = ''google'' \<and> validateGoogle P s l username password now1 = Inr p \<or>
      Provider l = ''azure'' \<and> validateAzure P s l username password now1 now2 = Inr p)"
proof -
  have *: "(case r of Inl _ \<Rightarrow> Inl e | Inr p \<Rightarrow> if \<not> G p then Inl e else Inr p) = Inr p \<longleftrightarrow>
      G p \<and> r = Inr p" for r :: "Principal result" and e :: go_error and G
    by (cases r) auto
  show ?thesis unfolding Validate_def Let_def * by auto
qed

section \<open>The contract of an authenticator\<close>

text \<open>
  What the sessions rely on: who is let in is configured and granted the listener, and nothing is
  said about why somebody is not. Two sessions of one listener that end up on the same backend
  account then belong to the same principal.
\<close>

locale authenticator =
  fixes cfg :: "'st \<Rightarrow> Config"
    and auth :: "'st \<Rightarrow> Listener \<Rightarrow> string \<Rightarrow> string \<Rightarrow> time \<Rightarrow> time \<Rightarrow> Principal result"
  assumes auth_configured: "auth s l u pw t1 t2 = Inr p \<Longrightarrow> p \<in> set (Principals (cfg s))"
    and auth_granted: "auth s l u pw t1 t2 = Inr p \<Longrightarrow> Granted p (Name l)"
    and auth_opaque: "auth s l u pw t1 t2 = Inl e \<Longrightarrow> e = NewErr ''authentication failed''"
begin

lemma auth_cases:
  obtains (granted) p where "auth s l u pw t1 t2 = Inr p" "p \<in> set (Principals (cfg s))" "Granted p (Name l)"
  | (denied) "auth s l u pw t1 t2 = Inl (NewErr ''authentication failed'')"
proof (cases "auth s l u pw t1 t2")
  case (Inl e)
  then show ?thesis using auth_opaque denied by blast
next
  case (Inr p)
  then show ?thesis using auth_configured auth_granted granted by blast
qed

lemma auth_backend_owner:
  assumes "valid_config ul (cfg s)"
    and "auth s l u pw t1 t2 = Inr p" "auth s l u' pw' t1' t2' = Inr p'"
    and "BackendUser p = BackendUser p'"
  shows "p = p'"
  using valid_backend_exclusive [OF assms(1)] assms(2-4) auth_configured auth_granted by metis

lemma auth_no_grant: "\<not> Granted p (Name l) \<Longrightarrow> auth s l u pw t1 t2 \<noteq> Inr p"
  using auth_granted by blast

end

lemma validateAWS_known:
  "validateAWS P s l u pw t1 t2 = Inr p \<Longrightarrow> p \<in> set (Principals (SConfig s))"
  by (auto simp: validateAWS_iff aws_query_okD(2) find_Some_iff dest!: aws_query_okD(2))

lemma validateGoogle_known:
  "validateGoogle P s l u pw t = Inr p \<Longrightarrow> p \<in> set (Principals (SConfig s))"
  by (auto simp: validateGoogle_iff dest: principal_SomeD)

lemma validateAzure_known:
  "validateAzure P s l u pw t1 t2 = Inr p \<Longrightarrow> p \<in> set (Principals (SConfig s))"
  by (auto simp: validateAzure_iff azure_check_claims_iff dest: principal_SomeD)

lemma Validate_opaque: "Validate P s l u pw t1 t2 = Inl e \<Longrightarrow> e = NewErr ''authentication failed''"
  unfolding Validate_def Let_def by (auto split: sum.splits if_splits)

interpretation iam: authenticator SConfig "Validate P" for P
proof
  show "Validate P s l u pw t1 t2 = Inr p \<Longrightarrow> p \<in> set (Principals (SConfig s))" for s l u pw t1 t2 p
    using validateAWS_known validateGoogle_known validateAzure_known by (auto simp: Validate_iff)
qed (simp_all add: Validate_iff Validate_opaque)

text \<open>
  Authentication grants nothing by itself. Whatever the provider, \<^verbatim>\<open>Validate\<close> either returns a
  configured principal that is granted this listener, or the one opaque error that does not tell a
  bad token from a missing grant.
\<close>

theorem Validate_granted_or_opaque:
  "(\<exists>p\<in>set (Principals (SConfig s)). Granted p (Name l) \<and> Validate P s l username password now1 now2 = Inr p)
   \<or> Validate P s l username password now1 now2 = Inl (NewErr ''authentication failed'')"
  by (rule iam.auth_cases [of P s l username password now1 now2]) blast+

text \<open>
  C7: With a validated configuration, two logins at one listener that reach the same backend
  account are logins of the same principal, whatever tokens and user names they used.
\<close>

theorem Validate_backend_owner:
  assumes "Validate_Config ul c = Inr (SConfig s)"
    and "Validate P s l u pw t1 t2 = Inr p" and "Validate P s l u' pw' t1' t2' = Inr p'"
    and "BackendUser p = BackendUser p'"
  shows "p = p'"
  by (rule iam.auth_backend_owner [OF Validate_valid [OF assms(1)] assms(2-4)])

section \<open>Google tokens\<close>

text \<open>A history of issued tokens: principal, scope, random bytes and time of each, oldest first.\<close>

type_synonym google_issue = "Principal \<times> string \<times> bytes \<times> time"

fun issue_all :: "google_issue list \<Rightarrow> service \<Rightarrow> service" where
  "issue_all [] s = s"
| "issue_all ((p, scope, rnd, now) # es) s = issue_all es (fst (googleIssue s p scope rnd now))"

definition issue_entry :: "google_issue \<Rightarrow> unit \<times> time \<times> string \<times> googleToken" where
  "issue_entry e = (case e of (p, scope, rnd, now) \<Rightarrow>
     ((), now, google_token_string rnd, \<lparr>TokenPrincipal = ID p, Scope = scope, Expiry = now + hour\<rparr>))"

lemma issue_all_store: "issue_all es s = google.store_all (map issue_entry es) s"
  by (induction es s rule: issue_all.induct) (simp_all add: googleIssue_store issue_entry_def)

lemma SConfig_googleIssue [simp]: "SConfig (fst (googleIssue s p scope rnd now)) = SConfig s"
  by (simp add: googleIssue_store)

lemma SConfig_issue_all [simp]: "SConfig (issue_all es s) = SConfig s"
  by (induction es s rule: issue_all.induct) (simp_all add: googleIssue_store)

lemma principal_issue_all [simp]: "principal (issue_all es s) pid = principal s pid"
  by (simp add: principal_def)

lemma issue_all_other:
  "t \<notin> (\<lambda>(p, scope, rnd, now). google_token_string rnd) ` set es \<Longrightarrow>
     googleTokens (issue_all es s) t = googleTokens s t"
  by (induction es s rule: issue_all.induct) (simp_all add: googleIssue_def Let_def)

lemma google_token_string_inj: "google_token_string a = google_token_string b \<longleftrightarrow> a = b"
  by (auto simp: google_token_string_def dest: b64_encode_inj)

lemma google_login:
  assumes "distinct (map ID (Principals (SConfig s)))" "p \<in> set (Principals (SConfig s))"
    and "\<forall>(q, sc, r, t)\<in>set es. r \<noteq> rnd"
  shows "validateGoogle P (issue_all es (fst (googleIssue s p scope rnd now0))) l username
      (google_token_string rnd) now = Inr p \<longleftrightarrow>
    now < now0 + hour \<and> google_scope_ok scope \<and> Email p \<noteq> [] \<and>
    username = googleUsername (unicode_lower P) (Email p) (Engine l)"
proof -
  have "google_token_string rnd \<notin> (\<lambda>(p, scope, rnd, now). google_token_string rnd) ` set es"
    using assms(3) by (auto simp: google_token_string_inj)
  from issue_all_other [OF this, of "fst (googleIssue s p scope rnd now0)"]
  have "googleTokens (issue_all es (fst (googleIssue s p scope rnd now0))) (google_token_string rnd) =
      Some \<lparr>TokenPrincipal = ID p, Scope = scope, Expiry = now0 + hour\<rparr>"
    by (simp add: googleIssue_def Let_def)
  moreover have "principal s (ID p) = Some p" using assms(1,2) by (rule principal_ID)
  then have "principal (issue_all es (fst (googleIssue s p scope rnd now0))) (ID p) = Some p"
    by (simp add: googleIssue_store)
  ultimately show ?thesis by (simp add: validateGoogle_iff)
qed

lemma sql_scope_ok: "google_scope_ok googleSQLScope"
  by (metis Contains_iff append_Nil append_Nil2 google_scope_ok_def)

lemma fixture_email: "Email fixture_alice \<noteq> []"
  by (simp add: fixture_alice_def)

lemma valid_IDs: "Validate_Config ul c = Inr c' \<Longrightarrow> distinct (map ID (Principals c'))"
  using Validate_valid by (auto simp: valid_config_def Let_def)

text \<open>
  C8: A Google token logs its principal in for exactly one hour. After \<^verbatim>\<open>googleIssue\<close>, and whatever
  tokens (with other random bytes) are issued afterwards, the token is accepted if and only if the
  hour is not over, its scope includes the SQL login or the cloud platform, and the user name is the
  principal's normalised email.
\<close>

theorem googleIssue_validate:
  assumes "Validate_Config ul c = Inr (SConfig s)" and "p \<in> set (Principals (SConfig s))"
    and "\<forall>(q, sc, r, t)\<in>set es. r \<noteq> rnd"
    and "googleIssue s p scope rnd now0 = (s', token, expires_in)"
  shows "validateGoogle P (issue_all es s') l username token now = Inr p \<longleftrightarrow>
    now < now0 + hour \<and> google_scope_ok scope \<and> Email p \<noteq> [] \<and>
    username = googleUsername (unicode_lower P) (Email p) (Engine l)"
proof -
  have "s' = fst (googleIssue s p scope rnd now0)" "token = google_token_string rnd"
    using assms(4) unfolding googleIssue_def Let_def by auto
  then show ?thesis using google_login [OF valid_IDs [OF assms(1)] assms(2,3)] by simp
qed

theorem googleIssue_validate_witness:
  "validateGoogle fixture_platform
     (issue_all [(fixture_bob, googleSQLScope, [2], 5)]
        (fst (googleIssue fixture_service fixture_alice googleSQLScope [1] 0)))
     fixture_google ''alice'' (google_token_string [1]) (minute + 5) = Inr fixture_alice"
proof -
  have issued: "googleIssue fixture_service fixture_alice googleSQLScope [1] 0 =
      (fst (googleIssue fixture_service fixture_alice googleSQLScope [1] 0), google_token_string [1], 3600)"
    by (simp add: googleIssue_def Let_def)
  have rnd: "\<forall>(q, sc, r, t)\<in>set [(fixture_bob, googleSQLScope, [2], 5)]. r \<noteq> [1 :: byte]" by simp
  have eng: "Engine fixture_google = ''mysql''" by (simp add: fixture_google_def)
  show ?thesis
    unfolding googleIssue_validate [OF fixture_rds_config fixture_rds(2) rnd issued] eng fixture_usernames
    using fixture_email sql_scope_ok by (simp add: hour_def minute_def second_def)
qed

lemma fixture_google_login:
  "validateGoogle fixture_platform (issue_all [(fixture_alice, googleSQLScope, [1], 0)] fixture_service)
     fixture_google ''alice'' (google_token_string [1]) 0 = Inr fixture_alice"
  using google_login [OF valid_IDs [OF fixture_rds_config] fixture_rds(2), of "[]" "[1]"]
    fixture_usernames(1) fixture_email sql_scope_ok
  by (simp add: fixture_google_def hour_def second_def)

text \<open>
  C9: No Google token is accepted that was not issued. Starting from the empty registry of
  \<^verbatim>\<open>newService\<close>, after any history of issues, an accepted password is the string of one of them, made
  less than an hour ago for the same principal with a sufficient scope.
\<close>

theorem validateGoogle_issued:
  assumes "newService c generated = Inr s0"
    and "validateGoogle P (issue_all es s0) l username password now = Inr p"
  shows "p \<in> set (Principals c) \<and>
    (\<exists>(q, scope, rnd, t)\<in>set es. password = google_token_string rnd \<and> ID q = ID p \<and>
       now < t + hour \<and> google_scope_ok scope)"
proof -
  obtain key where s0: "s0 = \<lparr>SConfig = c, googleTokens = Map.empty, azureKey = key\<rparr>"
    using assms(1) by (auto simp: newService_def tryR_Inr_iff)
  obtain t where t: "googleTokens (issue_all es s0) password = Some t" "now < Expiry t"
    "google_scope_ok (Scope t)" "principal s0 (TokenPrincipal t) = Some p"
    using assms(2) by (auto simp: validateGoogle_iff)
  have "\<exists>u t0. (u, t0, password, t) \<in> set (map issue_entry es)"
    using google.store_all_origin [of "map issue_entry es" s0 password t] t(1) s0
    by (simp add: issue_all_store)
  then obtain q scope rnd u where e: "(q, scope, rnd, u) \<in> set es" "password = google_token_string rnd"
    "t = \<lparr>TokenPrincipal = ID q, Scope = scope, Expiry = u + hour\<rparr>"
    by (auto simp: issue_entry_def)
  then show ?thesis using t principal_SomeD [OF t(4)] s0 by (intro conjI bexI [of _ "(q, scope, rnd, u)"]) auto
qed

theorem validateGoogle_issued_witness:
  "\<exists>(q, scope, rnd, t)\<in>set [(fixture_alice, googleSQLScope, [1 :: byte], 0)].
     google_token_string [1] = google_token_string rnd \<and> ID q = ID fixture_alice"
proof -
  have new: "newService fixture_config (Inr (azureKey fixture_service)) = Inr fixture_service"
    by (simp add: newService_def fixture_service_def)
  from validateGoogle_issued [OF new fixture_google_login] show ?thesis by auto
qed

text \<open>
  On a Google listener the user name identifies the principal: with a validated configuration,
  no two different principals can ever log in under one user name, whatever tokens exist.
\<close>

theorem Validate_google_username_owner:
  assumes "Validate_Config (unicode_lower P) c = Inr (SConfig s)"
    and "l \<in> set (Listeners (SConfig s))" and "Provider l = ''google''"
    and "Validate P s l username pw t1 t2 = Inr p" and "Validate P s l username pw' t1' t2' = Inr p'"
  shows "p = p'"
proof (rule valid_google_exclusive [OF Validate_valid [OF assms(1)] assms(2) _ _ _ _ assms(3)])
  show "p \<in> set (Principals (SConfig s))" "p' \<in> set (Principals (SConfig s))"
    using iam.auth_configured assms(4,5) by blast+
  show "Granted p (Name l)" "Granted p' (Name l)" using iam.auth_granted assms(4,5) by blast+
  show "googleUsername (unicode_lower P) (Email p) (Engine l) = googleUsername (unicode_lower P) (Email p') (Engine l)"
    using assms(3-5) by (auto simp: Validate_iff validateGoogle_iff)
qed

theorem Validate_google_username_owner_witness:
  "\<exists>s pw. Validate fixture_platform s fixture_google ''alice'' pw 0 0 = Inr fixture_alice \<and>
     (\<forall>pw' p'. Validate fixture_platform s fixture_google ''alice'' pw' 0 0 = Inr p' \<longrightarrow> fixture_alice = p')"
proof -
  let ?s = "issue_all [(fixture_alice, googleSQLScope, [1], 0)] fixture_service"
  have l: "fixture_google \<in> set (Listeners (SConfig ?s))" "Provider fixture_google = ''google''"
    by (simp add: fixture_service_def fixture_members, simp add: fixture_google_def)
  have c: "Validate_Config (unicode_lower fixture_platform) fixture_config = Inr (SConfig ?s)"
    by (simp add: fixture_service_def fixture_validates)
  have "validateGoogle fixture_platform ?s fixture_google ''alice'' (google_token_string [1]) 0 = Inr fixture_alice"
    by (rule fixture_google_login)
  then have v: "Validate fixture_platform ?s fixture_google ''alice'' (google_token_string [1]) 0 0 = Inr fixture_alice"
    using l(2) fixture_grants(1) by (simp add: Validate_iff)
  show ?thesis
  proof (intro exI conjI allI impI)
    show "Validate fixture_platform ?s fixture_google ''alice'' (google_token_string [1]) 0 0 = Inr fixture_alice"
      by (rule v)
    show "fixture_alice = p'" if "Validate fixture_platform ?s fixture_google ''alice'' pw' 0 0 = Inr p'" for pw' p'
      by (rule Validate_google_username_owner [OF c l v that])
  qed
qed

theorem Validate_backend_owner_witness:
  "\<exists>s pw. Validate fixture_platform s fixture_google ''alice'' pw 0 0 = Inr fixture_alice \<and>
     (\<forall>u pw' p'. Validate fixture_platform s fixture_google u pw' 0 0 = Inr p' \<and>
        BackendUser p' = BackendUser fixture_alice \<longrightarrow> p' = fixture_alice)"
proof -
  let ?s = "issue_all [(fixture_alice, googleSQLScope, [1], 0)] fixture_service"
  have c: "Validate_Config (\<lambda>s. s) fixture_config = Inr (SConfig ?s)"
    by (simp add: fixture_service_def fixture_validates)
  have "Provider fixture_google = ''google''" by (simp add: fixture_google_def)
  then have v: "Validate fixture_platform ?s fixture_google ''alice'' (google_token_string [1]) 0 0 = Inr fixture_alice"
    using fixture_google_login fixture_grants(1) by (simp add: Validate_iff)
  show ?thesis
    using v Validate_backend_owner [OF c _ v] by blast
qed

section \<open>Azure tokens\<close>

text \<open>What a JSON library promises of the header and the claims the issuer writes.\<close>

definition claims_of :: "service \<Rightarrow> Principal \<Rightarrow> string \<Rightarrow> string \<Rightarrow> time \<Rightarrow> time \<Rightarrow> jwt_claims" where
  "claims_of s p tenant audience life now =
     \<lparr>Iss = azure_issuer s tenant, Aud = audience, Tid = tenant, Oid = ID p, Upn = Email p,
      Nbf = Unix now, Exp = Unix (now + life), ClaimGroups = Groups p\<rparr>"

definition json_reads_back :: "platform \<Rightarrow> service \<Rightarrow> Principal \<Rightarrow> string \<Rightarrow> string \<Rightarrow> time \<Rightarrow> time \<Rightarrow> bool" where
  "json_reads_back P s p tenant audience life now \<longleftrightarrow>
     unmarshal_header P (json_Marshal P azure_head) = Some \<lparr>Alg = ''RS256'', Kid = ''mock-1''\<rparr> \<and>
     unmarshal_claims P (json_Marshal P (azure_claims s p tenant audience life now)) =
       Some (claims_of s p tenant audience life now)"

lemma azure_token_parts:
  "Split (b64_encode a @ ''.'' @ b64_encode b @ ''.'' @ b64_encode c) CHR ''.'' =
     [b64_encode a, b64_encode b, b64_encode c]"
  by (simp add: Split_append b64_encode_no_dot)

lemma azure_token_iff:
  assumes "Validate_Config ul c = Inr (SConfig s)" and "p \<in> set (Principals (SConfig s))"
    and "azureIssueForAudience P s p tenant audience life now0 = Inr token"
    and "json_reads_back P s p tenant audience (if life \<le> 0 then hour else life) now0"
    and "\<forall>h sig. rsa_sign P (azureKey s) h = Inr sig \<longrightarrow> rsa_verify P (azureKey s) h sig"
  shows "validateAzure P s l username token now1 now2 = Inr q \<longleftrightarrow>
    q = p \<and> audience = azureAudience \<and> tenant = Tenant l \<and>
    Unix now0 \<le> Unix now1 \<and> Unix now2 < Unix (now0 + (if life \<le> 0 then hour else life)) \<and>
    (username = Email p \<or> username \<in> set (Groups p))"
proof -
  let ?life = "if life \<le> 0 then hour else life"
  let ?hb = "bytes_of_string (json_Marshal P azure_head)"
  let ?cb = "bytes_of_string (json_Marshal P (azure_claims s p tenant audience ?life now0))"
  obtain sig where sig: "rsa_sign P (azureKey s)
      (sha256 P (bytes_of_string (b64_encode ?hb @ ''.'' @ b64_encode ?cb))) = Inr sig"
    "token = b64_encode ?hb @ ''.'' @ b64_encode ?cb @ ''.'' @ b64_encode sig"
    using assms(3) unfolding azureIssueForAudience_def Let_def tryR_Inr_iff by auto
  have pid: "principal s (ID p) = Some p" using valid_IDs [OF assms(1)] assms(2) by (rule principal_ID)
  have claims: "azure_check_claims s l username (claims_of s p tenant audience ?life now0) now1 now2 = Inr q \<longleftrightarrow>
      q = p \<and> audience = azureAudience \<and> tenant = Tenant l \<and> Unix now0 \<le> Unix now1 \<and>
      Unix now2 < Unix (now0 + ?life) \<and> (username = Email p \<or> username \<in> set (Groups p))"
    unfolding azure_check_claims_iff claims_of_def jwt_claims.simps pid by auto
  have "validateAzure P s l username token now1 now2 = Inr q \<longleftrightarrow>
      azure_check_claims s l username (claims_of s p tenant audience ?life now0) now1 now2 = Inr q"
    unfolding validateAzure_iff sig(2) azure_token_parts
    using assms(4,5) sig(1) by (auto simp: b64_decode_encode json_reads_back_def)
  then show ?thesis unfolding claims .
qed

text \<open>
  C10: Exactly which logins an Azure token serves. A token issued for a principal, a tenant, an
  audience and a lifetime (an hour if none is given) authenticates that principal only, at listeners
  of that tenant only, for the database audience only, between its issue and its expiry, and under
  the principal's email or one of its groups. A management token never opens a database. The
  hypotheses state that JSON reads back what was written and that RSA verifies what it signed.
\<close>

theorem azure_token_accepted_iff:
  assumes "Validate_Config ul c = Inr (SConfig s)" and "p \<in> set (Principals (SConfig s))"
    and "azureIssueForAudience P s p tenant audience life now0 = Inr token"
    and "json_reads_back P s p tenant audience (if life \<le> 0 then hour else life) now0"
    and "\<forall>h sig. rsa_sign P (azureKey s) h = Inr sig \<longrightarrow> rsa_verify P (azureKey s) h sig"
  shows "validateAzure P s l username token now1 now2 = Inr q \<longleftrightarrow>
    q = p \<and> audience = azureAudience \<and> tenant = Tenant l \<and>
    Unix now0 \<le> Unix now1 \<and> Unix now2 < Unix (now0 + (if life \<le> 0 then hour else life)) \<and>
    (username = Email p \<or> username \<in> set (Groups p))"
  by (rule azure_token_iff [OF assms])

lemma fixture_fields:
  "ID fixture_alice = ''alice''" "Email fixture_alice = ''alice@example.com''" "Groups fixture_alice = [''readers'']"
  "ID fixture_bob = ''bob''" "Email fixture_bob = ''Bob@Example.com''" "Groups fixture_bob = []"
  "Tenant fixture_azure = ''tenant-1''"
  by (simp_all add: fixture_alice_def fixture_bob_def fixture_azure_def)

lemma fixture_issuer: "azure_issuer fixture_service ''tenant-1'' = ''http://127.0.0.1:8090/tenant-1/v2.0''"
  by (simp add: azure_issuer_def fixture_service_def fixture_config_def TrimRight_def)

lemma fixture_json:
  "p = fixture_alice \<or> p = fixture_bob \<Longrightarrow>
     json_reads_back fixture_platform fixture_service p ''tenant-1'' azureAudience hour fixture_now"
  by (auto simp: json_reads_back_def fixture_platform_def fixture_header_def fixture_claims_def claims_of_def
      fixture_marshal_def azure_head_def azure_claims_def fixture_fields fixture_issuer fixture_now_def
      Unix_def second_def hour_def)

lemma fixture_rsa:
  "\<forall>h sig. rsa_sign fixture_platform k h = Inr sig \<longrightarrow> rsa_verify fixture_platform k h sig"
  by (simp add: fixture_platform_def)

lemma fixture_hour: "(if (0::int) \<le> 0 then hour else 0) = hour"
  by simp

theorem azure_token_accepted_iff_witness:
  "\<exists>token. azureIssue fixture_platform fixture_service fixture_alice ''tenant-1'' 0 fixture_now = Inr token \<and>
     validateAzure fixture_platform fixture_service fixture_azure ''readers'' token fixture_now fixture_now =
       Inr fixture_alice"
proof -
  obtain token where t: "azureIssueForAudience fixture_platform fixture_service fixture_alice
      ''tenant-1'' azureAudience 0 fixture_now = Inr token"
    by (simp add: azureIssueForAudience_def fixture_platform_def Let_def)
  show ?thesis
    using azure_token_accepted_iff [OF fixture_rds_config fixture_rds(2) t _ fixture_rsa,
        of fixture_azure "''readers''" fixture_now fixture_now fixture_alice] t
      fixture_json [of fixture_alice]
    by (simp add: azureIssue_def Unix_def fixture_now_def hour_def second_def fixture_fields)
qed

text \<open>
  C11: An accepted Azure token carries a signature of the service's own key over exactly its first
  two parts, under the one algorithm and key id the code knows; its claims, not the caller, name
  the principal; and a group opens a database only when both the configuration and the token list it.
\<close>

theorem validateAzure_sound:
  assumes "validateAzure P s l username token now1 now2 = Inr p"
  shows "\<exists>h c g hb cb sig claims. Split token CHR ''.'' = [h, c, g] \<and>
    b64_decode h = Some hb \<and> b64_decode c = Some cb \<and> b64_decode g = Some sig \<and>
    rsa_verify P (azureKey s) (sha256 P (bytes_of_string (h @ ''.'' @ c))) sig \<and>
    unmarshal_header P (string_of_bytes hb) = Some \<lparr>Alg = ''RS256'', Kid = ''mock-1''\<rparr> \<and>
    unmarshal_claims P (string_of_bytes cb) = Some claims \<and>
    Aud claims = azureAudience \<and> Tid claims = Tenant l \<and> Iss claims = azure_issuer s (Tenant l) \<and>
    Nbf claims \<le> Unix now1 \<and> Unix now2 < Exp claims \<and>
    p \<in> set (Principals (SConfig s)) \<and> ID p = Oid claims \<and> Email p = Upn claims \<and>
    (username = Email p \<or> username \<in> set (Groups p) \<inter> set (ClaimGroups claims))"
proof -
  obtain h c g hb cb sig claims where *: "Split token CHR ''.'' = [h, c, g]" "b64_decode h = Some hb"
    "b64_decode c = Some cb" "b64_decode g = Some sig"
    "unmarshal_header P (string_of_bytes hb) = Some \<lparr>Alg = ''RS256'', Kid = ''mock-1''\<rparr>"
    "unmarshal_claims P (string_of_bytes cb) = Some claims"
    "rsa_verify P (azureKey s) (sha256 P (bytes_of_string (h @ ''.'' @ c))) sig"
    and c: "azure_check_claims s l username claims now1 now2 = Inr p"
    using assms unfolding validateAzure_iff by blast
  from c have "p \<in> set (Principals (SConfig s)) \<and> ID p = Oid claims"
    unfolding azure_check_claims_iff by (blast dest: principal_SomeD)
  with * c [unfolded azure_check_claims_iff] show ?thesis
    by (intro exI [of _ h] exI [of _ c] exI [of _ g] exI [of _ hb] exI [of _ cb] exI [of _ sig]
        exI [of _ claims]) simp
qed

theorem validateAzure_sound_witness:
  "\<exists>token h c g. validateAzure fixture_platform fixture_service fixture_azure ''readers'' token fixture_now fixture_now =
       Inr fixture_alice \<and> Split token CHR ''.'' = [h, c, g]"
proof -
  let ?cb = "bytes_of_string ''alice''"
  let ?token = "b64_encode [] @ ''.'' @ b64_encode ?cb @ ''.'' @
    b64_encode (sha256 fixture_platform (bytes_of_string (b64_encode [] @ ''.'' @ b64_encode ?cb)))"
  have "principal fixture_service ''alice'' = Some fixture_alice"
    using principal_ID [OF valid_IDs [OF fixture_rds_config] fixture_rds(2)] by (simp only: fixture_fields)
  then have claims: "azure_check_claims fixture_service fixture_azure ''readers'' (fixture_claims ''alice'')
      fixture_now fixture_now = Inr fixture_alice"
    unfolding azure_check_claims_iff
    by (simp add: fixture_fields fixture_issuer fixture_claims_def fixture_now_def Unix_def second_def)
  have v: "validateAzure fixture_platform fixture_service fixture_azure ''readers'' ?token fixture_now fixture_now =
      Inr fixture_alice"
    unfolding validateAzure_iff azure_token_parts
    using claims by (auto simp: b64_decode_encode fixture_platform_def fixture_header_def)
  from validateAzure_sound [OF this] v show ?thesis by blast
qed

end
