(* ===== verification/Http.thy ===== *)
theory Http
  imports Identity
begin

text \<open>
  The credential endpoints of \<^verbatim>\<open>iamproxy/http.go\<close>: the router and every handler, as functions from
  a request and the state to a response and the state. A handler has at most one critical section
  that changes the state, so handling a request is one atomic step. What a handler draws from
  outside is the record \<open>env\<close>: the random bytes, the readings of the clock in the order of the calls,
  and for the purge of the IMDS table how long before the last reading each entry was looked at.
  \<^verbatim>\<open>net/http\<close> supplies the parsed request.
\<close>

section \<open>Requests, responses and state\<close>

record request =
  Method :: string
  URLPath :: string
  Query :: url_values                \<comment> \<open>\<^verbatim>\<open>r.URL.Query()\<close>\<close>
  Header :: "string \<Rightarrow> string"       \<comment> \<open>\<^verbatim>\<open>r.Header.Get\<close>\<close>
  Form :: "url_values option"        \<comment> \<open>what \<^verbatim>\<open>ParseForm\<close> leaves in \<^verbatim>\<open>r.Form\<close>, or its error\<close>
  OverTLS :: bool
  RequestHost :: string

datatype body = Text string | Json json

record response =
  Status :: nat
  Headers :: "(string \<times> string) list"
  Body :: body

record env =
  rnd :: bytes
  rand_ok :: bool
  clock :: "nat \<Rightarrow> time"
  lag :: "string \<Rightarrow> nat"

record mockHTTP =
  svc :: service
  imds :: "string \<rightharpoonup> time"

definition HTTPHandler :: "service \<Rightarrow> mockHTTP" where
  "HTTPHandler s = \<lparr>svc = s, imds = Map.empty\<rparr>"

definition jsonReply :: "nat \<Rightarrow> json \<Rightarrow> response" where
  "jsonReply status v = \<lparr>Status = status,
     Headers = [(''Content-Type'', ''application/json''), (''Cache-Control'', ''no-store'')], Body = Json v\<rparr>"

text \<open>\<^verbatim>\<open>http.Error\<close> and \<^verbatim>\<open>http.NotFound\<close>.\<close>

definition http_Error :: "string \<Rightarrow> nat \<Rightarrow> response" where
  "http_Error msg code = \<lparr>Status = code,
     Headers = [(''Content-Type'', ''text/plain; charset=utf-8''), (''X-Content-Type-Options'', ''nosniff'')],
     Body = Text (msg @ [LF])\<rparr>"

definition NotFound :: response where
  "NotFound = http_Error ''404 page not found'' 404"

definition with_header :: "string \<Rightarrow> string \<Rightarrow> response \<Rightarrow> response" where
  "with_header k v r = r\<lparr>Headers := (k, v) # Headers r\<rparr>"

definition Write :: "string \<Rightarrow> response" where
  "Write b = \<lparr>Status = 200, Headers = [], Body = Text b\<rparr>"

section \<open>AWS\<close>

definition imds_ttl :: "request \<Rightarrow> int option" where
  "imds_ttl r = (case Atoi (Header r ''X-Aws-Ec2-Metadata-Token-Ttl-Seconds'') of
     Inl _ \<Rightarrow> None
   | Inr ttl \<Rightarrow> if ttl < 1 \<or> ttl > 21600 then None else Some ttl)"

text \<open>Lines 85 to 92: drop the entries seen expired, then store the new token.\<close>

definition imds_put ::
  "(string \<Rightarrow> nat) \<Rightarrow> time \<Rightarrow> string \<Rightarrow> time \<Rightarrow> (string \<rightharpoonup> time) \<Rightarrow> (string \<rightharpoonup> time)" where
  "imds_put seen now t expiry table =
     (let kept = (\<lambda>token. case table token of None \<Rightarrow> None
                 | Some e \<Rightarrow> if \<not> now - int (seen token) < e then None else Some e)
      in kept(t \<mapsto> expiry))"

definition awsIMDSToken :: "env \<Rightarrow> mockHTTP \<Rightarrow> request \<Rightarrow> response \<times> mockHTTP" where
  "awsIMDSToken e h r =
     (if Method r \<noteq> ''PUT'' then (http_Error ''method'' 405, h)
      else case imds_ttl r of
        None \<Rightarrow> (http_Error ''invalid IMDSv2 token TTL'' 400, h)
      | Some ttl \<Rightarrow>
          if \<not> rand_ok e then (http_Error ''rng'' 500, h)
          else let t = b64_encode (rnd e); now = clock e 0 in
            (with_header ''Content-Type'' ''text/plain'' (Write t),
             h\<lparr>imds := imds_put (lag e) now t (now + ttl * second) (imds h)\<rparr>))"

definition imds_prefix :: string where
  "imds_prefix = ''/latest/meta-data/iam/security-credentials/''"

definition aws_expiration :: "time \<Rightarrow> json" where
  "aws_expiration now = JStr (RFC3339 (now + hour))"

definition awsIMDSCredentials :: "env \<Rightarrow> mockHTTP \<Rightarrow> request \<Rightarrow> response" where
  "awsIMDSCredentials e h r =
     (if Method r \<noteq> ''GET'' then http_Error ''method'' 405
      else case imds h (Header r ''X-Aws-Ec2-Metadata-Token'') of
        None \<Rightarrow> http_Error ''IMDS token required'' 401
      | Some expiry \<Rightarrow>
      if \<not> clock e 0 < expiry then http_Error ''IMDS token required'' 401
      else let role = TrimPrefix (URLPath r) imds_prefix in
      if role = [] then
        Write (concat (map (\<lambda>p. if AWSAccessKey p \<noteq> [] then ID p @ [LF] else []) (Principals (SConfig (svc h)))))
      else case principal (svc h) role of
        None \<Rightarrow> NotFound
      | Some p \<Rightarrow>
          if AWSAccessKey p = [] then NotFound
          else jsonReply 200 (JObj [(''Code'', JStr ''Success''), (''Type'', JStr ''AWS-HMAC''),
            (''AccessKeyId'', JStr (AWSAccessKey p)), (''SecretAccessKey'', JStr (AWSSecretKey p)),
            (''Token'', JStr (AWSSessionToken p)), (''Expiration'', aws_expiration (clock e 1))]))"

definition awsECSCredentials :: "env \<Rightarrow> mockHTTP \<Rightarrow> request \<Rightarrow> response" where
  "awsECSCredentials e h r =
     (if Method r \<noteq> ''GET'' then http_Error ''method'' 405
      else let pid = TrimPrefix (URLPath r) ''/v2/credentials/'' in
      if pid = [] \<or> Contains pid ''/'' then NotFound
      else case principal (svc h) pid of
        None \<Rightarrow> NotFound
      | Some p \<Rightarrow>
          if AWSAccessKey p = [] then NotFound
          else if ECSAuthorizationToken p \<noteq> [] \<and>
            \<not> checkSecret (ECSAuthorizationToken p) (Header r ''Authorization'') then
            http_Error ''authorization token required'' 401
          else jsonReply 200 (JObj [(''RoleArn'', JStr (''arn:aws:iam::123456789012:role/'' @ ID p)),
            (''AccessKeyId'', JStr (AWSAccessKey p)), (''SecretAccessKey'', JStr (AWSSecretKey p)),
            (''Token'', JStr (AWSSessionToken p)), (''Expiration'', aws_expiration (clock e 0))]))"

definition ecs_container :: "Principal \<Rightarrow> json" where
  "ecs_container p = JObj [(''DockerId'', JStr (''iam-proxy-'' @ ID p)), (''Name'', JStr (ID p)),
     (''DockerName'', JStr (''iam-proxy-'' @ ID p)),
     (''Image'', JStr ''db-iam-auth-emulator-proxy-e2e:local''), (''ImageID'', JStr ''sha256:fixture''),
     (''DesiredStatus'', JStr ''RUNNING''), (''KnownStatus'', JStr ''RUNNING'')]"

definition ecs_stats :: "time \<Rightarrow> json" where
  "ecs_stats now = JObj [(''read'', JStr (RFC3339Nano now)),
     (''cpu_stats'', JObj [(''cpu_usage'', JObj [(''total_usage'', JInt 0)]), (''system_cpu_usage'', JInt 0)]),
     (''memory_stats'', JObj [(''usage'', JInt 0), (''limit'', JInt 0)]), (''networks'', JObj [])]"

definition ecs_task :: "Principal \<Rightarrow> bool \<Rightarrow> json" where
  "ecs_task p tags = JObj ([(''Cluster'', JStr ''iam-proxy-fixtures''),
     (''TaskARN'', JStr (''arn:aws:ecs:us-east-1:123456789012:task/iam-proxy-fixtures/'' @ ID p)),
     (''Family'', JStr ''iam-proxy-fixture''), (''Revision'', JStr ''1''),
     (''DesiredStatus'', JStr ''RUNNING''), (''KnownStatus'', JStr ''RUNNING''),
     (''LaunchType'', JStr ''FARGATE''), (''Containers'', JArr [ecs_container p])] @
     (if tags then [(''TaskTags'', JArr []), (''ContainerInstanceTags'', JArr [])] else []))"

definition awsECSMetadata :: "env \<Rightarrow> mockHTTP \<Rightarrow> request \<Rightarrow> response" where
  "awsECSMetadata e h r =
     (if Method r \<noteq> ''GET'' then http_Error ''method'' 405
      else let parts = Split (TrimPrefix (URLPath r) ''/ecs/v4/'') CHR ''/'' in
      if length parts < 1 \<or> length parts > 3 \<or> parts ! 0 = [] then NotFound
      else case principal (svc h) (parts ! 0) of
        None \<Rightarrow> NotFound
      | Some p \<Rightarrow>
          if AWSAccessKey p = [] then NotFound
          else let stats = ecs_stats (clock e 0) in
          if length parts = 1 then jsonReply 200 (ecs_container p)
          else if length parts = 2 \<and> parts ! 1 = ''stats'' then jsonReply 200 stats
          else if length parts = 3 \<and> parts ! 1 = ''task'' \<and> parts ! 2 = ''stats'' then
            jsonReply 200 (JObj [(''iam-proxy-'' @ ID p, stats)])
          else if length parts \<noteq> 2 then NotFound
          else if parts ! 1 \<noteq> ''task'' \<and> parts ! 1 \<noteq> ''taskWithTags'' then NotFound
          else jsonReply 200 (ecs_task p (parts ! 1 = ''taskWithTags'')))"

section \<open>Google\<close>

definition allowed_scope :: "string \<Rightarrow> bool" where
  "allowed_scope scope \<longleftrightarrow>
     \<not> (scope \<noteq> googleSQLScope \<and> scope \<noteq> ''https://www.googleapis.com/auth/cloud-platform'')"

definition default_scope :: "string \<Rightarrow> string" where
  "default_scope scope = (if scope = [] then googleSQLScope else scope)"

definition googleMetadata :: "env \<Rightarrow> mockHTTP \<Rightarrow> request \<Rightarrow> response \<times> mockHTTP" where
  "googleMetadata e h r =
     (if Header r ''Metadata-Flavor'' \<noteq> ''Google'' then (http_Error ''metadata header required'' 403, h)
      else let asked = Get (Query r) ''principal'';
               pid = (if asked \<noteq> [] then asked
                      else case find (\<lambda>p. Email p \<noteq> []) (Principals (SConfig (svc h))) of
                        None \<Rightarrow> asked | Some p \<Rightarrow> ID p) in
      case principal (svc h) pid of
        None \<Rightarrow> (NotFound, h)
      | Some p \<Rightarrow>
          if Email p = [] then (NotFound, h)
          else let flavor = with_header ''Metadata-Flavor'' ''Google'' in
          if HasSuffix (URLPath r) ''/email'' then (flavor (Write (Email p)), h)
          else let scope = default_scope (Get (Query r) ''scopes'') in
          if \<not> allowed_scope scope then (flavor (http_Error ''scope not allowed'' 400), h)
          else case googleIssue (svc h) p scope (rnd e) (clock e 0) of (s, token, expires) \<Rightarrow>
            (flavor (jsonReply 200 (JObj [(''access_token'', JStr token), (''expires_in'', JInt expires),
               (''token_type'', JStr ''Bearer'')])), h\<lparr>svc := s\<rparr>))"

definition googleOAuth :: "env \<Rightarrow> mockHTTP \<Rightarrow> request \<Rightarrow> response \<times> mockHTTP" where
  "googleOAuth e h r =
     (if Method r \<noteq> ''POST'' then (http_Error ''method'' 405, h)
      else case Form r of
        None \<Rightarrow> (http_Error ''form'' 400, h)
      | Some form \<Rightarrow>
      if Get form ''grant_type'' \<noteq> ''refresh_token'' then (http_Error ''unsupported grant'' 400, h)
      else case find (\<lambda>p. GoogleRefreshToken p \<noteq> [] \<and> checkSecret (GoogleRefreshToken p) (Get form ''refresh_token''))
                     (Principals (SConfig (svc h))) of
        None \<Rightarrow> (http_Error ''invalid grant'' 401, h)
      | Some p \<Rightarrow>
          let scope = default_scope (Get form ''scope'') in
          if \<not> allowed_scope scope then (http_Error ''invalid scope'' 400, h)
          else case googleIssue (svc h) p scope (rnd e) (clock e 0) of (s, token, expires) \<Rightarrow>
            (jsonReply 200 (JObj [(''access_token'', JStr token), (''expires_in'', JInt expires),
               (''token_type'', JStr ''Bearer''), (''scope'', JStr scope)]), h\<lparr>svc := s\<rparr>))"

section \<open>Azure\<close>

definition azureTenantFor :: "mockHTTP \<Rightarrow> Principal \<Rightarrow> string" where
  "azureTenantFor h p =
     (case find (\<lambda>l. Provider l = ''azure'' \<and> Granted p (Name l)) (Listeners (SConfig (svc h))) of
        None \<Rightarrow> [] | Some l \<Rightarrow> Tenant l)"

definition management_resources :: "string list" where
  "management_resources = [''https://management.azure.com/'', ''https://management.core.windows.net/'']"

text \<open>Lines 305 to 315: \<open>Inl\<close> is the early return for an ambiguous identity.\<close>

fun azure_pick :: "string \<Rightarrow> Principal option \<Rightarrow> Principal list \<Rightarrow> response + Principal option" where
  "azure_pick cid p [] = Inr p"
| "azure_pick cid p (candidate # cs) =
     (if AzureClientID candidate \<noteq> [] \<and> (cid = [] \<or> cid = AzureClientID candidate) then
        (if p \<noteq> None \<and> cid = [] then Inl (http_Error ''ambiguous identity'' 400)
         else azure_pick cid (Some candidate) cs)
      else azure_pick cid p cs)"

definition azureIMDS :: "platform \<Rightarrow> env \<Rightarrow> mockHTTP \<Rightarrow> request \<Rightarrow> response" where
  "azureIMDS P e h r =
     (if Header r ''Metadata'' \<noteq> ''true'' then http_Error ''Metadata header required'' 400
      else let resource = Get (Query r) ''resource'' in
      if resource \<noteq> azureAudience \<and> resource \<notin> set management_resources then
        http_Error ''invalid resource'' 400
      else case azure_pick (Get (Query r) ''client_id'') None (Principals (SConfig (svc h))) of
        Inl err \<Rightarrow> err
      | Inr None \<Rightarrow> http_Error ''identity not found'' 404
      | Inr (Some p) \<Rightarrow>
          let tenant = azureTenantFor h p in
          if tenant = [] then http_Error ''tenant not found'' 400
          else case azureIssueForAudience P (svc h) p tenant resource hour (clock e 0) of
            Inl _ \<Rightarrow> http_Error ''signing failed'' 500
          | Inr token \<Rightarrow>
              jsonReply 200 (JObj [(''access_token'', JStr token), (''client_id'', JStr (AzureClientID p)),
                (''expires_in'', JStr ''3600''), (''expires_on'', JStr (int_string (Unix (clock e 1 + hour)))),
                (''not_before'', JStr (int_string (Unix (clock e 2)))), (''resource'', JStr resource),
                (''token_type'', JStr ''Bearer'')]))"

text \<open>\<^verbatim>\<open>azureClientCredentialScope\<close>: \<open>n\<close> is the variable \<^verbatim>\<open>resource\<close> of the loop.\<close>

fun azure_scope_loop :: "nat \<Rightarrow> string list \<Rightarrow> bool" where
  "azure_scope_loop n [] \<longleftrightarrow> n = 1"
| "azure_scope_loop n (s # ss) \<longleftrightarrow>
     (if s = azureAudience @ ''/.default'' then azure_scope_loop (n + 1) ss
      else if s = ''openid'' \<or> s = ''offline_access'' \<or> s = ''profile'' then azure_scope_loop n ss
      else False)"

definition azureClientCredentialScope :: "string \<Rightarrow> bool" where
  "azureClientCredentialScope scope \<longleftrightarrow> azure_scope_loop 0 (Fields scope)"

definition azureOAuth :: "platform \<Rightarrow> env \<Rightarrow> mockHTTP \<Rightarrow> request \<Rightarrow> response" where
  "azureOAuth P e h r =
     (if Method r \<noteq> ''POST'' then http_Error ''method'' 405
      else case Form r of
        None \<Rightarrow> http_Error ''form'' 400
      | Some form \<Rightarrow>
      let parts = Split (Trim (URLPath r) CHR ''/'') CHR ''/'' in
      if length parts < 4 \<or> parts ! (length parts - 3) \<noteq> ''oauth2'' then NotFound
      else let tenant = parts ! 0 in
      if Get form ''grant_type'' \<noteq> ''client_credentials'' \<or> \<not> azureClientCredentialScope (Get form ''scope'') then
        http_Error ''unsupported grant or scope'' 400
      else case find (\<lambda>p. AzureClientID p = Get form ''client_id'' \<and> AzureClientSecret p \<noteq> [] \<and>
                 checkSecret (AzureClientSecret p) (Get form ''client_secret'') \<and> azureTenantFor h p = tenant)
               (Principals (SConfig (svc h))) of
        None \<Rightarrow> http_Error ''invalid client'' 401
      | Some p \<Rightarrow>
          (case azureIssue P (svc h) p tenant hour (clock e 0) of
             Inl _ \<Rightarrow> http_Error ''signing failed'' 500
           | Inr token \<Rightarrow>
               jsonReply 200 (JObj [(''access_token'', JStr token), (''expires_in'', JInt 3600),
                 (''ext_expires_in'', JInt 3600), (''token_type'', JStr ''Bearer'')])))"

definition azureDiscovery :: "mockHTTP \<Rightarrow> request \<Rightarrow> response" where
  "azureDiscovery h r =
     (let parts = Split (Trim (URLPath r) CHR ''/'') CHR ''/'' in
      if length parts < 3 then NotFound
      else let tenant = parts ! 0;
               origin = (if OverTLS r then ''https://'' @ RequestHost r
                         else TrimRight (PublicURL (SConfig (svc h))) CHR ''/'');
               base = origin @ ''/'' @ tenant in
        jsonReply 200 (JObj [(''issuer'', JStr (base @ ''/v2.0'')),
          (''authorization_endpoint'', JStr (base @ ''/oauth2/v2.0/authorize'')),
          (''token_endpoint'', JStr (base @ ''/oauth2/v2.0/token'')),
          (''jwks_uri'', JStr (base @ ''/discovery/v2.0/keys'')),
          (''response_types_supported'', JArr [JStr ''token'']),
          (''scopes_supported'', JArr [JStr ''openid'', JStr ''profile'', JStr ''offline_access'']),
          (''token_endpoint_auth_methods_supported'', JArr [JStr ''client_secret_post'']),
          (''id_token_signing_alg_values_supported'', JArr [JStr ''RS256''])]))"

section \<open>The router\<close>

datatype route = Healthz | Subscriptions | Tenants | IMDSToken | IMDSCredentials | ECSCredentials
  | ECSMetadata | GoogleMetadata | GoogleOAuth | AzureIMDS | AzureDiscovery | AzureKeys | AzureOAuth
  | NoRoute

definition route_of :: "string \<Rightarrow> route" where
  "route_of p =
     (if p = ''/healthz'' then Healthz
      else if p = ''/arm/subscriptions'' then Subscriptions
      else if p = ''/arm/tenants'' then Tenants
      else if p = ''/latest/api/token'' then IMDSToken
      else if HasPrefix p imds_prefix then IMDSCredentials
      else if HasPrefix p ''/v2/credentials/'' then ECSCredentials
      else if HasPrefix p ''/ecs/v4/'' then ECSMetadata
      else if p = ''/computeMetadata/v1/instance/service-accounts/default/token'' \<or>
          HasPrefix p ''/computeMetadata/v1/instance/service-accounts/'' \<and> HasSuffix p ''/token'' then GoogleMetadata
      else if p = ''/computeMetadata/v1/instance/service-accounts/default/email'' then GoogleMetadata
      else if p = ''/oauth2.googleapis.com/token'' \<or> p = ''/token'' then GoogleOAuth
      else if p = ''/metadata/identity/oauth2/token'' then AzureIMDS
      else if HasSuffix p ''/.well-known/openid-configuration'' then AzureDiscovery
      else if HasSuffix p ''/discovery/v2.0/keys'' then AzureKeys
      else if HasSuffix p ''/oauth2/v2.0/token'' then AzureOAuth
      else NoRoute)"

definition serve :: "platform \<Rightarrow> env \<Rightarrow> mockHTTP \<Rightarrow> request \<Rightarrow> response \<times> mockHTTP" where
  "serve P e h r =
     (case route_of (URLPath r) of
        Healthz \<Rightarrow> (jsonReply 200 (JObj [(''status'', JStr ''ok'')]), h)
      | Subscriptions \<Rightarrow> (jsonReply 200 (JObj [(''value'', JArr [])]), h)
      | Tenants \<Rightarrow> (jsonReply 200 (JObj [(''value'',
          JArr [JObj [(''tenantId'', JStr ''tenant-1''), (''id'', JStr ''/tenants/tenant-1'')]])]), h)
      | IMDSToken \<Rightarrow> awsIMDSToken e h r
      | IMDSCredentials \<Rightarrow> (awsIMDSCredentials e h r, h)
      | ECSCredentials \<Rightarrow> (awsECSCredentials e h r, h)
      | ECSMetadata \<Rightarrow> (awsECSMetadata e h r, h)
      | GoogleMetadata \<Rightarrow> googleMetadata e h r
      | GoogleOAuth \<Rightarrow> googleOAuth e h r
      | AzureIMDS \<Rightarrow> (azureIMDS P e h r, h)
      | AzureDiscovery \<Rightarrow> (azureDiscovery h r, h)
      | AzureKeys \<Rightarrow> (jsonReply 200 (JObj [(''keys'', JArr [AzureJWK (svc h)])]), h)
      | AzureOAuth \<Rightarrow> (azureOAuth P e h r, h)
      | NoRoute \<Rightarrow> (NotFound, h))"

end
