(* ===== verification/HttpSafety.thy ===== *)
theory HttpSafety
  imports Http
begin

text \<open>
  What the credential endpoints of \<open>Http\<close> guarantee over whole histories of requests: the IMDSv2
  table is the second provider of the \<open>token_store\<close> interface, which carries the lemmas on its
  tokens; the registries hold only what the handlers may put there; secrets leave through two doors
  only; and the tokens handed out are those the validators of \<open>Identity\<close> accept.
\<close>

section \<open>Histories\<close>

fun run_http :: "platform \<Rightarrow> (env \<times> request) list \<Rightarrow> mockHTTP \<Rightarrow> mockHTTP" where
  "run_http P [] h = h"
| "run_http P ((e, r) # es) h = run_http P es (snd (serve P e h r))"

inductive http_reachable :: "platform \<Rightarrow> service \<Rightarrow> mockHTTP \<Rightarrow> bool" for P s0 where
  start: "http_reachable P s0 (HTTPHandler s0)"
| request: "http_reachable P s0 h \<Longrightarrow> http_reachable P s0 (snd (serve P e h r))"

inductive_cases http_reachableE: "http_reachable P s0 h"

lemma run_http_reachable: "http_reachable P s0 h \<Longrightarrow> http_reachable P s0 (run_http P es h)"
  by (induction P es h rule: run_http.induct) (auto intro: http_reachable.request)

text \<open>How a request can change the state: a new IMDS token, or a Google token of an allowed scope.\<close>

definition issues_imds :: "env \<Rightarrow> request \<Rightarrow> int \<Rightarrow> bool" where
  "issues_imds e r ttl \<longleftrightarrow>
     URLPath r = ''/latest/api/token'' \<and> Method r = ''PUT'' \<and> imds_ttl r = Some ttl \<and> rand_ok e"

lemma googleIssue_split:
  "googleIssue s p scope b now = (fst (googleIssue s p scope b now), google_token_string b, 3600)"
  by (simp add: googleIssue_store)

text \<open>Walking through a handler branch by branch, keeping the conditions of each branch.\<close>

lemma branch_if: "(c \<Longrightarrow> Q a) \<Longrightarrow> (\<not> c \<Longrightarrow> Q b) \<Longrightarrow> Q (if c then a else b)"
  by simp

lemma branch_option:
  "(x = None \<Longrightarrow> Q a) \<Longrightarrow> (\<And>y. x = Some y \<Longrightarrow> Q (f y)) \<Longrightarrow> Q (case x of None \<Rightarrow> a | Some y \<Rightarrow> f y)"
  by (cases x) simp_all

definition state_ok :: "env \<Rightarrow> mockHTTP \<Rightarrow> response \<times> mockHTTP \<Rightarrow> bool" where
  "state_ok e h x \<longleftrightarrow> snd x = h \<or>
     (\<exists>p\<in>set (Principals (SConfig (svc h))). \<exists>scope. allowed_scope scope \<and>
        snd x = h\<lparr>svc := fst (googleIssue (svc h) p scope (rnd e) (clock e 0))\<rparr>)"

lemmas branches = branch_if [where Q = "state_ok e h" for e h] branch_option [where Q = "state_ok e h" for e h]

lemma state_ok_same: "state_ok e h (x, h)"
  by (simp add: state_ok_def)

lemma state_ok_issue:
  "p \<in> set (Principals (SConfig (svc h))) \<Longrightarrow> \<not> \<not> allowed_scope scope \<Longrightarrow>
     state_ok e h (case googleIssue (svc h) p scope (rnd e) (clock e 0) of
       (s, token, expires) \<Rightarrow> (f token expires, h\<lparr>svc := s\<rparr>))"
  by (subst googleIssue_split) (auto simp: state_ok_def)

lemma googleMetadata_state: "state_ok e h (googleMetadata e h r)"
  unfolding googleMetadata_def Let_def
  by (intro branches state_ok_same state_ok_issue) (simp_all add: principal_SomeD)

lemma googleOAuth_state: "state_ok e h (googleOAuth e h r)"
  unfolding googleOAuth_def Let_def
  by (intro branches state_ok_same state_ok_issue) (auto simp only: find_Some_iff nth_mem)

lemma awsIMDSToken_state:
  "snd (awsIMDSToken e h r) =
     (if Method r = ''PUT'' \<and> imds_ttl r \<noteq> None \<and> rand_ok e then
        h\<lparr>imds := imds_put (lag e) (clock e 0) (b64_encode (rnd e)) (clock e 0 + the (imds_ttl r) * second) (imds h)\<rparr>
      else h)"
  by (auto simp: awsIMDSToken_def Let_def split: option.split)

lemma route_IMDSToken: "route_of p = IMDSToken \<longleftrightarrow> p = ''/latest/api/token''"
  by (simp add: route_of_def)

lemma serve_state:
  obtains (same) "snd (serve P e h r) = h"
  | (imds) ttl where "issues_imds e r ttl"
      "snd (serve P e h r) =
         h\<lparr>imds := imds_put (lag e) (clock e 0) (b64_encode (rnd e)) (clock e 0 + ttl * second) (imds h)\<rparr>"
  | (google) p scope where "p \<in> set (Principals (SConfig (svc h)))" "allowed_scope scope"
      "snd (serve P e h r) = h\<lparr>svc := fst (googleIssue (svc h) p scope (rnd e) (clock e 0))\<rparr>"
proof (cases "route_of (URLPath r)")
  case IMDSToken
  then have "snd (serve P e h r) = snd (awsIMDSToken e h r)" by (simp add: serve_def)
  then show ?thesis
    using IMDSToken that(1,2) by (auto simp: awsIMDSToken_state issues_imds_def route_IMDSToken split: if_splits)
next
  case GoogleMetadata
  then have "snd (serve P e h r) = snd (googleMetadata e h r)" by (simp add: serve_def)
  then show ?thesis using googleMetadata_state [of e h r] that(1,3) unfolding state_ok_def by metis
next
  case GoogleOAuth
  then have "snd (serve P e h r) = snd (googleOAuth e h r)" by (simp add: serve_def)
  then show ?thesis using googleOAuth_state [of e h r] that(1,3) unfolding state_ok_def by metis
qed (use that(1) in \<open>simp_all add: serve_def\<close>)

lemma SConfig_serve [simp]: "SConfig (svc (snd (serve P e h r))) = SConfig (svc h)"
  by (rule serve_state [of P e h r]) (simp_all)

lemma SConfig_run [simp]: "SConfig (svc (run_http P es h)) = SConfig (svc h)"
  by (induction P es h rule: run_http.induct) simp_all

text \<open>The IMDSv2 table is a token store; an entry is its own expiry.\<close>

interpretation imdsv2: token_store "\<lambda>table. table" "\<lambda>expiry. expiry" imds_put
  by unfold_locales (auto simp: imds_put_def Let_def split: option.splits if_splits)

definition imds_events :: "(env \<times> request) list \<Rightarrow> ((string \<Rightarrow> nat) \<times> time \<times> string \<times> time) list" where
  "imds_events es = concat (map (\<lambda>(e, r). case imds_ttl r of
       Some ttl \<Rightarrow> if issues_imds e r ttl
         then [(lag e, clock e 0, b64_encode (rnd e), clock e 0 + ttl * second)] else []
     | None \<Rightarrow> []) es)"

lemma imds_serve:
  "imds (snd (serve P e h r)) = imdsv2.store_all (imds_events [(e, r)]) (imds h)"
proof (cases "\<exists>ttl. issues_imds e r ttl")
  case True
  then obtain ttl where put: "URLPath r = ''/latest/api/token''" "Method r = ''PUT''" "imds_ttl r = Some ttl" "rand_ok e"
    by (auto simp: issues_imds_def)
  then have "snd (serve P e h r) =
      h\<lparr>imds := imds_put (lag e) (clock e 0) (b64_encode (rnd e)) (clock e 0 + ttl * second) (imds h)\<rparr>"
    using awsIMDSToken_state [of e h r] by (simp add: serve_def route_IMDSToken [THEN iffD2])
  with put show ?thesis by (simp add: imds_events_def issues_imds_def)
next
  case False
  then have "imds_events [(e, r)] = []" by (simp add: imds_events_def split: option.split)
  moreover have "imds (snd (serve P e h r)) = imds h"
    by (rule serve_state [of P e h r]) (use False in auto)
  ultimately show ?thesis by simp
qed

lemma store_all_append:
  "imdsv2.store_all (as @ bs) t = imdsv2.store_all bs (imdsv2.store_all as t)"
  by (induction as t rule: imdsv2.store_all.induct) simp_all

lemma imds_run: "imds (run_http P es h) = imdsv2.store_all (imds_events es) (imds h)"
proof (induction P es h rule: run_http.induct)
  case (2 P e r es h)
  have "imds_events ((e, r) # es) = imds_events [(e, r)] @ imds_events es" by (simp add: imds_events_def)
  with 2 show ?case by (simp add: store_all_append imds_serve)
qed (simp add: imds_events_def)

text \<open>
  C12: The registry never holds an inadmissible token. Whatever requests have been served, in any
  order and with any random bytes and clock, the configuration and the signing key are those the
  handler was built with, and every Google token in the registry belongs to a configured principal
  and carries one of the two scopes a client may ask for.
\<close>

theorem http_reachable_registry:
  assumes "http_reachable P s0 h" and "googleTokens s0 = Map.empty"
  shows "SConfig (svc h) = SConfig s0 \<and> azureKey (svc h) = azureKey s0 \<and>
    (\<forall>t i. googleTokens (svc h) t = Some i \<longrightarrow>
       (\<exists>p\<in>set (Principals (SConfig s0)). ID p = TokenPrincipal i) \<and> allowed_scope (Scope i))"
  using assms
proof (induction rule: http_reachable.induct)
  case (request h e r)
  then have IH: "SConfig (svc h) = SConfig s0" "azureKey (svc h) = azureKey s0"
    "\<And>t i. googleTokens (svc h) t = Some i \<Longrightarrow>
       (\<exists>p\<in>set (Principals (SConfig s0)). ID p = TokenPrincipal i) \<and> allowed_scope (Scope i)" by simp_all
  show ?case
  proof (rule serve_state [of P e h r])
    fix p scope assume *: "p \<in> set (Principals (SConfig (svc h)))" "allowed_scope scope"
      "snd (serve P e h r) = h\<lparr>svc := fst (googleIssue (svc h) p scope (rnd e) (clock e 0))\<rparr>"
    from * IH show ?thesis by (auto simp: googleIssue_def Let_def)
  qed (use IH in \<open>simp_all\<close>)
qed (simp add: HTTPHandler_def)

section \<open>IMDSv2\<close>

lemma HasPrefix_route: "HasPrefix p imds_prefix \<Longrightarrow> route_of p = IMDSCredentials"
  by (auto simp: HasPrefix_iff route_of_def imds_prefix_def)

lemma awsIMDSCredentials_live:
  assumes "Status (awsIMDSCredentials e h r) = 200"
  shows "Method r = ''GET'' \<and>
    (\<exists>expiry. imds h (Header r ''X-Aws-Ec2-Metadata-Token'') = Some expiry \<and> clock e 0 < expiry)"
proof -
  have bad: "Status (http_Error m 405) \<noteq> 200" "Status (http_Error m 401) \<noteq> 200" for m
    by (simp_all add: http_Error_def)
  show ?thesis
  proof (cases "Method r = ''GET''")
    case True
    with assms bad show ?thesis
      by (cases "imds h (Header r ''X-Aws-Ec2-Metadata-Token'')")
        (simp_all add: awsIMDSCredentials_def split: if_split_asm)
  qed (use assms bad in \<open>simp add: awsIMDSCredentials_def\<close>)
qed

text \<open>
  C13: The metadata service gives credentials, or the list of roles, only to a session. After any
  history of requests on a fresh handler, a successful answer means that the request is a GET whose
  token was handed out by an earlier PUT with a valid lifetime of at most six hours that is not over.
\<close>

theorem imds_credentials_need_token:
  assumes "HasPrefix (URLPath r) imds_prefix"
    and "Status (fst (serve P e (run_http P es (HTTPHandler s)) r)) = 200"
  shows "Method r = ''GET'' \<and> (\<exists>(e', r')\<in>set es. \<exists>ttl. issues_imds e' r' ttl \<and> 1 \<le> ttl \<and> ttl \<le> 21600 \<and>
    Header r ''X-Aws-Ec2-Metadata-Token'' = b64_encode (rnd e') \<and> clock e 0 < clock e' 0 + ttl * second)"
proof -
  let ?h = "run_http P es (HTTPHandler s)"
  let ?t = "Header r ''X-Aws-Ec2-Metadata-Token''"
  have "Status (awsIMDSCredentials e ?h r) = 200"
    using assms by (simp add: serve_def HasPrefix_route)
  from awsIMDSCredentials_live [OF this] obtain expiry where
    g: "Method r = ''GET''" and x: "imds ?h ?t = Some expiry" "clock e 0 < expiry" by blast
  from x(1) obtain sn now where "(sn, now, ?t, expiry) \<in> set (imds_events es)"
    using imdsv2.store_all_origin [of "imds_events es" Map.empty ?t expiry]
    by (auto simp: imds_run HTTPHandler_def)
  then obtain e' r' ttl where er: "(e', r') \<in> set es" "issues_imds e' r' ttl" "?t = b64_encode (rnd e')"
    "expiry = clock e' 0 + ttl * second" "imds_ttl r' = Some ttl"
    by (auto simp: imds_events_def split: option.splits if_splits)
  moreover from er(5) have "1 \<le> ttl \<and> ttl \<le> 21600"
    by (auto simp: imds_ttl_def split: sum.splits if_splits)
  ultimately show ?thesis using g x(2) by (intro conjI bexI [of _ "(e', r')"]) auto
qed

lemma imds_answer:
  assumes "Method r = ''GET''" "URLPath r = imds_prefix @ ID p" "ID p \<noteq> []" "AWSAccessKey p \<noteq> []"
    and "principal (svc h) (ID p) = Some p"
    and "imds h (Header r ''X-Aws-Ec2-Metadata-Token'') = Some expiry" "clock e 0 < expiry"
  shows "fst (serve P e h r) = jsonReply 200 (JObj [(''Code'', JStr ''Success''), (''Type'', JStr ''AWS-HMAC''),
    (''AccessKeyId'', JStr (AWSAccessKey p)), (''SecretAccessKey'', JStr (AWSSecretKey p)),
    (''Token'', JStr (AWSSessionToken p)), (''Expiration'', aws_expiration (clock e 1))])"
  using assms by (simp add: serve_def HasPrefix_route awsIMDSCredentials_def)

lemma principal_config: "SConfig s = SConfig s' \<Longrightarrow> principal s = principal s'"
  by (simp add: principal_def fun_eq_iff)

lemma valid_ID: "Validate_Config ul c = Inr c' \<Longrightarrow> p \<in> set (Principals c') \<Longrightarrow> ID p \<noteq> []"
  using Validate_valid by (auto simp: valid_config_def Let_def valid_principal_def)

lemma imds_session:
  assumes "Validate_Config ul c = Inr (SConfig (svc h))"
    and "p \<in> set (Principals (SConfig (svc h)))" and "AWSAccessKey p \<noteq> []"
    and "issues_imds e0 r0 ttl"
    and "\<forall>(e', r')\<in>set es. rnd e' \<noteq> rnd e0 \<and> clock e' 0 \<le> clock e 0"
    and "Method r = ''GET''" and "URLPath r = imds_prefix @ ID p"
    and "Header r ''X-Aws-Ec2-Metadata-Token'' = b64_encode (rnd e0)"
    and "clock e 0 < clock e0 0 + ttl * second"
  shows "fst (serve P e (run_http P es (snd (serve P e0 h r0))) r) =
    jsonReply 200 (JObj [(''Code'', JStr ''Success''), (''Type'', JStr ''AWS-HMAC''),
      (''AccessKeyId'', JStr (AWSAccessKey p)), (''SecretAccessKey'', JStr (AWSSecretKey p)),
      (''Token'', JStr (AWSSessionToken p)), (''Expiration'', aws_expiration (clock e 1))])"
proof -
  let ?h1 = "snd (serve P e0 h r0)" and ?t = "b64_encode (rnd e0)"
  have "imds_events [(e0, r0)] = [(lag e0, clock e0 0, ?t, clock e0 0 + ttl * second)]"
    using assms(4) by (simp add: imds_events_def issues_imds_def)
  then have "imdsv2.live (imds ?h1) ?t (clock e 0)"
    using imdsv2.live_store [OF assms(9)] by (simp add: imds_serve)
  then have "imdsv2.live (imdsv2.store_all (imds_events es) (imds ?h1)) ?t (clock e 0)"
  proof (rule imdsv2.store_all_live)
    show "\<forall>(sn, now, u, i)\<in>set (imds_events es). u \<noteq> ?t \<and> now \<le> clock e 0"
      using assms(5) by (fastforce simp: imds_events_def dest: b64_encode_inj split: option.splits if_splits)
  qed
  then obtain expiry where "imds (run_http P es ?h1) ?t = Some expiry" "clock e 0 < expiry"
    by (auto simp: imdsv2.live_def imds_run)
  moreover have "principal (svc (run_http P es ?h1)) (ID p) = Some p"
    using principal_ID [OF valid_IDs [OF assms(1)] assms(2)]
      principal_config [of "svc (run_http P es ?h1)" "svc h"] by simp
  ultimately show ?thesis
    using valid_ID [OF assms(1,2)] assms(3,6-8) by (intro imds_answer) simp_all
qed

text \<open>
  C14: A session lasts. Once a PUT has handed out an IMDSv2 token, every role with an access key can
  be read with it until its lifetime ends, through any later requests of other clients (the clock
  does not run backwards between them, and their random bytes differ).
\<close>

theorem imds_token_serves:
  assumes "Validate_Config ul c = Inr (SConfig (svc h))"
    and "p \<in> set (Principals (SConfig (svc h)))" and "AWSAccessKey p \<noteq> []"
    and "issues_imds e0 r0 ttl"
    and "\<forall>(e', r')\<in>set es. rnd e' \<noteq> rnd e0 \<and> clock e' 0 \<le> clock e 0"
    and "Method r = ''GET''" and "URLPath r = imds_prefix @ ID p"
    and "Header r ''X-Aws-Ec2-Metadata-Token'' = b64_encode (rnd e0)"
    and "clock e 0 < clock e0 0 + ttl * second"
  shows "fst (serve P e (run_http P es (snd (serve P e0 h r0))) r) =
    jsonReply 200 (JObj [(''Code'', JStr ''Success''), (''Type'', JStr ''AWS-HMAC''),
      (''AccessKeyId'', JStr (AWSAccessKey p)), (''SecretAccessKey'', JStr (AWSSecretKey p)),
      (''Token'', JStr (AWSSessionToken p)), (''Expiration'', aws_expiration (clock e 1))])"
  by (rule imds_session [OF assms])

section \<open>Where secrets leave\<close>

fun has_key :: "string \<Rightarrow> json \<Rightarrow> bool" where
  "has_key k (JObj kvs) \<longleftrightarrow> list_ex (\<lambda>(k', v). k' = k \<or> has_key k v) kvs"
| "has_key k (JArr xs) \<longleftrightarrow> list_ex (has_key k) xs"
| "has_key k (JStr s) \<longleftrightarrow> False"
| "has_key k (JInt i) \<longleftrightarrow> False"
| "has_key k JNull \<longleftrightarrow> False"

definition discloses :: "response \<Rightarrow> bool" where
  "discloses r \<longleftrightarrow> (case Body r of Text s \<Rightarrow> False | Json j \<Rightarrow> has_key ''SecretAccessKey'' j)"

definition silent :: "response \<Rightarrow> bool" where
  "silent r \<longleftrightarrow> \<not> discloses r"

lemma silent_simps [simp]:
  "silent (http_Error m c)" "silent NotFound" "silent (Write b)"
  "silent (with_header k v r) \<longleftrightarrow> silent r"
  "silent (jsonReply c j) \<longleftrightarrow> \<not> has_key ''SecretAccessKey'' j"
  by (simp_all add: silent_def discloses_def http_Error_def NotFound_def Write_def with_header_def jsonReply_def)

lemma branch_result: "(\<And>e. x = Inl e \<Longrightarrow> Q (f e)) \<Longrightarrow> (\<And>y. x = Inr y \<Longrightarrow> Q (g y)) \<Longrightarrow>
    Q (case x of Inl e \<Rightarrow> f e | Inr y \<Rightarrow> g y)"
  by (cases x) simp_all

definition silent_fst :: "response \<times> mockHTTP \<Rightarrow> bool" where
  "silent_fst x \<longleftrightarrow> silent (fst x)"

lemma silent_fst_simps [simp]: "silent_fst (r, h) \<longleftrightarrow> silent r"
  by (simp add: silent_fst_def)

lemma silent_fst_prod: "(\<And>a b c. silent_fst (f a b c)) \<Longrightarrow> silent_fst (case x of (a, b, c) \<Rightarrow> f a b c)"
  by (simp split: prod.split)

lemmas silent_branches =
  branch_if [where Q = silent] branch_option [where Q = silent] branch_result [where Q = silent]
  branch_if [where Q = silent_fst] branch_option [where Q = silent_fst] silent_fst_prod

lemma azure_pick_silent: "azure_pick cid p ps = Inl err \<Longrightarrow> silent err"
  by (induction cid p ps rule: azure_pick.induct) (auto split: if_splits)

lemma silent_ecs_json [simp]:
  "\<not> has_key ''SecretAccessKey'' (ecs_container p)" "\<not> has_key ''SecretAccessKey'' (ecs_stats now)"
  "\<not> has_key ''SecretAccessKey'' (ecs_task p b)" "\<not> has_key ''SecretAccessKey'' (AzureJWK s)"
  by (simp_all add: ecs_container_def ecs_stats_def ecs_task_def AzureJWK_def)

lemma silent_handlers:
  "silent (fst (awsIMDSToken e h r))" "silent (awsECSMetadata e h r)"
  "silent (fst (googleMetadata e h r))" "silent (fst (googleOAuth e h r))"
  "silent (azureIMDS P e h r)" "silent (azureOAuth P e h r)" "silent (azureDiscovery h r)"
proof -
  show "silent (fst (awsIMDSToken e h r))"
    unfolding silent_fst_def [symmetric] awsIMDSToken_def Let_def by (intro silent_branches) simp_all
  show "silent (fst (googleMetadata e h r))"
    unfolding silent_fst_def [symmetric] googleMetadata_def Let_def by (intro silent_branches) simp_all
  show "silent (fst (googleOAuth e h r))"
    unfolding silent_fst_def [symmetric] googleOAuth_def Let_def by (intro silent_branches) simp_all
  show "silent (awsECSMetadata e h r)"
    unfolding awsECSMetadata_def Let_def by (intro silent_branches) simp_all
  show "silent (azureIMDS P e h r)"
    unfolding azureIMDS_def Let_def by (intro silent_branches) (simp_all add: azure_pick_silent)
  show "silent (azureOAuth P e h r)"
    unfolding azureOAuth_def Let_def by (intro silent_branches) simp_all
  show "silent (azureDiscovery h r)"
    unfolding azureDiscovery_def Let_def by (intro silent_branches) simp_all
qed

lemma HasPrefix_TrimPrefix: "HasPrefix s p \<Longrightarrow> s = p @ TrimPrefix s p"
  by (auto simp: HasPrefix_iff)

lemma imds_discloses:
  assumes "\<not> silent (awsIMDSCredentials e h r)" "HasPrefix (URLPath r) imds_prefix"
  shows "\<exists>p\<in>set (Principals (SConfig (svc h))). URLPath r = imds_prefix @ ID p \<and> Method r = ''GET'' \<and>
    (\<exists>expiry. imds h (Header r ''X-Aws-Ec2-Metadata-Token'') = Some expiry \<and> clock e 0 < expiry) \<and>
    map_of (case Body (awsIMDSCredentials e h r) of Json (JObj m) \<Rightarrow> m | _ \<Rightarrow> []) ''SecretAccessKey'' =
      Some (JStr (AWSSecretKey p))"
proof -
  have get: "Method r = ''GET''" using assms(1) by (cases "Method r = ''GET''") (simp_all add: awsIMDSCredentials_def)
  obtain expiry where x: "imds h (Header r ''X-Aws-Ec2-Metadata-Token'') = Some expiry" "clock e 0 < expiry"
    using assms(1) get
    by (cases "imds h (Header r ''X-Aws-Ec2-Metadata-Token'')")
      (simp_all add: awsIMDSCredentials_def split: if_split_asm)
  let ?role = "TrimPrefix (URLPath r) imds_prefix"
  have role: "URLPath r = imds_prefix @ ?role" using assms(2) by (rule HasPrefix_TrimPrefix)
  from assms(1) get x obtain p where p: "principal (svc h) ?role = Some p" "AWSAccessKey p \<noteq> []" "?role \<noteq> []"
    by (cases "principal (svc h) ?role") (simp_all add: awsIMDSCredentials_def Let_def split: if_split_asm)
  then have "map_of (case Body (awsIMDSCredentials e h r) of Json (JObj m) \<Rightarrow> m | _ \<Rightarrow> []) ''SecretAccessKey'' =
      Some (JStr (AWSSecretKey p))"
    using get x by (simp add: awsIMDSCredentials_def Let_def jsonReply_def)
  then show ?thesis using p role principal_SomeD [OF p(1)] get x by (intro bexI [of _ p]) auto
qed

lemma ecs_discloses:
  assumes "\<not> silent (awsECSCredentials e h r)" "HasPrefix (URLPath r) ''/v2/credentials/''"
  shows "\<exists>p\<in>set (Principals (SConfig (svc h))). URLPath r = ''/v2/credentials/'' @ ID p \<and> Method r = ''GET'' \<and>
    (ECSAuthorizationToken p = [] \<or> Header r ''Authorization'' = ECSAuthorizationToken p) \<and>
    map_of (case Body (awsECSCredentials e h r) of Json (JObj m) \<Rightarrow> m | _ \<Rightarrow> []) ''SecretAccessKey'' =
      Some (JStr (AWSSecretKey p))"
proof -
  have get: "Method r = ''GET''" using assms(1) by (cases "Method r = ''GET''") (simp_all add: awsECSCredentials_def)
  let ?pid = "TrimPrefix (URLPath r) ''/v2/credentials/''"
  have path: "URLPath r = ''/v2/credentials/'' @ ?pid" using assms(2) by (rule HasPrefix_TrimPrefix)
  from assms(1) get obtain p where p: "principal (svc h) ?pid = Some p" "AWSAccessKey p \<noteq> []"
    "\<not> (?pid = [] \<or> Contains ?pid ''/'')"
    "\<not> (ECSAuthorizationToken p \<noteq> [] \<and> \<not> checkSecret (ECSAuthorizationToken p) (Header r ''Authorization''))"
    by (cases "principal (svc h) ?pid") (simp_all add: awsECSCredentials_def Let_def split: if_split_asm)
  then have "map_of (case Body (awsECSCredentials e h r) of Json (JObj m) \<Rightarrow> m | _ \<Rightarrow> []) ''SecretAccessKey'' =
      Some (JStr (AWSSecretKey p))"
    unfolding awsECSCredentials_def Let_def by (auto simp: get jsonReply_def)
  then show ?thesis using p path principal_SomeD [OF p(1)] get by (intro bexI [of _ p]) auto
qed

text \<open>
  C15: An AWS secret key leaves the process through two doors only. If the answer to a request
  contains a \<^verbatim>\<open>SecretAccessKey\<close> anywhere in its JSON, it is the key of one configured principal named
  by the path, and the request is either an IMDS GET with an unexpired session token or an ECS GET
  that carries the principal's authorization token if one is configured; for a principal without
  one the ECS endpoint asks for no token.
\<close>

theorem aws_secret_disclosure:
  assumes "discloses (fst (serve P e h r))"
  shows "\<exists>p\<in>set (Principals (SConfig (svc h))). Method r = ''GET'' \<and>
    map_of (case Body (fst (serve P e h r)) of Json (JObj m) \<Rightarrow> m | _ \<Rightarrow> []) ''SecretAccessKey'' =
      Some (JStr (AWSSecretKey p)) \<and>
    (URLPath r = imds_prefix @ ID p \<and>
       (\<exists>expiry. imds h (Header r ''X-Aws-Ec2-Metadata-Token'') = Some expiry \<and> clock e 0 < expiry) \<or>
     URLPath r = ''/v2/credentials/'' @ ID p \<and>
       (ECSAuthorizationToken p = [] \<or> Header r ''Authorization'' = ECSAuthorizationToken p))"
proof -
  have loud: "\<not> silent (fst (serve P e h r))" using assms by (simp add: silent_def)
  show ?thesis
  proof (cases "route_of (URLPath r)")
    case IMDSCredentials
    then have "HasPrefix (URLPath r) imds_prefix" by (simp add: route_of_def split: if_split_asm)
    moreover have serve: "fst (serve P e h r) = awsIMDSCredentials e h r"
      using IMDSCredentials by (simp add: serve_def)
    ultimately show ?thesis
      using imds_discloses [of e h r] loud unfolding serve by blast
  next
    case ECSCredentials
    then have "HasPrefix (URLPath r) ''/v2/credentials/''" by (simp add: route_of_def split: if_split_asm)
    moreover have serve: "fst (serve P e h r) = awsECSCredentials e h r"
      using ECSCredentials by (simp add: serve_def)
    ultimately show ?thesis
      using ecs_discloses [of e h r] loud unfolding serve by blast
  qed (use loud silent_handlers in \<open>simp_all add: serve_def\<close>)
qed

end
