(* ===== verification/HttpTokens.thy ===== *)
theory HttpTokens
  imports HttpSafety
begin

text \<open>
  From a credential to a database login: the tokens that the OAuth and metadata handlers of \<open>Http\<close>
  hand out, composed with the validators of \<open>Identity\<close>.
\<close>

section \<open>Google\<close>

lemma allowed_scope_ok: "allowed_scope scope \<Longrightarrow> google_scope_ok scope"
proof -
  assume "allowed_scope scope"
  then consider "scope = googleSQLScope" | "scope = ''https://www.googleapis.com/auth/cloud-platform''"
    by (auto simp only: allowed_scope_def)
  then show ?thesis
  proof cases
    case 2
    have "Contains s s" for s by (metis Contains_iff append_Nil append_Nil2)
    from this [of "'' '' @ scope @ '' ''"] show ?thesis unfolding google_scope_ok_def 2 by simp
  qed (simp add: sql_scope_ok)
qed

definition token_reply :: "response \<Rightarrow> string \<Rightarrow> bool" where
  "token_reply resp token \<longleftrightarrow>
     (\<exists>m. Body resp = Json (JObj m) \<and> map_of m ''access_token'' = Some (JStr token))"

lemma token_reply_simps [simp]:
  "\<not> token_reply (http_Error msg code) token" "\<not> token_reply NotFound token" "\<not> token_reply (Write b) token"
  "token_reply (with_header k v r) token \<longleftrightarrow> token_reply r token"
  "token_reply (jsonReply c (JObj m)) token \<longleftrightarrow> map_of m ''access_token'' = Some (JStr token)"
  by (simp_all add: token_reply_def http_Error_def NotFound_def Write_def with_header_def jsonReply_def)

lemma find_SomeD: "find Q xs = Some x \<Longrightarrow> x \<in> set xs \<and> Q x"
  by (auto simp: find_Some_iff)

lemma case_googleIssue:
  "(case googleIssue s p scope b now of (s', token, n) \<Rightarrow> f s' token n) =
     f (fst (googleIssue s p scope b now)) (google_token_string b) 3600"
  by (subst googleIssue_split) simp

lemma googleOAuth_token:
  assumes "token_reply (fst (googleOAuth e h r)) token"
  shows "\<exists>form p scope. Method r = ''POST'' \<and> Form r = Some form \<and>
    Get form ''grant_type'' = ''refresh_token'' \<and> p \<in> set (Principals (SConfig (svc h))) \<and>
    GoogleRefreshToken p \<noteq> [] \<and> Get form ''refresh_token'' = GoogleRefreshToken p \<and>
    allowed_scope scope \<and> token = google_token_string (rnd e) \<and>
    svc (snd (googleOAuth e h r)) = fst (googleIssue (svc h) p scope (rnd e) (clock e 0))"
proof -
  have post: "Method r = ''POST''"
    using assms by (cases "Method r = ''POST''") (simp_all add: googleOAuth_def)
  obtain form where form: "Form r = Some form"
    using assms post by (cases "Form r") (simp_all add: googleOAuth_def)
  have grant: "Get form ''grant_type'' = ''refresh_token''"
    using assms post form by (cases "Get form ''grant_type'' = ''refresh_token''") (simp_all add: googleOAuth_def)
  define Q where "Q = (\<lambda>p :: Principal. GoogleRefreshToken p \<noteq> [] \<and>
    GoogleRefreshToken p = Get form ''refresh_token'')"
  obtain p where p: "find Q (Principals (SConfig (svc h))) = Some p"
    using assms post form grant
    by (cases "find Q (Principals (SConfig (svc h)))") (simp_all add: googleOAuth_def Q_def [symmetric])
  define scope where "scope = default_scope (Get form ''scope'')"
  have out: "googleOAuth e h r =
      (if \<not> allowed_scope scope then (http_Error ''invalid scope'' 400, h)
       else (jsonReply 200 (JObj [(''access_token'', JStr (google_token_string (rnd e))), (''expires_in'', JInt 3600),
         (''token_type'', JStr ''Bearer''), (''scope'', JStr scope)]),
         h\<lparr>svc := fst (googleIssue (svc h) p scope (rnd e) (clock e 0))\<rparr>))"
    using post form grant p
    by (simp add: googleOAuth_def Q_def [symmetric] scope_def [symmetric] case_googleIssue)
  have "allowed_scope scope" using assms unfolding out by (simp split: if_split_asm)
  moreover have "token = google_token_string (rnd e)" using assms unfolding out by (simp split: if_split_asm)
  ultimately show ?thesis
    using post form grant find_SomeD [OF p] unfolding out Q_def by auto
qed

text \<open>
  C16: A refresh token buys logins for its owner only. When the OAuth endpoint answers with an
  access token, the caller presented the non-empty refresh token of a configured principal, and the
  access token authenticates that principal, under its normalised email, for exactly one hour from
  the issue, whatever is issued afterwards.
\<close>

theorem googleOAuth_login:
  assumes "Validate_Config ul c = Inr (SConfig (svc h))"
    and "token_reply (fst (googleOAuth e h r)) token"
  shows "\<exists>form p. Form r = Some form \<and> p \<in> set (Principals (SConfig (svc h))) \<and>
    GoogleRefreshToken p \<noteq> [] \<and> Get form ''refresh_token'' = GoogleRefreshToken p \<and>
    (\<forall>es l username now. (\<forall>(q, sc, b, t)\<in>set es. b \<noteq> rnd e) \<longrightarrow>
       (validateGoogle P (issue_all es (svc (snd (googleOAuth e h r)))) l username token now = Inr p \<longleftrightarrow>
        now < clock e 0 + hour \<and> Email p \<noteq> [] \<and>
        username = googleUsername (unicode_lower P) (Email p) (Engine l)))"
proof -
  obtain form p scope where *: "Form r = Some form" "p \<in> set (Principals (SConfig (svc h)))"
    "GoogleRefreshToken p \<noteq> []" "Get form ''refresh_token'' = GoogleRefreshToken p" "allowed_scope scope"
    "token = google_token_string (rnd e)"
    "svc (snd (googleOAuth e h r)) = fst (googleIssue (svc h) p scope (rnd e) (clock e 0))"
    using googleOAuth_token [OF assms(2)] by blast
  from allowed_scope_ok [OF *(5)] google_login [OF valid_IDs [OF assms(1)] *(2)] *
  show ?thesis by (intro exI [of _ form] exI [of _ p]) simp
qed

section \<open>Azure\<close>

lemma azure_pick_given:
  "azure_pick cid p ps = Inr (Some q) \<Longrightarrow> cid \<noteq> [] \<Longrightarrow>
     p = Some q \<or> q \<in> set ps \<and> AzureClientID q = cid"
  by (induction cid p ps rule: azure_pick.induct) (auto split: if_splits)

lemma azure_pick_default:
  "azure_pick [] p ps = Inr r \<longleftrightarrow>
     (let cs = filter (\<lambda>c. AzureClientID c \<noteq> []) ps in
      case p of None \<Rightarrow> (case cs of [] \<Rightarrow> r = None | c # cs' \<Rightarrow> cs' = [] \<and> r = Some c)
      | Some q \<Rightarrow> cs = [] \<and> r = Some q)"
  by (induction "[] :: string" p ps rule: azure_pick.induct) (auto simp: Let_def split: option.splits list.splits)

lemma azure_pick_Some:
  assumes "azure_pick cid None ps = Inr (Some p)"
  shows "p \<in> set ps \<and> (if cid = [] then filter (\<lambda>c. AzureClientID c \<noteq> []) ps = [p] else AzureClientID p = cid)"
proof (cases "cid = []")
  case True
  then have "filter (\<lambda>c. AzureClientID c \<noteq> []) ps = [p]"
    using assms azure_pick_default [of None ps "Some p"] by (auto simp: Let_def split: list.splits)
  then have "p \<in> set ps" by (metis filter_is_subset list.set_intros(1) subset_iff)
  with \<open>filter _ _ = _\<close> True show ?thesis by simp
next
  case False
  with azure_pick_given [OF assms False] show ?thesis by simp
qed

lemma azureIMDS_token:
  assumes "token_reply (azureIMDS P e h r) token"
  shows "\<exists>p. Header r ''Metadata'' = ''true'' \<and>
    azure_pick (Get (Query r) ''client_id'') None (Principals (SConfig (svc h))) = Inr (Some p) \<and>
    azureTenantFor h p \<noteq> [] \<and>
    azureIssueForAudience P (svc h) p (azureTenantFor h p) (Get (Query r) ''resource'') hour (clock e 0) = Inr token"
proof -
  define resource where "resource = Get (Query r) ''resource''"
  have md: "Header r ''Metadata'' = ''true''"
    using assms by (cases "Header r ''Metadata'' = ''true''") (simp_all add: azureIMDS_def)
  have res: "\<not> (resource \<noteq> azureAudience \<and> resource \<notin> set management_resources)"
    using assms md unfolding azureIMDS_def Let_def resource_def [symmetric]
    by (cases "resource \<noteq> azureAudience \<and> resource \<notin> set management_resources") simp_all
  have out: "azureIMDS P e h r = (case azure_pick (Get (Query r) ''client_id'') None (Principals (SConfig (svc h))) of
        Inl err \<Rightarrow> err
      | Inr None \<Rightarrow> http_Error ''identity not found'' 404
      | Inr (Some p) \<Rightarrow>
          if azureTenantFor h p = [] then http_Error ''tenant not found'' 400
          else case azureIssueForAudience P (svc h) p (azureTenantFor h p) resource hour (clock e 0) of
            Inl _ \<Rightarrow> http_Error ''signing failed'' 500
          | Inr token \<Rightarrow>
              jsonReply 200 (JObj [(''access_token'', JStr token), (''client_id'', JStr (AzureClientID p)),
                (''expires_in'', JStr ''3600''), (''expires_on'', JStr (int_string (Unix (clock e 1 + hour)))),
                (''not_before'', JStr (int_string (Unix (clock e 2)))), (''resource'', JStr resource),
                (''token_type'', JStr ''Bearer'')]))"
    unfolding azureIMDS_def Let_def resource_def [symmetric] if_not_P [OF res] using md by simp
  have err: "azure_pick cid q ps = Inl x \<Longrightarrow> \<not> token_reply x token" for cid q ps x
    by (induction cid q ps rule: azure_pick.induct) (auto split: if_splits)
  show ?thesis
  proof (cases "azure_pick (Get (Query r) ''client_id'') None (Principals (SConfig (svc h)))")
    case (Inl x)
    with assms err [OF Inl] show ?thesis unfolding out by simp
  next
    case (Inr po)
    then obtain p where p: "po = Some p" using assms unfolding out by (cases po) simp_all
    with Inr assms md show ?thesis
      unfolding out resource_def
      by (cases "azureIssueForAudience P (svc h) p (azureTenantFor h p) (Get (Query r) ''resource'') hour (clock e 0)")
        (simp_all split: if_split_asm)
  qed
qed

text \<open>
  C17: What the managed-identity endpoint hands out. Its token speaks for the principal that the
  client id names or, without one, for the only principal that has a client id; it logs that
  principal in at its tenant's listeners for an hour when the database resource was asked for, and
  nobody anywhere when a management resource was.
\<close>

theorem azureIMDS_login:
  assumes "Validate_Config ul c = Inr (SConfig (svc h))"
    and "token_reply (azureIMDS P e h r) token"
    and "\<forall>p\<in>set (Principals (SConfig (svc h))).
      json_reads_back P (svc h) p (azureTenantFor h p) (Get (Query r) ''resource'') hour (clock e 0)"
    and "\<forall>d sig. rsa_sign P (azureKey (svc h)) d = Inr sig \<longrightarrow> rsa_verify P (azureKey (svc h)) d sig"
  shows "\<exists>p\<in>set (Principals (SConfig (svc h))).
    (if Get (Query r) ''client_id'' = [] then
       filter (\<lambda>c. AzureClientID c \<noteq> []) (Principals (SConfig (svc h))) = [p]
     else AzureClientID p = Get (Query r) ''client_id'') \<and>
    (\<forall>l username now1 now2 q. validateAzure P (svc h) l username token now1 now2 = Inr q \<longleftrightarrow>
       q = p \<and> Get (Query r) ''resource'' = azureAudience \<and> azureTenantFor h p = Tenant l \<and>
       Unix (clock e 0) \<le> Unix now1 \<and> Unix now2 < Unix (clock e 0 + hour) \<and>
       (username = Email p \<or> username \<in> set (Groups p)))"
proof -
  obtain p where p: "azure_pick (Get (Query r) ''client_id'') None (Principals (SConfig (svc h))) = Inr (Some p)"
    "azureIssueForAudience P (svc h) p (azureTenantFor h p) (Get (Query r) ''resource'') hour (clock e 0) = Inr token"
    using azureIMDS_token [OF assms(2)] by blast
  have life: "(if hour \<le> 0 then hour else hour) = hour" by simp
  note pick = azure_pick_Some [OF p(1)]
  note iff = azure_token_iff [OF assms(1) conjunct1 [OF pick] p(2) _ assms(4), unfolded life,
      OF bspec [OF assms(3) conjunct1 [OF pick]]]
  show ?thesis using pick iff by (intro bexI [of _ p] conjI allI) auto
qed

section \<open>Examples\<close>

definition fixture_env :: "bytes \<Rightarrow> time \<Rightarrow> env" where
  "fixture_env b now = \<lparr>rnd = b, rand_ok = True, clock = (\<lambda>_. now), lag = (\<lambda>_. 0)\<rparr>"

definition fixture_request :: request where
  "fixture_request = \<lparr>Method = ''GET'', URLPath = [], Query = [], Header = (\<lambda>_. []), Form = None,
     OverTLS = False, RequestHost = []\<rparr>"

definition fixture_put :: request where
  "fixture_put = fixture_request\<lparr>Method := ''PUT'', URLPath := ''/latest/api/token'',
     Header := (\<lambda>_. []) (''X-Aws-Ec2-Metadata-Token-Ttl-Seconds'' := ''21600'')\<rparr>"

definition fixture_get :: request where
  "fixture_get = fixture_request\<lparr>URLPath := imds_prefix @ ''alice'',
     Header := (\<lambda>_. []) (''X-Aws-Ec2-Metadata-Token'' := b64_encode [7])\<rparr>"

definition fixture_oauth :: request where
  "fixture_oauth = fixture_request\<lparr>Method := ''POST'', URLPath := ''/token'',
     Form := Some [(''grant_type'', ''refresh_token''), (''refresh_token'', ''refresh'')]\<rparr>"

definition fixture_msi :: request where
  "fixture_msi = fixture_request\<lparr>URLPath := ''/metadata/identity/oauth2/token'',
     Query := [(''resource'', azureAudience)], Header := (\<lambda>_. []) (''Metadata'' := ''true'')\<rparr>"

abbreviation fixture_http :: mockHTTP where
  "fixture_http \<equiv> HTTPHandler fixture_service"

lemma fixture_http_config: "Validate_Config (\<lambda>s. s) fixture_config = Inr (SConfig (svc fixture_http))"
  by (simp add: HTTPHandler_def fixture_rds_config)

lemma fixture_http_alice: "fixture_alice \<in> set (Principals (SConfig (svc fixture_http)))"
  by (simp add: HTTPHandler_def fixture_rds)

lemma fixture_issues: "issues_imds (fixture_env b now) fixture_put 21600"
proof -
  have "Atoi ''21600'' = Inr 21600"
    by (simp add: Atoi_def HasPrefix_def is_digit_def dec_val_def digit_val_def)
  then show ?thesis
    by (simp add: issues_imds_def fixture_put_def fixture_request_def imds_ttl_def fixture_env_def)
qed

lemma fixture_get_simps:
  "Method fixture_get = ''GET''" "URLPath fixture_get = imds_prefix @ ID fixture_alice"
  "Header fixture_get ''X-Aws-Ec2-Metadata-Token'' = b64_encode (rnd (fixture_env [7] 0))"
  by (simp_all add: fixture_get_def fixture_request_def fixture_fields fixture_env_def)

lemma fixture_imds_time: "clock (fixture_env [] minute) 0 < clock (fixture_env [7] 0) 0 + 21600 * second"
  by (simp add: fixture_env_def minute_def second_def)

lemma fixture_later:
  "\<forall>(e', r')\<in>set [(fixture_env [8] 5, fixture_put)]. rnd e' \<noteq> rnd (fixture_env [7] 0) \<and>
     clock e' 0 \<le> clock (fixture_env [] minute) 0"
  by (simp add: fixture_env_def minute_def second_def)

theorem imds_token_serves_witness:
  "Status (fst (serve fixture_platform (fixture_env [] minute)
     (run_http fixture_platform [(fixture_env [8] 5, fixture_put)]
       (snd (serve fixture_platform (fixture_env [7] 0) fixture_http fixture_put))) fixture_get)) = 200"
  using imds_token_serves [OF fixture_http_config fixture_http_alice fixture_rds(3) fixture_issues fixture_later
      fixture_get_simps fixture_imds_time, of fixture_platform]
  by (simp add: jsonReply_def)

lemma fixture_session:
  "fst (serve fixture_platform (fixture_env [] minute)
     (run_http fixture_platform [(fixture_env [7] 0, fixture_put)] fixture_http) fixture_get) =
   jsonReply 200 (JObj [(''Code'', JStr ''Success''), (''Type'', JStr ''AWS-HMAC''),
      (''AccessKeyId'', JStr (AWSAccessKey fixture_alice)), (''SecretAccessKey'', JStr (AWSSecretKey fixture_alice)),
      (''Token'', JStr (AWSSessionToken fixture_alice)), (''Expiration'', aws_expiration (clock (fixture_env [] minute) 1))])"
  using imds_session [OF fixture_http_config fixture_http_alice fixture_rds(3) fixture_issues _
      fixture_get_simps fixture_imds_time, of "[]" fixture_platform]
  by simp

theorem imds_credentials_need_token_witness:
  "\<exists>(e', r')\<in>set [(fixture_env [7] 0, fixture_put)]. \<exists>ttl. issues_imds e' r' ttl \<and>
     Header fixture_get ''X-Aws-Ec2-Metadata-Token'' = b64_encode (rnd e')"
proof -
  have "HasPrefix (URLPath fixture_get) imds_prefix" by (simp add: fixture_get_simps)
  moreover have "Status (fst (serve fixture_platform (fixture_env [] minute)
      (run_http fixture_platform [(fixture_env [7] 0, fixture_put)] fixture_http) fixture_get)) = 200"
    unfolding fixture_session by (simp add: jsonReply_def)
  ultimately show ?thesis using imds_credentials_need_token by fast
qed

theorem aws_secret_disclosure_witness:
  "URLPath fixture_get = imds_prefix @ ID fixture_alice \<and> Method fixture_get = ''GET'' \<and>
   discloses (fst (serve fixture_platform (fixture_env [] minute)
     (run_http fixture_platform [(fixture_env [7] 0, fixture_put)] fixture_http) fixture_get))"
proof -
  have "discloses (fst (serve fixture_platform (fixture_env [] minute)
     (run_http fixture_platform [(fixture_env [7] 0, fixture_put)] fixture_http) fixture_get))"
    unfolding fixture_session by (simp add: discloses_def jsonReply_def)
  with aws_secret_disclosure [OF this] show ?thesis by (simp add: fixture_get_simps)
qed

lemma fixture_oauth_token:
  "token_reply (fst (googleOAuth (fixture_env [1] 0) fixture_http fixture_oauth)) (google_token_string [1])"
proof -
  have form: "Method fixture_oauth = ''POST''" "Form fixture_oauth =
      Some [(''grant_type'', ''refresh_token''), (''refresh_token'', ''refresh'')]"
    by (simp_all add: fixture_oauth_def fixture_request_def)
  have find: "find (\<lambda>p. GoogleRefreshToken p \<noteq> [] \<and> GoogleRefreshToken p = ''refresh'')
      (Principals (SConfig (svc fixture_http))) = Some fixture_alice"
    by (simp add: HTTPHandler_def fixture_service_def fixture_config_def fixture_alice_def)
  have "allowed_scope (default_scope [])" by (simp add: allowed_scope_def default_scope_def)
  with form find show ?thesis
    by (simp add: googleOAuth_def Get_def values_of_def case_googleIssue fixture_env_def Let_def)
qed

theorem googleOAuth_login_witness:
  "\<exists>p\<in>set (Principals (SConfig (svc fixture_http))). GoogleRefreshToken p = ''refresh'' \<and>
     (\<forall>now. validateGoogle fixture_platform (svc (snd (googleOAuth (fixture_env [1] 0) fixture_http fixture_oauth)))
       fixture_google (googleUsername (\<lambda>s. s) (Email p) (Engine fixture_google)) (google_token_string [1]) now = Inr p \<longleftrightarrow>
       now < hour \<and> Email p \<noteq> [])"
proof -
  obtain form p where *: "Form fixture_oauth = Some form" "p \<in> set (Principals (SConfig (svc fixture_http)))"
    "Get form ''refresh_token'' = GoogleRefreshToken p"
    "\<forall>es l username now. (\<forall>(q, sc, b, t)\<in>set es. b \<noteq> rnd (fixture_env [1] 0)) \<longrightarrow>
       (validateGoogle fixture_platform (issue_all es (svc (snd (googleOAuth (fixture_env [1] 0) fixture_http fixture_oauth)))) l username (google_token_string [1]) now = Inr p \<longleftrightarrow>
        now < clock (fixture_env [1] 0) 0 + hour \<and> Email p \<noteq> [] \<and>
        username = googleUsername (unicode_lower fixture_platform) (Email p) (Engine l))"
    using googleOAuth_login [OF fixture_http_config fixture_oauth_token, of fixture_platform] by blast
  have "GoogleRefreshToken p = ''refresh''"
    using *(1,3) by (auto simp: fixture_oauth_def fixture_request_def Get_def values_of_def)
  with *(2) *(4) [rule_format, of "[]"] show ?thesis
    by (intro bexI [of _ p]) (simp_all add: fixture_env_def fixture_platform_def)
qed

theorem http_reachable_registry_witness:
  "\<exists>i. googleTokens (svc (snd (serve fixture_platform (fixture_env [1] 0) fixture_http fixture_oauth)))
      (google_token_string [1]) = Some i \<and> allowed_scope (Scope i)"
proof -
  let ?h = "snd (serve fixture_platform (fixture_env [1] 0) fixture_http fixture_oauth)"
  have "http_reachable fixture_platform fixture_service ?h"
    by (intro http_reachable.intros)
  moreover have empty: "googleTokens fixture_service = Map.empty" by (simp add: fixture_service_def)
  ultimately have inv: "\<forall>t i. googleTokens (svc ?h) t = Some i \<longrightarrow> allowed_scope (Scope i)"
    using http_reachable_registry by blast
  have "serve fixture_platform (fixture_env [1] 0) fixture_http fixture_oauth =
      googleOAuth (fixture_env [1] 0) fixture_http fixture_oauth"
    by (simp add: serve_def route_of_def fixture_oauth_def imds_prefix_def HasPrefix_def)
  with googleOAuth_token [OF fixture_oauth_token] have "\<exists>i. googleTokens (svc ?h) (google_token_string [1]) = Some i"
    by (auto simp: googleIssue_def Let_def fixture_env_def)
  with inv show ?thesis by blast
qed

theorem azureIMDS_login_witness:
  "\<exists>token. token_reply (azureIMDS fixture_platform (fixture_env [] fixture_now) fixture_http fixture_msi) token \<and>
     validateAzure fixture_platform fixture_service fixture_azure ''alice@example.com'' token fixture_now fixture_now =
       Inr fixture_alice"
proof -
  let ?h = fixture_http
  have tenant: "azureTenantFor ?h p = ''tenant-1''" if "p = fixture_alice \<or> p = fixture_bob" for p
    using that by (auto simp: azureTenantFor_def HTTPHandler_def fixture_service_def fixture_config_def
        fixture_aws_def fixture_google_def fixture_azure_def fixture_alice_def fixture_bob_def)
  have ps: "Principals (SConfig (svc ?h)) = [fixture_alice, fixture_bob]"
    by (simp add: HTTPHandler_def fixture_service_def fixture_config_def)
  have req: "Header fixture_msi ''Metadata'' = ''true''" "Get (Query fixture_msi) ''resource'' = azureAudience"
    "Get (Query fixture_msi) ''client_id'' = []"
    by (simp_all add: fixture_msi_def fixture_request_def Get_def values_of_def)
  have ids: "AzureClientID fixture_alice = ''client-1''" "AzureClientID fixture_bob = []"
    by (simp_all add: fixture_alice_def fixture_bob_def)
  obtain token where t: "azureIssueForAudience fixture_platform fixture_service fixture_alice ''tenant-1'' azureAudience hour
      fixture_now = Inr token"
    by (simp add: azureIssueForAudience_def fixture_platform_def Let_def)
  then have reply: "token_reply (azureIMDS fixture_platform (fixture_env [] fixture_now) ?h fixture_msi) token"
    by (simp add: azureIMDS_def req ps ids tenant) (simp add: HTTPHandler_def fixture_env_def)
  have json: "\<forall>p\<in>set (Principals (SConfig (svc ?h))). json_reads_back fixture_platform (svc ?h) p
      (azureTenantFor ?h p) (Get (Query fixture_msi) ''resource'') hour (clock (fixture_env [] fixture_now) 0)"
  proof
    fix p assume "p \<in> set (Principals (SConfig (svc ?h)))"
    then have p: "p = fixture_alice \<or> p = fixture_bob" unfolding ps by simp
    show "json_reads_back fixture_platform (svc ?h) p (azureTenantFor ?h p) (Get (Query fixture_msi) ''resource'') hour
        (clock (fixture_env [] fixture_now) 0)"
      unfolding tenant [OF p] req using fixture_json [OF p] by (simp add: HTTPHandler_def fixture_env_def)
  qed
  obtain p where p: "filter (\<lambda>c. AzureClientID c \<noteq> []) (Principals (SConfig (svc ?h))) = [p]"
    "\<forall>l username now1 now2 q. validateAzure fixture_platform (svc ?h) l username token now1 now2 = Inr q \<longleftrightarrow>
       q = p \<and> azureTenantFor ?h p = Tenant l \<and> Unix fixture_now \<le> Unix now1 \<and>
       Unix now2 < Unix (fixture_now + hour) \<and> (username = Email p \<or> username \<in> set (Groups p))"
    using azureIMDS_login [OF fixture_http_config reply json fixture_rsa] unfolding req by (auto simp: fixture_env_def)
  from p(1) have "p = fixture_alice" by (simp add: ps ids)
  with p(2) reply tenant show ?thesis
    by (intro exI [of _ token]) (simp add: HTTPHandler_def fixture_fields Unix_def fixture_now_def hour_def second_def)
qed

end
