(* ===== verification/Wire.thy ===== *)
theory Wire
  imports Prelude
begin

text \<open>
  Connections as the protocol code sees them, and the interface of a framed stream. A connection is
  what it will still deliver and the error after that, what has been written to it, and how many
  more writes succeed. Reading and writing thread the connection explicitly. The locale \<open>framing\<close>
  is what a protocol promises of its frames; the MySQL and the PostgreSQL components interpret it.
\<close>

section \<open>Connections\<close>

record conn =
  Inp :: bytes
  Fin :: go_error
  Out :: bytes
  Budget :: nat

type_synonym 'a io = "conn \<Rightarrow> 'a result \<times> conn"

definition bindIO :: "'a io \<Rightarrow> ('a \<Rightarrow> 'b io) \<Rightarrow> 'b io" where
  "bindIO m f c = (case m c of (Inl e, c') \<Rightarrow> (Inl e, c') | (Inr x, c') \<Rightarrow> f x c')"

definition returnIO :: "'a \<Rightarrow> 'a io" where
  "returnIO x c = (Inr x, c)"

definition failIO :: "go_error \<Rightarrow> 'a io" where
  "failIO e c = (Inl e, c)"

definition liftIO :: "'a result \<Rightarrow> 'a io" where
  "liftIO r c = (r, c)"

text \<open>\<^verbatim>\<open>io.ReadFull\<close> into a buffer of \<open>n\<close> bytes.\<close>

definition ReadFull :: "nat \<Rightarrow> bytes io" where
  "ReadFull n c =
     (if n \<le> length (Inp c) then (Inr (take n (Inp c)), c\<lparr>Inp := drop n (Inp c)\<rparr>)
      else (Inl (if Inp c \<noteq> [] \<and> Fin c = EOF then UnexpectedEOF else Fin c), c\<lparr>Inp := []\<rparr>))"

text \<open>\<^verbatim>\<open>Conn.Write\<close>: all of the buffer or an error.\<close>

definition WriteConn :: "bytes \<Rightarrow> unit io" where
  "WriteConn b c =
     (if Budget c = 0 then (Inl ErrClosedPipe, c)
      else (Inr (), c\<lparr>Out := Out c @ b, Budget := Budget c - 1\<rparr>))"

lemma bindIO_Inr_iff [go_simps]:
  "bindIO m f c = (Inr y, c'') \<longleftrightarrow> (\<exists>x c'. m c = (Inr x, c') \<and> f x c' = (Inr y, c''))"
  by (auto simp: bindIO_def split: prod.split sum.split)

lemma bindIO_ok [simp]: "m c = (Inr x, c') \<Longrightarrow> bindIO m f c = f x c'"
  by (simp add: bindIO_def)

lemma bindIO_err [simp]: "m c = (Inl e, c') \<Longrightarrow> bindIO m f c = (Inl e, c')"
  by (simp add: bindIO_def)

lemma returnIO_simps [simp]: "returnIO x c = (Inr y, c') \<longleftrightarrow> x = y \<and> c = c'"
  by (auto simp: returnIO_def)

lemma failIO_simps [simp]: "failIO e c \<noteq> (Inr y, c')"
  by (simp add: failIO_def)

lemma liftIO_simps [simp]: "liftIO r c = (Inr y, c') \<longleftrightarrow> r = Inr y \<and> c = c'"
  by (auto simp: liftIO_def)

lemma ReadFull_append: "Inp c = a @ rest \<Longrightarrow> n = length a \<Longrightarrow> ReadFull n c = (Inr a, c\<lparr>Inp := rest\<rparr>)"
  by (simp add: ReadFull_def)

lemma ReadFull_Inr [go_simps]:
  "ReadFull n c = (Inr b, c') \<longleftrightarrow> length b = n \<and> Inp c = b @ Inp c' \<and> c' = c\<lparr>Inp := Inp c'\<rparr>"
proof
  assume "ReadFull n c = (Inr b, c')"
  then show "length b = n \<and> Inp c = b @ Inp c' \<and> c' = c\<lparr>Inp := Inp c'\<rparr>"
    by (auto simp: ReadFull_def split: if_splits)
next
  assume *: "length b = n \<and> Inp c = b @ Inp c' \<and> c' = c\<lparr>Inp := Inp c'\<rparr>"
  then have "ReadFull n c = (Inr b, c\<lparr>Inp := Inp c'\<rparr>)" by (intro ReadFull_append) simp_all
  with * show "ReadFull n c = (Inr b, c')" by simp
qed

lemma ReadFull_no_panic: "Fin c \<noteq> Panic \<Longrightarrow> fst (ReadFull n c) \<noteq> Inl Panic"
  by (simp add: ReadFull_def)

lemma ReadFull_frame: "Out (snd (ReadFull n c)) = Out c \<and> Budget (snd (ReadFull n c)) = Budget c \<and> Fin (snd (ReadFull n c)) = Fin c"
  by (simp add: ReadFull_def)

lemma WriteConn_ok: "Budget c > 0 \<Longrightarrow> WriteConn b c = (Inr (), c\<lparr>Out := Out c @ b, Budget := Budget c - 1\<rparr>)"
  by (simp add: WriteConn_def)

lemma WriteConn_Inr [go_simps]:
  "WriteConn b c = (Inr u, c') \<longleftrightarrow> Budget c > 0 \<and> c' = c\<lparr>Out := Out c @ b, Budget := Budget c - 1\<rparr>"
  by (auto simp: WriteConn_def)

text \<open>A connection for examples: it delivers the given bytes and then the end of file.\<close>

definition fixture_conn :: "bytes \<Rightarrow> conn" where
  "fixture_conn b = \<lparr>Inp = b, Fin = EOF, Out = [], Budget = 100\<rparr>"

section \<open>Integers on the wire\<close>

definition le_val :: "bytes \<Rightarrow> nat" where
  "le_val b = foldr (\<lambda>x n. unat x + 256 * n) b 0"

definition be_val :: "bytes \<Rightarrow> nat" where
  "be_val b = le_val (rev b)"

fun le_bytes :: "nat \<Rightarrow> nat \<Rightarrow> bytes" where
  "le_bytes 0 n = []"
| "le_bytes (Suc k) n = word_of_nat n # le_bytes k (n div 256)"

definition be_bytes :: "nat \<Rightarrow> nat \<Rightarrow> bytes" where
  "be_bytes k n = rev (le_bytes k n)"

lemma length_le_bytes [simp]: "length (le_bytes k n) = k"
  by (induction k arbitrary: n) simp_all

lemma length_be_bytes [simp]: "length (be_bytes k n) = k"
  by (simp add: be_bytes_def)

lemma le_val_simps [simp]: "le_val [] = 0" "le_val (x # b) = unat x + 256 * le_val b"
  by (simp_all add: le_val_def)

lemma unat_word_of_nat_8: "unat (word_of_nat n :: byte) = n mod 256"
  by (simp add: unat_of_nat take_bit_eq_mod)

lemma le_val_le_bytes: "le_val (le_bytes k n) = n mod 256 ^ k"
proof (induction k arbitrary: n)
  case (Suc k)
  have "n mod (256 * 256 ^ k) = 256 * (n div 256 mod 256 ^ k) + n mod 256"
    by (simp add: mod_mult2_eq)
  with Suc show ?case by (simp add: unat_word_of_nat_8)
qed simp

lemma be_val_be_bytes: "n < 256 ^ k \<Longrightarrow> be_val (be_bytes k n) = n"
  by (simp add: be_val_def be_bytes_def le_val_le_bytes)

lemma le_val_less: "le_val b < 256 ^ length b"
proof (induction b)
  case (Cons x b)
  have "unat x < 256" using unsigned_less [of x, where ?'a = nat] by simp
  with Cons show ?case by simp
qed simp

lemma le_bytes_le_val: "le_bytes (length b) (le_val b) = b"
proof (induction b)
  case (Cons x b)
  have x: "unat x < 256" using unsigned_less [of x, where ?'a = nat] by simp
  have "word_of_nat (unat x + 256 * le_val b) = (x :: byte)"
  proof -
    have "(256 :: byte) = 0" by simp
    then show ?thesis by (simp only: of_nat_add of_nat_mult of_nat_numeral mult_zero_left add_0_right of_nat_unat ucast_id)
  qed
  moreover have "(unat x + 256 * le_val b) div 256 = le_val b" using x by simp
  ultimately show ?case using Cons by simp
qed simp

text \<open>\<^verbatim>\<open>int(h[0]) | int(h[1])<<8 | int(h[2])<<16\<close>.\<close>

definition or24 :: "byte \<Rightarrow> byte \<Rightarrow> byte \<Rightarrow> nat" where
  "or24 a b c = (unat a OR push_bit 8 (unat b)) OR push_bit 16 (unat c)"

lemma or_disjoint: "a < 2 ^ n \<Longrightarrow> a OR push_bit n b = a + 2 ^ n * b" for a b :: nat
proof -
  assume a: "a < 2 ^ n"
  have "a AND push_bit n b = 0"
  proof (rule bit_eqI)
    fix k
    show "bit (a AND push_bit n b) k \<longleftrightarrow> bit (0::nat) k"
    proof (cases "k < n")
      case False
      then have "a < 2 ^ k" using a by (meson less_le_trans not_less one_le_numeral power_increasing)
      then have "\<not> bit a k" by (simp add: bit_iff_odd)
      then show ?thesis by (simp add: bit_and_iff)
    qed (simp add: bit_and_iff bit_push_bit_iff)
  qed
  then have "a + push_bit n b = a OR push_bit n b" by (rule disjunctive_add_eq_or [symmetric, THEN sym])
  then show ?thesis by (simp add: push_bit_eq_mult mult.commute)
qed

lemma or24_le_val: "or24 a b c = le_val [a, b, c]"
proof -
  have l: "unat x < 256" for x :: byte using unsigned_less [of x, where ?'a = nat] by simp
  have "unat a OR push_bit 8 (unat b) = unat a + 256 * unat b"
    using or_disjoint [of "unat a" 8 "unat b"] l [of a] by simp
  moreover have "unat a + 256 * unat b < 2 ^ 16" using l [of a] l [of b] by simp
  ultimately show ?thesis
    using or_disjoint [of "unat a + 256 * unat b" 16 "unat c"] by (simp add: or24_def)
qed

section \<open>Framed streams\<close>

locale framing =
  fixes frame :: "'h \<Rightarrow> bytes \<Rightarrow> bytes"
    and fits :: "bytes \<Rightarrow> bool"
    and read :: "('h \<times> bytes) io"
  assumes read_frame: "fits b \<Longrightarrow> Inp c = frame h b @ rest \<Longrightarrow> read c = (Inr (h, b), c\<lparr>Inp := rest\<rparr>)"
begin

fun read_all :: "nat \<Rightarrow> ('h \<times> bytes) list io" where
  "read_all 0 = returnIO []"
| "read_all (Suc n) = bindIO read (\<lambda>x. bindIO (read_all n) (\<lambda>xs. returnIO (x # xs)))"

definition frames :: "('h \<times> bytes) list \<Rightarrow> bytes" where
  "frames fs = concat (map (\<lambda>(h, b). frame h b) fs)"

lemma frames_simps [simp]: "frames [] = []" "frames ((h, b) # fs) = frame h b @ frames fs"
  by (simp_all add: frames_def)

text \<open>A stream of frames is read back frame by frame, whatever follows it.\<close>

lemma read_all_frames:
  "\<forall>(h, b)\<in>set fs. fits b \<Longrightarrow> Inp c = frames fs @ rest \<Longrightarrow>
     read_all (length fs) c = (Inr fs, c\<lparr>Inp := rest\<rparr>)"
proof (induction fs arbitrary: c)
  case (Cons f fs)
  obtain h b where f: "f = (h, b)" by (cases f)
  have "read c = (Inr (h, b), c\<lparr>Inp := frames fs @ rest\<rparr>)"
    using Cons.prems f by (intro read_frame) simp_all
  moreover have "read_all (length fs) (c\<lparr>Inp := frames fs @ rest\<rparr>) = (Inr fs, c\<lparr>Inp := rest\<rparr>)"
    using Cons.prems Cons.IH [of "c\<lparr>Inp := frames fs @ rest\<rparr>"] by simp
  ultimately show ?case by (simp add: f returnIO_def)
qed (simp add: returnIO_def)

text \<open>So frames are self-delimiting: a frame is never the beginning of another stream.\<close>

lemma frame_unique:
  assumes "fits b" "fits b'" "frame h b @ rest = frame h' b' @ rest'"
  shows "h = h' \<and> b = b' \<and> rest = rest'"
proof -
  define c where "c = \<lparr>Inp = frame h b @ rest, Fin = EOF, Out = [], Budget = 0\<rparr>"
  have "read c = (Inr (h, b), c\<lparr>Inp := rest\<rparr>)" by (rule read_frame [OF assms(1)]) (simp add: c_def)
  moreover have "read c = (Inr (h', b'), c\<lparr>Inp := rest'\<rparr>)"
    by (rule read_frame [OF assms(2)]) (simp add: c_def assms(3))
  ultimately show ?thesis by (simp add: c_def)
qed

end

end
