(* ===== verification/Session.thy ===== *)
theory Session
  imports Identity Wire
begin

text \<open>
  What the MySQL and PostgreSQL front ends share: the TLS configuration towards an upstream server.
  The TLS library is a parameter of both: a server-side handshake takes the rest of the plaintext
  connection to the connection inside it, or fails.
\<close>

record tls_config =
  ServerName :: string
  InsecureSkipVerify :: bool

text \<open>\<^verbatim>\<open>&tls.Config{ServerName: host, MinVersion: tls.VersionTLS12, InsecureSkipVerify: ...}\<close>.\<close>

definition upstream_tls :: "Listener \<Rightarrow> string \<Rightarrow> tls_config option" where
  "upstream_tls l host =
     (if UpstreamTLS l \<noteq> [] \<and> UpstreamTLS l \<noteq> ''disable'' then
        Some \<lparr>ServerName = host, InsecureSkipVerify = (UpstreamTLS l = ''require'')\<rparr>
      else None)"

section \<open>Example logins\<close>

definition fixture_logins :: service where
  "fixture_logins = issue_all [(fixture_alice, googleSQLScope, [1], 0)] fixture_service"

lemma fixture_token_chars: "NUL \<notin> set (google_token_string [1])" "length (google_token_string [1]) = 12"
  by (simp_all add: google_token_string_def b64_encode_def b64_char_def char_of_def bit_Suc_0_iff)

lemma fixture_validate:
  "Validate fixture_platform fixture_logins fixture_google ''alice'' (google_token_string [1]) 0 0 = Inr fixture_alice"
proof -
  have "Provider fixture_google = ''google''" by (simp add: fixture_google_def)
  with fixture_google_login fixture_grants(1) show ?thesis by (simp add: Validate_iff fixture_logins_def)
qed

end
