(* ===== verification/MySQL.thy ===== *)
theory MySQL
  imports Session
begin

text \<open>
  The MySQL front end (\<^verbatim>\<open>iamproxy/mysql.go\<close>): packet framing, the handshake response, the session
  up to the backend connection, and the relay that afterwards copies commands and refuses to change
  the user. Slices and indexes that Go checks at run time are checked here too (\<open>Panic\<close>). The
  flags are the protocol's capability bits. The backend client library, TLS and the random source
  are the fields of \<open>my_env\<close>.
\<close>

section \<open>Packets\<close>

definition max_packet :: nat where
  "max_packet = 1048576"

definition too_large :: go_error where
  "too_large = NewErr ''MySQL packet too large''"

definition myRead :: "(bytes \<times> byte) io" where
  "myRead =
     bindIO (ReadFull 4) (\<lambda>h.
     let n = or24 (h ! 0) (h ! 1) (h ! 2) in
     if n > max_packet then failIO too_large
     else bindIO (ReadFull n) (\<lambda>b. returnIO (b, h ! 3)))"

definition my_header :: "byte \<Rightarrow> bytes \<Rightarrow> bytes" where
  "my_header seq b =
     [word_of_nat (length b), word_of_nat (length b div 2 ^ 8), word_of_nat (length b div 2 ^ 16), seq]"

definition myWrite :: "byte \<Rightarrow> bytes \<Rightarrow> unit io" where
  "myWrite seq b =
     (if length b > max_packet then failIO too_large
      else bindIO (WriteConn (my_header seq b)) (\<lambda>_. WriteConn b))"

definition my_error_body :: "nat \<Rightarrow> string \<Rightarrow> bytes" where
  "my_error_body code msg =
     [0xff, word_of_nat code, word_of_nat (code div 2 ^ 8)] @ bytes_of_string ''#28000'' @ bytes_of_string msg"

definition myError :: "byte \<Rightarrow> nat \<Rightarrow> string \<Rightarrow> conn \<Rightarrow> conn" where
  "myError seq code msg c = snd (myWrite seq (my_error_body code msg) c)"

section \<open>Fields\<close>

text \<open>\<^verbatim>\<open>myCString\<close>: \<open>i\<close> counts the bytes before the first NUL.\<close>

fun cstring_len :: "bytes \<Rightarrow> nat" where
  "cstring_len [] = 0"
| "cstring_len (x # b) = (if x \<noteq> 0 then Suc (cstring_len b) else 0)"

definition myCString :: "bytes \<Rightarrow> (string \<times> bytes) result" where
  "myCString b =
     (let i = cstring_len b in
      if i = length b then Inl (NewErr ''unterminated MySQL string'')
      else tryR (slice_to b i) (\<lambda>s. tryR (slice_from b (i + 1)) (\<lambda>r. Inr (string_of_bytes s, r))))"

definition myLenenc :: "bytes \<Rightarrow> (nat \<times> bytes) result" where
  "myLenenc b =
     (if length b = 0 then Inl (NewErr ''empty length'')
      else if b ! 0 = 0xfc then
        (if length b < 3 then Inl (NewErr ''short length'')
         else tryR (slice_from b 3) (\<lambda>r. Inr (le_val [b ! 1, b ! 2], r)))
      else if b ! 0 = 0xfd then
        (if length b < 4 then Inl (NewErr ''short length'')
         else tryR (slice_from b 4) (\<lambda>r. Inr (or24 (b ! 1) (b ! 2) (b ! 3), r)))
      else if b ! 0 = 0xfe then
        (if length b < 9 then Inl (NewErr ''short length'')
         else let n = le_val (take 8 (drop 1 b)) in
           if n > max_packet then Inl (NewErr ''oversized length'')
           else tryR (slice_from b 9) (\<lambda>r. Inr (n, r)))
      else tryR (slice_from b 1) (\<lambda>r. Inr (unat (b ! 0), r)))"

section \<open>Capabilities\<close>

type_synonym caps = "32 word"

definition CLIENT_LONG_PASSWORD :: caps where "CLIENT_LONG_PASSWORD = 0x1"
definition CLIENT_LONG_FLAG :: caps where "CLIENT_LONG_FLAG = 0x4"
definition CLIENT_CONNECT_WITH_DB :: caps where "CLIENT_CONNECT_WITH_DB = 0x8"
definition CLIENT_PROTOCOL_41 :: caps where "CLIENT_PROTOCOL_41 = 0x200"
definition CLIENT_SSL :: caps where "CLIENT_SSL = 0x800"
definition CLIENT_TRANSACTIONS :: caps where "CLIENT_TRANSACTIONS = 0x2000"
definition CLIENT_SECURE_CONNECTION :: caps where "CLIENT_SECURE_CONNECTION = 0x8000"
definition CLIENT_MULTI_RESULTS :: caps where "CLIENT_MULTI_RESULTS = 0x20000"
definition CLIENT_PS_MULTI_RESULTS :: caps where "CLIENT_PS_MULTI_RESULTS = 0x40000"
definition CLIENT_PLUGIN_AUTH :: caps where "CLIENT_PLUGIN_AUTH = 0x80000"
definition CLIENT_PLUGIN_AUTH_LENENC_CLIENT_DATA :: caps where
  "CLIENT_PLUGIN_AUTH_LENENC_CLIENT_DATA = 0x200000"
definition CLIENT_SESSION_TRACK :: caps where "CLIENT_SESSION_TRACK = 0x800000"
definition CLIENT_DEPRECATE_EOF :: caps where "CLIENT_DEPRECATE_EOF = 0x1000000"
definition CLIENT_QUERY_ATTRIBUTES :: caps where "CLIENT_QUERY_ATTRIBUTES = 0x8000000"

lemmas caps_defs = CLIENT_LONG_PASSWORD_def CLIENT_LONG_FLAG_def CLIENT_CONNECT_WITH_DB_def
  CLIENT_PROTOCOL_41_def CLIENT_SSL_def CLIENT_TRANSACTIONS_def CLIENT_SECURE_CONNECTION_def
  CLIENT_MULTI_RESULTS_def CLIENT_PS_MULTI_RESULTS_def CLIENT_PLUGIN_AUTH_def
  CLIENT_PLUGIN_AUTH_LENENC_CLIENT_DATA_def CLIENT_SESSION_TRACK_def CLIENT_DEPRECATE_EOF_def
  CLIENT_QUERY_ATTRIBUTES_def

definition server_caps :: caps where
  "server_caps = CLIENT_LONG_PASSWORD OR CLIENT_LONG_FLAG OR CLIENT_CONNECT_WITH_DB OR CLIENT_PROTOCOL_41
     OR CLIENT_SSL OR CLIENT_TRANSACTIONS OR CLIENT_SECURE_CONNECTION OR CLIENT_MULTI_RESULTS
     OR CLIENT_PS_MULTI_RESULTS OR CLIENT_PLUGIN_AUTH OR CLIENT_PLUGIN_AUTH_LENENC_CLIENT_DATA
     OR CLIENT_SESSION_TRACK OR CLIENT_DEPRECATE_EOF OR CLIENT_QUERY_ATTRIBUTES"

definition myFramingCaps :: "caps list" where
  "myFramingCaps = [CLIENT_MULTI_RESULTS, CLIENT_PS_MULTI_RESULTS, CLIENT_SESSION_TRACK,
     CLIENT_DEPRECATE_EOF, CLIENT_QUERY_ATTRIBUTES]"

definition word32 :: "bytes \<Rightarrow> caps" where
  "word32 b = word_of_nat (le_val b)"

section \<open>The handshake response\<close>

text \<open>Lines 105 to 125: the length of the password and the bytes from its start.\<close>

definition my_password_field :: "caps \<Rightarrow> bytes \<Rightarrow> (nat \<times> bytes) result" where
  "my_password_field cap rest =
     (if cap AND CLIENT_PLUGIN_AUTH_LENENC_CLIENT_DATA \<noteq> 0 then myLenenc rest
      else if cap AND CLIENT_SECURE_CONNECTION \<noteq> 0 then
        (if length rest < 1 then Inl (NewErr ''missing password length'')
         else tryR (index_go rest 0) (\<lambda>x. tryR (slice_from rest 1) (\<lambda>r. Inr (unat x, r))))
      else tryR (myCString rest) (\<lambda>(password, rest).
        Inr (length password, bytes_of_string password @ rest)))"

text \<open>Lines 129 to 133: \<^verbatim>\<open>password[:len(password)-1]\<close> panics on an empty string.\<close>

definition my_clear_password :: "string \<Rightarrow> string result" where
  "my_clear_password password =
     (if \<not> HasSuffix password [NUL] then Inl (NewErr ''invalid cleartext password'')
      else tryR (if password = [] then Inl Panic else slice_to password (length password - 1)) (\<lambda>init.
        if Contains init [NUL] then Inl (NewErr ''invalid cleartext password'')
        else Inr (TrimSuffix password [NUL])))"

definition my_database_field :: "caps \<Rightarrow> bytes \<Rightarrow> (string \<times> bytes) result" where
  "my_database_field cap rest =
     (if cap AND CLIENT_CONNECT_WITH_DB \<noteq> 0 then myCString rest else Inr ([], rest))"

definition my_plugin_field :: "caps \<Rightarrow> bytes \<Rightarrow> unit result" where
  "my_plugin_field cap rest =
     (if cap AND CLIENT_PLUGIN_AUTH \<noteq> 0 then
        tryR (myCString rest) (\<lambda>(plugin, _).
          if plugin \<noteq> ''mysql_clear_password'' then Inl (NewErr ''cleartext plugin required'') else Inr ())
      else Inr ())"

definition myHandshakeResponse :: "bytes \<Rightarrow> (caps \<times> string \<times> string \<times> string) result" where
  "myHandshakeResponse b =
     (if length b < 33 then Inl (NewErr ''short handshake'')
      else tryR (slice_to b 4) (\<lambda>h.
      let cap = word32 h in
      if cap AND CLIENT_PROTOCOL_41 = 0 \<or> cap AND CLIENT_PLUGIN_AUTH = 0 then
        Inl (NewErr ''unsupported client'')
      else tryR (slice_from b 32) (\<lambda>rest.
      tryR (myCString rest) (\<lambda>(username, rest).
      tryR (my_password_field cap rest) (\<lambda>(n, rest).
      if n > length rest then Inl (NewErr ''invalid password length'')
      else tryR (slice_to rest n) (\<lambda>pw.
      tryR (my_clear_password (string_of_bytes pw)) (\<lambda>password.
      tryR (slice_from rest n) (\<lambda>rest.
      tryR (my_database_field cap rest) (\<lambda>(database, rest).
      tryR (my_plugin_field cap rest) (\<lambda>_.
      Inr (cap, username, password, database)))))))))))"

section \<open>The session\<close>

record my_dial =
  DialAddr :: string
  DialUser :: string
  DialPassword :: string
  DialDatabase :: string
  DialFlags :: "(caps \<times> bool) list"   \<comment> \<open>capabilities set (\<^const>\<open>True\<close>) or unset\<close>
  DialTLS :: "tls_config option"

record my_backend =
  CapabilityString :: string
  BackendConn :: conn

record my_env =
  Salt :: "bytes result"
  Handshake :: "conn \<Rightarrow> conn result"
  Now1 :: time
  Now2 :: time
  Connect :: "my_dial \<Rightarrow> my_backend result"
  CapNames :: "(caps \<times> string) list"

text \<open>
  What a session has done: the plaintext connection, the one inside TLS, the backend it dialled,
  the pair it ended up relaying, and the error it returned, if any.
\<close>

record my_session =
  Plain :: conn
  Secure :: "conn option"
  Dialed :: "my_dial option"
  Relayed :: "(conn \<times> conn) option"
  Failed :: "go_error option"

definition my_greeting :: "bytes \<Rightarrow> bytes" where
  "my_greeting salt =
     [10] @ bytes_of_string ''8.0.36-iam-proxy'' @ [0] @ le_bytes 4 1 @ take 8 salt @ [0] @
     le_bytes 2 (unat server_caps) @ [45] @ le_bytes 2 2 @ le_bytes 2 (unat (drop_bit 16 server_caps)) @
     [21] @ replicate 10 0 @ drop 8 salt @ [0] @ bytes_of_string (''mysql_clear_password'' @ [NUL])"

text \<open>The first option: which framing capabilities to set or unset on the backend connection.\<close>

definition my_backend_flags :: "caps \<Rightarrow> (caps \<times> bool) list" where
  "my_backend_flags clientCap = concat (map (\<lambda>flag.
     if clientCap AND flag = 0 then [(flag, False)]
     else if flag \<noteq> CLIENT_DEPRECATE_EOF \<and> flag \<noteq> CLIENT_QUERY_ATTRIBUTES then [(flag, True)]
     else []) myFramingCaps)"

definition my_upstream_host :: "Listener \<Rightarrow> string" where
  "my_upstream_host l = (case SplitHostPort (Upstream l) of Inl _ \<Rightarrow> [] | Inr (host, _) \<Rightarrow> host)"

definition my_dial_of :: "Listener \<Rightarrow> Principal \<Rightarrow> caps \<Rightarrow> string \<Rightarrow> my_dial" where
  "my_dial_of l p clientCap database =
     \<lparr>DialAddr = Upstream l, DialUser = BackendUser p, DialPassword = BackendPassword p,
      DialDatabase = database, DialFlags = my_backend_flags clientCap,
      DialTLS = upstream_tls l (my_upstream_host l)\<rparr>"

text \<open>\<^verbatim>\<open>myNegotiated\<close>: the library's table is visited in any order.\<close>

definition myNegotiated :: "(caps \<times> string) list \<Rightarrow> string \<Rightarrow> caps" where
  "myNegotiated names capabilities =
     fold (\<lambda>name caps. fold (\<lambda>(flag, n) caps. if n = name then caps OR flag else caps) names caps)
       (Split capabilities CHR ''|'') 0"

fun my_mismatch :: "caps \<Rightarrow> caps \<Rightarrow> caps list \<Rightarrow> caps option" where
  "my_mismatch front back [] = None"
| "my_mismatch front back (flag # fs) =
     (if front AND flag \<noteq> back AND flag then Some flag else my_mismatch front back fs)"

text \<open>Lines 229 to 250: from the backend connection to the relay, on the connection inside TLS.\<close>

definition my_open_backend ::
  "my_env \<Rightarrow> Listener \<Rightarrow> Principal \<Rightarrow> caps \<Rightarrow> string \<Rightarrow> conn \<Rightarrow> my_session \<Rightarrow> my_session" where
  "my_open_backend E l p clientCap database c ses =
     (let d = my_dial_of l p clientCap database; ses = ses\<lparr>Dialed := Some d\<rparr> in
      case Connect E d of
        Inl _ \<Rightarrow> ses\<lparr>Secure := Some (myError 3 1045 ''backend connection failed'' c),
                    Failed := Some (Errorf ''backend connection failed'' [])\<rparr>
      | Inr backend \<Rightarrow>
          (case my_mismatch (clientCap AND server_caps) (myNegotiated (CapNames E) (CapabilityString backend))
                  myFramingCaps of
             Some flag \<Rightarrow>
               ses\<lparr>Secure := Some (myError 3 1235 ''backend does not support the negotiated client capabilities'' c),
                   Failed := Some (Errorf ''backend capability mismatch: %s''
                     [case map_of (CapNames E) flag of None \<Rightarrow> [] | Some n \<Rightarrow> n])\<rparr>
           | None \<Rightarrow>
               (case myWrite 3 [0, 0, 0, 2, 0, 0, 0] c of
                  (Inl e, c) \<Rightarrow> ses\<lparr>Secure := Some c, Failed := Some e\<rparr>
                | (Inr _, c) \<Rightarrow> ses\<lparr>Secure := Some c, Relayed := Some (c, BackendConn backend)\<rparr>)))"

text \<open>Lines 192 to 209: the handshake response and the login, inside TLS.\<close>

definition my_login ::
  "platform \<Rightarrow> service \<Rightarrow> my_env \<Rightarrow> Listener \<Rightarrow> conn \<Rightarrow> my_session \<Rightarrow> my_session" where
  "my_login P s E l c ses =
     (case myRead c of
        (Inl e, c) \<Rightarrow> ses\<lparr>Secure := Some c, Failed := Some e\<rparr>
      | (Inr (resp, seq), c) \<Rightarrow>
      if seq \<noteq> 2 then ses\<lparr>Secure := Some c, Failed := Some (NewErr ''bad MySQL handshake sequence'')\<rparr>
      else case myHandshakeResponse resp of
        Inl e \<Rightarrow> ses\<lparr>Secure := Some (myError 3 1045 ''unsupported authentication'' c), Failed := Some e\<rparr>
      | Inr (clientCap, username, password, database) \<Rightarrow>
      (case Validate P s l username password (Now1 E) (Now2 E) of
         Inl e \<Rightarrow> ses\<lparr>Secure := Some (myError 3 1045 ''authentication failed'' c), Failed := Some e\<rparr>
       | Inr p \<Rightarrow> my_open_backend E l p clientCap database c ses))"

definition serveMySQL :: "platform \<Rightarrow> service \<Rightarrow> my_env \<Rightarrow> conn \<Rightarrow> Listener \<Rightarrow> my_session" where
  "serveMySQL P s E c l =
     (let ses = (\<lambda>c e. \<lparr>Plain = c, Secure = None, Dialed = None, Relayed = None, Failed = e\<rparr>) in
      case Salt E of
        Inl e \<Rightarrow> ses c (Some e)
      | Inr salt \<Rightarrow>
      case myWrite 0 (my_greeting salt) c of
        (Inl e, c) \<Rightarrow> ses c (Some e)
      | (Inr _, c) \<Rightarrow>
      case myRead c of
        (Inl e, c) \<Rightarrow> ses c (Some e)
      | (Inr (resp, seq), c) \<Rightarrow>
      if seq \<noteq> 1 \<or> length resp \<noteq> 32 \<or> word32 (take 4 resp) AND CLIENT_SSL = 0 then
        ses (myError 2 1045 ''TLS is required'' c) (Some (NewErr ''TLS required''))
      else case Handshake E c of
        Inl e \<Rightarrow> ses c (Some e)
      | Inr t \<Rightarrow> my_login P s E l t (ses c None))"

section \<open>The relay\<close>

text \<open>
  The direction from the client to the backend; the other is a plain copy. The loop ends when a read
  or a write to the backend fails.
\<close>

definition change_user :: "byte \<Rightarrow> bytes \<Rightarrow> bool" where
  "change_user seq b \<longleftrightarrow> seq = 0 \<and> length b > 0 \<and> b ! 0 = 0x11"

lemma Inp_myError [simp]: "Inp (myError seq code msg c) = Inp c"
  by (simp add: myError_def myWrite_def bindIO_def WriteConn_def failIO_def)

function my_forward :: "conn \<Rightarrow> conn \<Rightarrow> conn \<times> conn" where
  "my_forward front back =
     (case ReadFull 4 front of
        (Inl _, front) \<Rightarrow> (front, back)
      | (Inr h, front1) \<Rightarrow>
      let n = or24 (h ! 0) (h ! 1) (h ! 2) in
      if n > 2 ^ 24 - 1 then (front1, back)
      else case ReadFull n front1 of
        (Inl _, front) \<Rightarrow> (front, back)
      | (Inr b, front2) \<Rightarrow>
      if change_user (h ! 3) b then my_forward (myError 1 1045 ''change user is unsupported'' front2) back
      else case WriteConn h back of
        (Inl _, back) \<Rightarrow> (front2, back)
      | (Inr _, back) \<Rightarrow>
      case WriteConn b back of
        (Inl _, back) \<Rightarrow> (front2, back)
      | (Inr _, back) \<Rightarrow> my_forward front2 back)"
  by pat_completeness auto

termination
proof (relation "measure (\<lambda>(front, back). length (Inp front))", goal_cases)
  case (2 front x front1 h n y front2 b)
  then show ?case by (auto simp: ReadFull_Inr dest!: sym [of "(_, _)" "ReadFull _ _"])
next
  case (3 front x front1 h n y front2 b)
  then show ?case by (auto simp: ReadFull_Inr dest!: sym [of "(_, _)" "ReadFull _ _"])
qed simp

declare my_forward.simps [simp del]

end
