(* ===== verification/MySQLProps.thy ===== *)
theory MySQLProps
  imports MySQL
begin

text \<open>
  Correctness of the MySQL front end: packets are an instance of \<open>framing\<close>; the handshake parser
  never panics and inverts the client's encoding; a backend is only ever dialled after TLS and a
  successful login, with the account of the principal that logged in; the relay forwards every
  command but a change of user.
\<close>

section \<open>Packets\<close>

definition my_frame :: "byte \<Rightarrow> bytes \<Rightarrow> bytes" where
  "my_frame seq b = my_header seq b @ b"

lemma my_header_length:
  assumes "length b < 2 ^ 24"
  shows "or24 (my_header seq b ! 0) (my_header seq b ! Suc 0) (my_header seq b ! 2) = length b"
proof -
  have "le_bytes 3 (length b) =
      [word_of_nat (length b), word_of_nat (length b div 256), word_of_nat (length b div 256 div 256)]"
    by (simp add: numeral_3_eq_3)
  moreover have "length b div 256 div 256 = length b div 2 ^ 16" by (simp add: div_mult2_eq)
  ultimately have "or24 (my_header seq b ! 0) (my_header seq b ! Suc 0) (my_header seq b ! 2) =
      le_val (le_bytes 3 (length b))"
    by (simp add: or24_le_val my_header_def)
  also have "\<dots> = length b" using assms by (simp add: le_val_le_bytes)
  finally show ?thesis .
qed

lemma my_header_simps [simp]: "length (my_header seq b) = 4" "my_header seq b ! 3 = seq"
  by (simp_all add: my_header_def numeral_3_eq_3)

definition my_read_frame :: "(byte \<times> bytes) io" where
  "my_read_frame = bindIO myRead (\<lambda>(b, seq). returnIO (seq, b))"

lemma myRead_frame:
  assumes "length b \<le> max_packet" "Inp c = my_frame seq b @ rest"
  shows "myRead c = (Inr (b, seq), c\<lparr>Inp := rest\<rparr>)"
proof -
  have "ReadFull 4 c = (Inr (my_header seq b), c\<lparr>Inp := b @ rest\<rparr>)"
    using assms(2) by (intro ReadFull_append) (simp_all add: my_frame_def)
  moreover have "ReadFull (length b) (c\<lparr>Inp := b @ rest\<rparr>) = (Inr b, c\<lparr>Inp := rest\<rparr>)"
    using ReadFull_append [of "c\<lparr>Inp := b @ rest\<rparr>" b rest] by simp
  moreover have "length b < 2 ^ 24" using assms(1) by (simp add: max_packet_def)
  ultimately show ?thesis
    using assms(1) by (simp add: myRead_def my_header_length Let_def returnIO_def)
qed

interpretation my_packets: framing my_frame "\<lambda>b. length b \<le> max_packet" my_read_frame
  by unfold_locales (simp add: my_read_frame_def myRead_frame returnIO_def)

lemma myWrite_frame:
  "length b \<le> max_packet \<Longrightarrow> Budget c \<ge> 2 \<Longrightarrow>
     myWrite seq b c = (Inr (), c\<lparr>Out := Out c @ my_frame seq b, Budget := Budget c - 2\<rparr>)"
  by (simp add: myWrite_def bindIO_def WriteConn_def my_frame_def)

fun my_write_all :: "(byte \<times> bytes) list \<Rightarrow> unit io" where
  "my_write_all [] = returnIO ()"
| "my_write_all ((seq, b) # ps) = bindIO (myWrite seq b) (\<lambda>_. my_write_all ps)"

lemma my_write_all_frames:
  "\<forall>(seq, b)\<in>set ps. length b \<le> max_packet \<Longrightarrow> Budget c \<ge> 2 * length ps \<Longrightarrow>
     my_write_all ps c = (Inr (), c\<lparr>Out := Out c @ my_packets.frames ps, Budget := Budget c - 2 * length ps\<rparr>)"
proof (induction ps arbitrary: c)
  case (Cons p ps)
  obtain seq b where p: "p = (seq, b)" by (cases p)
  let ?c = "c\<lparr>Out := Out c @ my_frame seq b, Budget := Budget c - 2\<rparr>"
  have "myWrite seq b c = (Inr (), ?c)" using Cons.prems p by (intro myWrite_frame) auto
  moreover have "my_write_all ps ?c =
      (Inr (), ?c\<lparr>Out := Out ?c @ my_packets.frames ps, Budget := Budget ?c - 2 * length ps\<rparr>)"
    using Cons.prems p by (intro Cons.IH) auto
  ultimately show ?case by (simp add: p)
qed (simp add: returnIO_def)

text \<open>
  Packets survive the wire. Whatever packets of at most a mebibyte are written to a connection,
  a peer that receives those bytes, and anything after them, reads back exactly these sequence
  numbers and payloads in order, and is left with the bytes that follow.
\<close>

theorem my_packets_roundtrip:
  assumes "\<forall>(seq, b)\<in>set ps. length b \<le> max_packet" and "Budget c \<ge> 2 * length ps" and "Out c = []"
    and "Inp d = Out (snd (my_write_all ps c)) @ rest"
  shows "fst (my_write_all ps c) = Inr () \<and>
    my_packets.read_all (length ps) d = (Inr ps, d\<lparr>Inp := rest\<rparr>)"
proof -
  have w: "my_write_all ps c =
      (Inr (), c\<lparr>Out := Out c @ my_packets.frames ps, Budget := Budget c - 2 * length ps\<rparr>)"
    using assms(1,2) by (rule my_write_all_frames)
  then have "Inp d = my_packets.frames ps @ rest" using assms(3,4) by simp
  with assms(1) have "my_packets.read_all (length ps) d = (Inr ps, d\<lparr>Inp := rest\<rparr>)"
    by (intro my_packets.read_all_frames)
  with w show ?thesis by simp
qed

theorem my_packets_roundtrip_witness:
  "let ps = [(0, [1, 2]), (1, [])]; d = fixture_conn (Out (snd (my_write_all ps (fixture_conn [])))) in
   my_packets.read_all (length ps) d = (Inr ps, d\<lparr>Inp := []\<rparr>)"
proof -
  let ?ps = "[(0, [1, 2]), (1, [])] :: (byte \<times> bytes) list"
  let ?d = "fixture_conn (Out (snd (my_write_all ?ps (fixture_conn []))))"
  have "\<forall>(seq, b)\<in>set ?ps. length b \<le> max_packet" by (simp add: max_packet_def)
  moreover have "Budget (fixture_conn []) \<ge> 2 * length ?ps" "Out (fixture_conn []) = []"
    by (simp_all add: fixture_conn_def)
  moreover have "Inp ?d = Out (snd (my_write_all ?ps (fixture_conn []))) @ []"
    by (simp add: fixture_conn_def [of "Out x" for x])
  ultimately show ?thesis unfolding Let_def by (rule my_packets_roundtrip [THEN conjunct2])
qed

section \<open>Fields\<close>

lemma cstring_len_append: "0 \<notin> set a \<Longrightarrow> cstring_len (a @ 0 # r) = length a"
  by (induction a) auto

lemma cstring_len_le: "cstring_len b \<le> length b"
  by (induction b) auto

lemma cstring_split:
  "cstring_len b < length b \<Longrightarrow> b = take (cstring_len b) b @ 0 # drop (Suc (cstring_len b)) b \<and>
     0 \<notin> set (take (cstring_len b) b)"
  by (induction b) auto

lemma myCString_append: "0 \<notin> set a \<Longrightarrow> myCString (a @ 0 # r) = Inr (string_of_bytes a, r)"
  by (simp add: myCString_def cstring_len_append)

lemma myCString_Inr:
  "myCString b = Inr (s, r) \<longleftrightarrow> (\<exists>a. b = a @ 0 # r \<and> 0 \<notin> set a \<and> s = string_of_bytes a)"
proof
  assume m: "myCString b = Inr (s, r)"
  then have l: "cstring_len b < length b"
    using cstring_len_le [of b] by (auto simp: myCString_def Let_def split: if_splits)
  with m have "s = string_of_bytes (take (cstring_len b) b)" "r = drop (Suc (cstring_len b)) b"
    by (auto simp: myCString_def Let_def split: if_splits)
  with cstring_split [OF l] show "\<exists>a. b = a @ 0 # r \<and> 0 \<notin> set a \<and> s = string_of_bytes a" by blast
qed (auto simp: myCString_append)

lemma myCString_no_panic: "myCString b \<noteq> Inl Panic"
proof (cases "cstring_len b = length b")
  case False
  then have "cstring_len b < length b" using cstring_len_le [of b] by simp
  then show ?thesis by (simp add: myCString_def Let_def)
qed (simp add: myCString_def)

lemma myLenenc_no_panic: "myLenenc b \<noteq> Inl Panic"
  unfolding myLenenc_def Let_def
  by (auto simp: Let_def Suc_le_eq numeral_eq_Suc split: if_splits)

definition lenenc :: "nat \<Rightarrow> bytes" where
  "lenenc n = (if n < 251 then [word_of_nat n] else if n < 2 ^ 16 then 0xfc # le_bytes 2 n
     else 0xfd # le_bytes 3 n)"

lemma le_bytes_2: "le_bytes 2 n = [word_of_nat n, word_of_nat (n div 256)]"
  by (simp add: numeral_2_eq_2)

lemma le_bytes_3: "le_bytes 3 n = [word_of_nat n, word_of_nat (n div 256), word_of_nat (n div 256 div 256)]"
  by (simp add: numeral_3_eq_3)

lemma myLenenc_fc: "myLenenc (0xfc # a # b # r) = Inr (le_val [a, b], r)"
  by (simp add: myLenenc_def slice_from_def del: le_val_simps)

lemma myLenenc_fd: "myLenenc (0xfd # a # b # c # r) = Inr (le_val [a, b, c], r)"
  by (simp add: myLenenc_def or24_le_val slice_from_def del: le_val_simps)

lemma myLenenc_lenenc: "n < 2 ^ 24 \<Longrightarrow> myLenenc (lenenc n @ r) = Inr (n, r)"
proof -
  assume n: "n < 2 ^ 24"
  consider "n < 251" | "251 \<le> n" "n < 2 ^ 16" | "2 ^ 16 \<le> n" by linarith
  then show ?thesis
  proof cases
    case 1
    have u: "unat (word_of_nat n :: byte) = n" using 1 by (simp add: unat_word_of_nat_8)
    have "(word_of_nat n :: byte) \<noteq> w" if "251 \<le> unat w" for w
      using u 1 that by auto
    from this [of "0xfc"] this [of "0xfd"] this [of "0xfe"]
    have "(word_of_nat n :: byte) \<noteq> 0xfc" "(word_of_nat n :: byte) \<noteq> 0xfd" "(word_of_nat n :: byte) \<noteq> 0xfe"
      by simp_all
    with 1 u show ?thesis by (simp add: myLenenc_def lenenc_def)
  next
    case 2
    have "lenenc n @ r = 0xfc # word_of_nat n # word_of_nat (n div 256) # r"
      using 2 by (simp add: lenenc_def le_bytes_2)
    moreover have "le_val [word_of_nat n, word_of_nat (n div 256)] = n"
      using 2 le_val_le_bytes [of 2 n] by (simp add: le_bytes_2 del: le_val_simps)
    ultimately show ?thesis by (simp only: myLenenc_fc)
  next
    case 3
    have "lenenc n @ r = 0xfd # word_of_nat n # word_of_nat (n div 256) # word_of_nat (n div 256 div 256) # r"
      using 3 by (simp add: lenenc_def le_bytes_3)
    moreover have "le_val [word_of_nat n, word_of_nat (n div 256), word_of_nat (n div 256 div 256)] = n"
      using n le_val_le_bytes [of 3 n] by (simp add: le_bytes_3 del: le_val_simps)
    ultimately show ?thesis by (simp only: myLenenc_fd)
  qed
qed

section \<open>The handshake response\<close>

lemma HasSuffix_nonempty: "HasSuffix s [c] \<Longrightarrow> s \<noteq> []"
  by (auto simp: HasSuffix_def)

lemma my_clear_password_no_panic: "my_clear_password s \<noteq> Inl Panic"
  unfolding my_clear_password_def by (auto intro!: tryR_no_panic dest: HasSuffix_nonempty)

lemma my_password_field_no_panic: "my_password_field cap rest \<noteq> Inl Panic"
  unfolding my_password_field_def
  by (intro if_no_panic tryR_no_panic myLenenc_no_panic myCString_no_panic) (auto simp: Suc_le_eq)

lemma my_database_field_no_panic: "my_database_field cap rest \<noteq> Inl Panic"
  by (simp add: my_database_field_def myCString_no_panic)

lemma my_plugin_field_no_panic: "my_plugin_field cap rest \<noteq> Inl Panic"
  unfolding my_plugin_field_def
  by (intro if_no_panic tryR_no_panic case_no_panic myCString_no_panic) simp_all

text \<open>
  C23: No handshake response makes the parser panic: every slice of the packet and of the password is
  in bounds whenever it is taken, the empty password included.
\<close>

theorem myHandshakeResponse_no_panic: "myHandshakeResponse b \<noteq> Inl Panic"
  unfolding myHandshakeResponse_def Let_def
  by (intro if_no_panic tryR_no_panic case_no_panic slice_no_panic myCString_no_panic my_clear_password_no_panic
      my_password_field_no_panic my_database_field_no_panic my_plugin_field_no_panic) simp_all

text \<open>How a client encodes its answer, with whatever 28 bytes stand between the flags and the name.\<close>

definition my_encode_password :: "caps \<Rightarrow> string \<Rightarrow> bytes" where
  "my_encode_password cap password =
     (let b = bytes_of_string password @ [0] in
      (if cap AND CLIENT_PLUGIN_AUTH_LENENC_CLIENT_DATA \<noteq> 0 then lenenc (length b)
       else [word_of_nat (length b)]) @ b)"

definition my_encode_response :: "caps \<Rightarrow> bytes \<Rightarrow> string \<Rightarrow> string \<Rightarrow> string \<Rightarrow> bytes" where
  "my_encode_response cap filler username password database =
     le_bytes 4 (unat cap) @ filler @ bytes_of_string username @ [0] @ my_encode_password cap password @
     (if cap AND CLIENT_CONNECT_WITH_DB \<noteq> 0 then bytes_of_string database @ [0] else []) @
     bytes_of_string ''mysql_clear_password'' @ [0]"

lemma myCString_string: "NUL \<notin> set s \<Longrightarrow> myCString (bytes_of_string s @ 0 # r) = Inr (s, r)"
  using myCString_append [OF NUL_bytes] by simp

lemma word32_cap: "word32 (le_bytes 4 (unat cap)) = cap" for cap :: caps
proof -
  have "unat cap < 2 ^ 32" using unsigned_less [of cap, where ?'a = nat] by simp
  then show ?thesis by (simp add: word32_def le_val_le_bytes)
qed

lemma my_password_field_encoded:
  assumes "cap AND CLIENT_PLUGIN_AUTH_LENENC_CLIENT_DATA \<noteq> 0 \<and> length password < 2 ^ 20 \<or>
    cap AND CLIENT_SECURE_CONNECTION \<noteq> 0 \<and> length password < 255"
  shows "my_password_field cap (my_encode_password cap password @ r) =
    Inr (Suc (length password), bytes_of_string password @ 0 # r)"
proof (cases "cap AND CLIENT_PLUGIN_AUTH_LENENC_CLIENT_DATA = 0")
  case True
  then have "cap AND CLIENT_SECURE_CONNECTION \<noteq> 0" "length password < 255" using assms by auto
  moreover from this have "unat (word_of_nat (Suc (length password)) :: byte) = Suc (length password)"
    by (simp only: unat_word_of_nat_8) simp
  ultimately show ?thesis
    using True by (simp add: my_password_field_def my_encode_password_def del: of_nat_Suc)
next
  case False
  then have "Suc (length password) < 2 ^ 24" using assms by auto
  with False myLenenc_lenenc [OF this] show ?thesis
    by (simp add: my_password_field_def my_encode_password_def)
qed

lemma my_clear_password_NUL:
  assumes "NUL \<notin> set p"
  shows "my_clear_password (p @ [NUL]) = Inr p"
proof -
  have "\<not> Contains p [NUL]" using assms by (simp add: Contains_char)
  then show ?thesis by (simp add: my_clear_password_def)
qed

lemma my_response_parsed:
  assumes "cap AND CLIENT_PROTOCOL_41 \<noteq> 0" and "cap AND CLIENT_PLUGIN_AUTH \<noteq> 0"
    and "length filler = 28"
    and "NUL \<notin> set username" and "NUL \<notin> set password" and "NUL \<notin> set database"
    and "cap AND CLIENT_PLUGIN_AUTH_LENENC_CLIENT_DATA \<noteq> 0 \<and> length password < 2 ^ 20 \<or>
      cap AND CLIENT_SECURE_CONNECTION \<noteq> 0 \<and> length password < 255"
  shows "myHandshakeResponse (my_encode_response cap filler username password database) =
    Inr (cap, username, password, if cap AND CLIENT_CONNECT_WITH_DB \<noteq> 0 then database else [])"
proof -
  let ?tail = "(if cap AND CLIENT_CONNECT_WITH_DB \<noteq> 0 then bytes_of_string database @ [0] else []) @
    bytes_of_string ''mysql_clear_password'' @ [0]"
  let ?b = "my_encode_response cap filler username password database"
  have len: "\<not> length ?b < 33" using assms(3) by (simp add: my_encode_response_def)
  have h: "slice_to ?b 4 = Inr (le_bytes 4 (unat cap))" by (simp add: my_encode_response_def slice_to_def)
  have r: "slice_from ?b 32 =
      Inr (bytes_of_string username @ 0 # my_encode_password cap password @ ?tail)"
    using assms(3) by (simp add: my_encode_response_def slice_from_def)
  have pw: "slice_to (bytes_of_string password @ 0 # ?tail) (Suc (length password)) =
      Inr (bytes_of_string password @ [0])"
    "slice_from (bytes_of_string password @ 0 # ?tail) (Suc (length password)) = Inr ?tail"
    by (simp_all add: slice_to_def slice_from_def)
  have z: "string_of_bytes [0] = [NUL]" by (simp add: string_of_bytes_def char_of_def)
  have db: "my_database_field cap ?tail =
      Inr (if cap AND CLIENT_CONNECT_WITH_DB \<noteq> 0 then database else [], bytes_of_string ''mysql_clear_password'' @ [0])"
    using myCString_string [OF assms(6)] by (simp add: my_database_field_def)
  have "NUL \<notin> set ''mysql_clear_password''" by simp
  from myCString_string [OF this, of "[]"]
  have plugin: "my_plugin_field cap (bytes_of_string ''mysql_clear_password'' @ [0]) = Inr ()"
    using assms(2) by (simp add: my_plugin_field_def)
  have fit: "\<not> Suc (length password) > length (bytes_of_string password @ 0 # ?tail)" by simp
  show ?thesis
    unfolding myHandshakeResponse_def if_not_P [OF len] h tryR_simps Let_def word32_cap r
      myCString_string [OF assms(4)] prod.case my_password_field_encoded [OF assms(7)] if_not_P [OF fit] pw
      string_of_bytes_append string_of_bytes_of_string z my_clear_password_NUL [OF assms(5)] db plugin
    using assms(1,2) by simp
qed

text \<open>
  C22: What a client encodes is what the proxy reads. For any flags with the 4.1 protocol, plugin
  authentication and either length-encoded or short authentication data, and any user, password and
  database without NUL, the parser returns exactly these (no database without its flag).
\<close>

theorem myHandshakeResponse_roundtrip:
  assumes "cap AND CLIENT_PROTOCOL_41 \<noteq> 0" and "cap AND CLIENT_PLUGIN_AUTH \<noteq> 0"
    and "length filler = 28"
    and "NUL \<notin> set username" and "NUL \<notin> set password" and "NUL \<notin> set database"
    and "cap AND CLIENT_PLUGIN_AUTH_LENENC_CLIENT_DATA \<noteq> 0 \<and> length password < 2 ^ 20 \<or>
      cap AND CLIENT_SECURE_CONNECTION \<noteq> 0 \<and> length password < 255"
  shows "myHandshakeResponse (my_encode_response cap filler username password database) =
    Inr (cap, username, password, if cap AND CLIENT_CONNECT_WITH_DB \<noteq> 0 then database else [])"
  by (rule my_response_parsed [OF assms])

text \<open>
  C24: The branch for clients without either kind of counted authentication data refuses every
  password: \<^verbatim>\<open>myCString\<close> has already removed the NUL that the check that follows requires.
\<close>

theorem my_uncounted_password_refused:
  assumes "cap = word32 (take 4 b)" and "cap AND CLIENT_PLUGIN_AUTH_LENENC_CLIENT_DATA = 0"
    and "cap AND CLIENT_SECURE_CONNECTION = 0"
  shows "\<exists>e. myHandshakeResponse b = Inl e"
proof (rule ccontr)
  assume "\<nexists>e. myHandshakeResponse b = Inl e"
  then obtain x where "myHandshakeResponse b = Inr x" by (cases "myHandshakeResponse b") auto
  then obtain rest n rest' pw where f: "my_password_field cap rest = Inr (n, rest')"
    "slice_to rest' n = Inr pw" "my_clear_password (string_of_bytes pw) \<noteq> Inl (NewErr ''invalid cleartext password'')"
    unfolding myHandshakeResponse_def Let_def assms(1)
    by (auto simp: tryR_Inr_iff split: if_splits prod.splits)
  obtain p r where p: "myCString rest = Inr (p, r)" "n = length p" "rest' = bytes_of_string p @ r"
    using f(1) assms(2,3) by (auto simp: my_password_field_def tryR_Inr_iff)
  then have "string_of_bytes pw = p" using f(2) by (auto simp: slice_to_def)
  moreover have "NUL \<notin> set p" using p(1) by (auto simp: myCString_Inr)
  then have "\<not> HasSuffix p [NUL]" by (auto simp: HasSuffix_iff)
  ultimately show False using f(3) by (simp add: my_clear_password_def)
qed

section \<open>The session\<close>

lemma my_open_backend_simps [simp]:
  "Dialed (my_open_backend E l p cap db c ses) = Some (my_dial_of l p cap db)"
  "Plain (my_open_backend E l p cap db c ses) = Plain ses"
  by (simp_all add: my_open_backend_def Let_def split: sum.split option.split prod.split)

lemma my_login_Plain [simp]: "Plain (my_login P s E l c ses) = Plain ses"
  by (simp add: my_login_def split: sum.split prod.split)

definition my_login_ok ::
  "platform \<Rightarrow> service \<Rightarrow> my_env \<Rightarrow> Listener \<Rightarrow> conn \<Rightarrow> caps \<Rightarrow> string \<Rightarrow> Principal \<Rightarrow> conn \<Rightarrow> bool" where
  "my_login_ok P s E l c cap db p c' \<longleftrightarrow>
     (\<exists>resp username password. myRead c = (Inr (resp, 2), c') \<and>
        myHandshakeResponse resp = Inr (cap, username, password, db) \<and>
        Validate P s l username password (Now1 E) (Now2 E) = Inr p)"

lemma my_login_cases:
  "(\<exists>c' e. my_login P s E l c ses = ses\<lparr>Secure := Some c', Failed := Some e\<rparr>) \<or>
   (\<exists>cap db p c'. my_login_ok P s E l c cap db p c' \<and>
      my_login P s E l c ses = my_open_backend E l p cap db c' ses)"
proof (cases "fst (myRead c)")
  case (Inl e)
  then show ?thesis unfolding my_login_def by (cases "myRead c") auto
next
  case (Inr rs)
  obtain resp seq c' where r: "myRead c = (Inr (resp, seq), c')"
    using Inr by (cases "myRead c"; cases rs) auto
  show ?thesis
  proof (cases "seq = 2")
    case True
    show ?thesis
    proof (cases "myHandshakeResponse resp")
      case (Inl e)
      with r True show ?thesis unfolding my_login_def by auto
    next
      case (Inr x)
      obtain cap username password db where x: "x = (cap, username, password, db)" by (cases x)
      show ?thesis
      proof (cases "Validate P s l username password (Now1 E) (Now2 E)")
        case (Inl e)
        with r True Inr x show ?thesis unfolding my_login_def by auto
      next
        case (Inr p)
        with r True \<open>myHandshakeResponse resp = Inr x\<close> x
        have "my_login_ok P s E l c cap db p c'" "my_login P s E l c ses = my_open_backend E l p cap db c' ses"
          unfolding my_login_ok_def my_login_def by auto
        then show ?thesis by blast
      qed
    qed
  qed (use r in \<open>auto simp: my_login_def\<close>)
qed

lemma myRead_Out: "myRead c = (r, c') \<Longrightarrow> Out c' = Out c"
proof -
  assume m: "myRead c = (r, c')"
  define k where "k = snd (ReadFull 4 c)"
  have "Out c' = Out k"
    using m ReadFull_frame [of _ k]
    by (cases "ReadFull 4 c")
      (auto simp: myRead_def bindIO_def k_def failIO_def returnIO_def Let_def split: sum.splits prod.splits if_splits,
        (metis snd_conv ReadFull_frame)+)
  then show ?thesis using ReadFull_frame [of 4 c] by (simp add: k_def)
qed

lemma serveMySQL_cases:
  "Secure (serveMySQL P s E c l) = None \<and> Dialed (serveMySQL P s E c l) = None \<and>
     Relayed (serveMySQL P s E c l) = None \<and> Failed (serveMySQL P s E c l) \<noteq> None \<or>
   (\<exists>salt c1 resp c2 t. Salt E = Inr salt \<and> myWrite 0 (my_greeting salt) c = (Inr (), c1) \<and>
      myRead c1 = (Inr (resp, 1), c2) \<and> Handshake E c2 = Inr t \<and>
      serveMySQL P s E c l = my_login P s E l t
        \<lparr>Plain = c2, Secure = None, Dialed = None, Relayed = None, Failed = None\<rparr>)"
proof (cases "Salt E")
  case (Inl e)
  then show ?thesis by (simp add: serveMySQL_def)
next
  case (Inr salt)
  show ?thesis
  proof (cases "myWrite 0 (my_greeting salt) c")
    case (Pair w c1)
    show ?thesis
    proof (cases w)
      case (Inl e)
      with Pair \<open>Salt E = Inr salt\<close> show ?thesis by (simp add: serveMySQL_def)
    next
      case (Inr u)
      obtain r c2 where r: "myRead c1 = (r, c2)" by (cases "myRead c1")
      show ?thesis
      proof (cases r)
        case (Inl e)
        with Pair \<open>w = Inr u\<close> \<open>Salt E = Inr salt\<close> r show ?thesis by (simp add: serveMySQL_def)
      next
        case (Inr rs)
        obtain resp seq where rs: "rs = (resp, seq)" by (cases rs)
        show ?thesis
        proof (cases "seq \<noteq> 1 \<or> length resp \<noteq> 32 \<or> word32 (take 4 resp) AND CLIENT_SSL = 0")
          case True
          with Pair \<open>w = Inr u\<close> \<open>Salt E = Inr salt\<close> r Inr rs show ?thesis by (simp add: serveMySQL_def)
        next
          case False
          with Pair \<open>w = Inr u\<close> \<open>Salt E = Inr salt\<close> r Inr rs show ?thesis
            by (cases "Handshake E c2") (simp_all add: serveMySQL_def)
        qed
      qed
    qed
  qed
qed

lemma my_greeting_small: "length salt < 1000 \<Longrightarrow> length (my_greeting salt) \<le> max_packet"
  by (simp add: my_greeting_def max_packet_def)

lemma myWrite_Inr: "myWrite seq b c = (Inr u, c') \<Longrightarrow> Out c' = Out c @ my_frame seq b"
  by (auto simp: myWrite_def bindIO_Inr_iff WriteConn_Inr my_frame_def split: if_splits)

text \<open>
  C18: No backend before a login, no password before TLS. If a session reaches a backend, then all it
  ever sent in plaintext is the greeting, the TLS handshake succeeded, the handshake response came
  through the TLS connection, and \<^verbatim>\<open>Validate\<close> accepted it for a configured principal granted this
  listener, whose backend account and listener's upstream are what is dialled.
\<close>

theorem serveMySQL_login_first:
  assumes "Dialed (serveMySQL P s E c l) = Some d"
  shows "\<exists>salt t resp t' cap username password db p.
    Out (Plain (serveMySQL P s E c l)) = Out c @ my_frame 0 (my_greeting salt) \<and>
    Handshake E (Plain (serveMySQL P s E c l)) = Inr t \<and> myRead t = (Inr (resp, 2), t') \<and>
    myHandshakeResponse resp = Inr (cap, username, password, db) \<and>
    Validate P s l username password (Now1 E) (Now2 E) = Inr p \<and>
    p \<in> set (Principals (SConfig s)) \<and> Granted p (Name l) \<and>
    DialAddr d = Upstream l \<and> DialUser d = BackendUser p \<and> DialPassword d = BackendPassword p \<and>
    DialDatabase d = db"
proof -
  obtain salt c1 resp0 c2 t where *: "myWrite 0 (my_greeting salt) c = (Inr (), c1)"
    "myRead c1 = (Inr (resp0, 1), c2)" "Handshake E c2 = Inr t"
    "serveMySQL P s E c l = my_login P s E l t
       \<lparr>Plain = c2, Secure = None, Dialed = None, Relayed = None, Failed = None\<rparr>"
    using serveMySQL_cases [of P s E c l] assms by auto
  from my_login_cases [of P s E l t "\<lparr>Plain = c2, Secure = None, Dialed = None, Relayed = None, Failed = None\<rparr>"]
  obtain cap db p t' where ok: "my_login_ok P s E l t cap db p t'" and d: "d = my_dial_of l p cap db"
    using assms unfolding *(4) by auto
  have "Plain (serveMySQL P s E c l) = c2" "Out c2 = Out c @ my_frame 0 (my_greeting salt)"
    using *(4) myRead_Out [OF *(2)] myWrite_Inr [OF *(1)] by simp_all
  moreover obtain resp username password where "myRead t = (Inr (resp, 2), t')"
    "myHandshakeResponse resp = Inr (cap, username, password, db)"
    and v: "Validate P s l username password (Now1 E) (Now2 E) = Inr p"
    using ok by (auto simp: my_login_ok_def)
  ultimately show ?thesis
    using *(3) v iam.auth_configured [OF v] iam.auth_granted [OF v] by (auto simp: d my_dial_of_def)
qed

lemma my_mismatch_None: "my_mismatch f b flags = None \<longleftrightarrow> (\<forall>flag\<in>set flags. f AND flag = b AND flag)"
  by (induction flags) auto

lemma server_framing_caps: "flag \<in> set myFramingCaps \<Longrightarrow> server_caps AND flag = flag"
  by (auto simp: myFramingCaps_def server_caps_def caps_defs)

text \<open>
  C19: Bytes are only relayed between two sides that frame results alike. When a session is handed to
  the relay, its backend was dialled, both sides agree on every framing capability, and the client
  has been told that it is logged in.
\<close>

theorem serveMySQL_relay_framing:
  assumes "Relayed (serveMySQL P s E c l) = Some (front, back)"
  shows "\<exists>d backend cap username password t resp t'. Dialed (serveMySQL P s E c l) = Some d \<and>
    Connect E d = Inr backend \<and> back = BackendConn backend \<and>
    Handshake E (Plain (serveMySQL P s E c l)) = Inr t \<and> myRead t = (Inr (resp, 2), t') \<and>
    myHandshakeResponse resp = Inr (cap, username, password, DialDatabase d) \<and>
    (\<forall>flag\<in>set myFramingCaps.
       cap AND flag = myNegotiated (CapNames E) (CapabilityString backend) AND flag) \<and>
    Out front = Out t' @ my_frame 3 [0, 0, 0, 2, 0, 0, 0]"
proof -
  obtain salt c1 resp0 c2 t where *: "Handshake E c2 = Inr t"
    "serveMySQL P s E c l = my_login P s E l t
       \<lparr>Plain = c2, Secure = None, Dialed = None, Relayed = None, Failed = None\<rparr>"
    using serveMySQL_cases [of P s E c l] assms by auto
  from my_login_cases [of P s E l t "\<lparr>Plain = c2, Secure = None, Dialed = None, Relayed = None, Failed = None\<rparr>"]
  obtain cap db p t' where ok: "my_login_ok P s E l t cap db p t'"
    and ses: "serveMySQL P s E c l = my_open_backend E l p cap db t'
       \<lparr>Plain = c2, Secure = None, Dialed = None, Relayed = None, Failed = None\<rparr>"
    using assms unfolding *(2) by auto
  let ?d = "my_dial_of l p cap db"
  obtain backend where b: "Connect E ?d = Inr backend"
    using assms unfolding ses by (cases "Connect E ?d") (simp_all add: my_open_backend_def)
  have m: "my_mismatch (cap AND server_caps) (myNegotiated (CapNames E) (CapabilityString backend)) myFramingCaps = None"
    using assms b unfolding ses
    by (cases "my_mismatch (cap AND server_caps) (myNegotiated (CapNames E) (CapabilityString backend)) myFramingCaps")
      (simp_all add: my_open_backend_def)
  obtain w t'' where w: "myWrite 3 [0, 0, 0, 2, 0, 0, 0] t' = (w, t'')" by (cases "myWrite 3 [0, 0, 0, 2, 0, 0, 0] t'")
  have "w = Inr ()" "front = t''" "back = BackendConn backend"
    using assms b m w unfolding ses by (cases w; simp add: my_open_backend_def)+
  moreover have "cap AND flag = (cap AND server_caps) AND flag" if "flag \<in> set myFramingCaps" for flag
    using server_framing_caps [OF that] by (simp add: and.assoc)
  ultimately show ?thesis
    using ok b m w *(1) unfolding ses my_mismatch_None my_login_ok_def
    by (auto simp: my_dial_of_def dest: myWrite_Inr)
qed

section \<open>The relay\<close>

definition my_incomplete :: "bytes \<Rightarrow> bool" where
  "my_incomplete r \<longleftrightarrow> length r < 4 \<or> length r < 4 + or24 (r ! 0) (r ! 1) (r ! 2)"

lemma my_header_le_bytes: "my_header seq b = le_bytes 3 (length b) @ [seq]"
  using div_mult2_eq [of "length b" 256 256] by (simp add: my_header_def le_bytes_3)

lemma or24_less: "or24 a b c < 2 ^ 24"
  using le_val_less [of "[a, b, c]"] by (simp add: or24_le_val)

text \<open>Every stream is a sequence of packets and an incomplete rest.\<close>

lemma my_stream_packets:
  "\<exists>ps rest. s = my_packets.frames ps @ rest \<and> (\<forall>(seq, b)\<in>set ps. length b < 2 ^ 24) \<and> my_incomplete rest"
proof (induction s rule: length_induct)
  case (1 s)
  show ?case
  proof (cases "my_incomplete s")
    case True
    then show ?thesis by (intro exI [of _ "[]"] exI [of _ s]) simp
  next
    case False
    then have l: "4 \<le> length s" "or24 (s ! 0) (s ! 1) (s ! 2) \<le> length (drop 4 s)"
      by (auto simp: my_incomplete_def)
    then obtain a b c seq r where s: "s = [a, b, c, seq] @ r"
      by (cases s; cases "tl s"; cases "tl (tl s)"; cases "tl (tl (tl s))") auto
    define p where "p = take (or24 a b c) r"
    have "length p = le_val [a, b, c]" using l s by (simp add: p_def or24_le_val)
    then have "my_header seq p = [a, b, c, seq]"
      using le_bytes_le_val [of "[a, b, c]"] by (simp add: my_header_le_bytes le_bytes_3 del: le_val_simps)
    then have sp: "s = my_frame seq p @ drop (or24 a b c) r" by (simp add: s my_frame_def p_def)
    moreover have "length (drop (or24 a b c) r) < length s" by (simp add: s)
    with 1 obtain ps rest where "drop (or24 a b c) r = my_packets.frames ps @ rest"
      "\<forall>(seq, b)\<in>set ps. length b < 2 ^ 24" "my_incomplete rest" by blast
    moreover have "length p < 2 ^ 24" using or24_less [of a b c] by (simp add: p_def)
    ultimately show ?thesis
      by (intro exI [of _ "(seq, p) # ps"] exI [of _ rest]) simp
  qed
qed

lemma my_forward_packet:
  assumes "Inp front = my_frame seq b @ rest" "length b < 2 ^ 24"
  defines "front' \<equiv> front\<lparr>Inp := rest\<rparr>"
  shows "my_forward front upstream =
    (if change_user seq b then my_forward (myError 1 1045 ''change user is unsupported'' front') upstream
     else case WriteConn (my_header seq b) upstream of
       (Inl _, upstream) \<Rightarrow> (front', upstream)
     | (Inr _, upstream) \<Rightarrow>
         (case WriteConn b upstream of
            (Inl _, upstream) \<Rightarrow> (front', upstream)
          | (Inr _, upstream) \<Rightarrow> my_forward front' upstream))"
proof -
  have h: "ReadFull 4 front = (Inr (my_header seq b), front\<lparr>Inp := b @ rest\<rparr>)"
    using assms(1) by (intro ReadFull_append) (simp_all add: my_frame_def)
  have p: "ReadFull (length b) (front\<lparr>Inp := b @ rest\<rparr>) = (Inr b, front')"
    using ReadFull_append [of "front\<lparr>Inp := b @ rest\<rparr>" b rest] by (simp add: front'_def)
  have n: "or24 (my_header seq b ! 0) (my_header seq b ! 1) (my_header seq b ! 2) = length b"
    using my_header_length [OF assms(2)] by simp
  have l: "\<not> length b > 2 ^ 24 - 1" using assms(2) by simp
  show ?thesis
    by (subst my_forward.simps)
      (simp only: h prod.case sum.case Let_def n if_not_P [OF l] p my_header_simps(2))
qed

lemma my_forward_incomplete:
  assumes "my_incomplete (Inp front)"
  shows "snd (my_forward front upstream) = upstream \<and> Out (fst (my_forward front upstream)) = Out front"
proof (cases "length (Inp front) < 4")
  case True
  then have "ReadFull 4 front = (Inl (if Inp front \<noteq> [] \<and> Fin front = EOF then UnexpectedEOF else Fin front),
      front\<lparr>Inp := []\<rparr>)" by (simp add: ReadFull_def)
  then show ?thesis by (subst (1 2) my_forward.simps) simp
next
  case False
  let ?i = "Inp front"
  have h: "ReadFull 4 front = (Inr (take 4 ?i), front\<lparr>Inp := drop 4 ?i\<rparr>)"
    using False by (simp add: ReadFull_def)
  let ?n = "or24 (take 4 ?i ! 0) (take 4 ?i ! Suc 0) (take 4 ?i ! 2)"
  have "length (drop 4 ?i) < ?n" using assms False by (simp add: my_incomplete_def)
  then obtain e where r: "ReadFull ?n (front\<lparr>Inp := drop 4 ?i\<rparr>) = (Inl e, front\<lparr>Inp := []\<rparr>)"
    by (simp add: ReadFull_def)
  show ?thesis
    by (subst (1 2) my_forward.simps) (simp add: h r Let_def del: nth_take)
qed

definition change_user_error :: bytes where
  "change_user_error = my_frame 1 (my_error_body 1045 ''change user is unsupported'')"

lemma myError_change_user:
  "Budget c \<ge> 2 \<Longrightarrow> Out (myError 1 1045 ''change user is unsupported'' c) = Out c @ change_user_error \<and>
     Budget (myError 1 1045 ''change user is unsupported'' c) = Budget c - 2"
  by (simp add: myError_def myWrite_frame change_user_error_def my_error_body_def max_packet_def)

lemma my_forward_frames:
  assumes "\<forall>(seq, b)\<in>set ps. length b < 2 ^ 24" "my_incomplete rest"
    and "Inp front = my_packets.frames ps @ rest"
  defines "kept \<equiv> \<lambda>ps. filter (\<lambda>(seq, b). \<not> change_user seq b) ps"
  shows "prefix (Out (snd (my_forward front upstream))) (Out upstream @ my_packets.frames (kept ps)) \<and>
    (2 * length (kept ps) \<le> Budget upstream \<longrightarrow>
       Out (snd (my_forward front upstream)) = Out upstream @ my_packets.frames (kept ps) \<and>
       (2 * length ps \<le> Budget front \<longrightarrow> Out (fst (my_forward front upstream)) =
          Out front @ concat (replicate (length ps - length (kept ps)) change_user_error)))"
  using assms(1,3)
proof (induction ps arbitrary: front upstream)
  case Nil
  then show ?case using my_forward_incomplete [of front upstream] assms(2) by (simp add: kept_def)
next
  case (Cons p ps)
  obtain seq b where p: "p = (seq, b)" by (cases p)
  then have b: "length b < 2 ^ 24" and inp: "Inp front = my_frame seq b @ my_packets.frames ps @ rest"
    and all: "\<forall>(seq, b)\<in>set ps. length b < 2 ^ 24" using Cons.prems by simp_all
  let ?front = "front\<lparr>Inp := my_packets.frames ps @ rest\<rparr>"
  note step = my_forward_packet [OF inp b, of upstream]
  have shorter: "length (kept ps) \<le> length ps" by (simp add: kept_def)
  show ?case
  proof (cases "change_user seq b")
    case True
    let ?f = "myError 1 1045 ''change user is unsupported'' ?front"
    have eq: "my_forward front upstream = my_forward ?f upstream" using step True by simp
    have kp: "kept (p # ps) = kept ps" using True p by (simp add: kept_def)
    have IH: "prefix (Out (snd (my_forward ?f upstream))) (Out upstream @ my_packets.frames (kept ps)) \<and>
      (2 * length (kept ps) \<le> Budget upstream \<longrightarrow>
         Out (snd (my_forward ?f upstream)) = Out upstream @ my_packets.frames (kept ps) \<and>
         (2 * length ps \<le> Budget ?f \<longrightarrow> Out (fst (my_forward ?f upstream)) =
            Out ?f @ concat (replicate (length ps - length (kept ps)) change_user_error)))"
      using all by (intro Cons.IH) simp_all
    have "Suc (length ps) - length (kept ps) = Suc (length ps - length (kept ps))" using shorter by simp
    then show ?thesis
      unfolding eq kp using IH myError_change_user [of ?front] by auto
  next
    case False
    have kp: "kept (p # ps) = (seq, b) # kept ps" using False p by (simp add: kept_def)
    consider "Budget upstream = 0" | "Budget upstream = 1" | "Budget upstream \<ge> 2" by linarith
    then show ?thesis
    proof cases
      case 1
      then have "my_forward front upstream = (?front, upstream)" using step False by (simp add: WriteConn_def)
      then show ?thesis using 1 kp by simp
    next
      case 2
      then have "my_forward front upstream = (?front, upstream\<lparr>Out := Out upstream @ my_header seq b, Budget := 0\<rparr>)"
        using step False by (simp add: WriteConn_def)
      moreover have "my_packets.frames (kept (p # ps)) = my_frame seq b @ my_packets.frames (kept ps)"
        by (simp add: kp)
      then have "my_packets.frames (kept (p # ps)) = my_header seq b @ b @ my_packets.frames (kept ps)"
        by (simp only: my_frame_def append_assoc)
      moreover have "\<not> 2 * length (kept (p # ps)) \<le> Suc 0" by (simp add: kp)
      ultimately show ?thesis using 2 by simp
    next
      case 3
      let ?b = "upstream\<lparr>Out := Out upstream @ my_frame seq b, Budget := Budget upstream - 2\<rparr>"
      have eq: "my_forward front upstream = my_forward ?front ?b"
        using step False 3 by (simp add: WriteConn_def my_frame_def numeral_2_eq_2)
      have IH: "prefix (Out (snd (my_forward ?front ?b))) (Out ?b @ my_packets.frames (kept ps)) \<and>
        (2 * length (kept ps) \<le> Budget ?b \<longrightarrow>
           Out (snd (my_forward ?front ?b)) = Out ?b @ my_packets.frames (kept ps) \<and>
           (2 * length ps \<le> Budget ?front \<longrightarrow> Out (fst (my_forward ?front ?b)) =
              Out ?front @ concat (replicate (length ps - length (kept ps)) change_user_error)))"
        using all by (intro Cons.IH) simp_all
      show ?thesis unfolding eq kp using IH 3 by (auto simp: kp)
    qed
  qed
qed

text \<open>
  C20: The relay forwards every command but a change of user. Whatever the client sends is a sequence
  of packets and an incomplete rest, and the backend receives, in order and unchanged, a prefix of the
  packets other than \<^verbatim>\<open>COM_CHANGE_USER\<close>, and all of them as long as its writes succeed; each change
  of user is answered to the client with one error packet instead.
\<close>

theorem my_forward_filters:
  "\<exists>ps rest. Inp front = my_packets.frames ps @ rest \<and> my_incomplete rest \<and>
     (let kept = filter (\<lambda>(seq, b). \<not> change_user seq b) ps; (front', upstream') = my_forward front upstream in
      prefix (Out upstream') (Out upstream @ my_packets.frames kept) \<and>
      (2 * length kept \<le> Budget upstream \<longrightarrow> Out upstream' = Out upstream @ my_packets.frames kept \<and>
         (2 * length ps \<le> Budget front \<longrightarrow>
            Out front' = Out front @ concat (replicate (length ps - length kept) change_user_error))))"
proof -
  obtain ps rest where ps: "Inp front = my_packets.frames ps @ rest"
    "\<forall>(seq, b)\<in>set ps. length b < 2 ^ 24" "my_incomplete rest"
    using my_stream_packets by blast
  then show ?thesis
    using my_forward_frames [OF ps(2,3,1), of upstream]
    by (intro exI [of _ ps] exI [of _ rest]) (cases "my_forward front upstream"; simp add: Let_def)
qed

lemma length_frames: "4 * length ps \<le> length (my_packets.frames ps)"
proof (induction ps)
  case (Cons p ps)
  obtain seq b where p: "p = (seq, b)" by (cases p)
  have "length (my_frame seq b) = 4 + length b" by (simp add: my_frame_def)
  with Cons p show ?case by simp
qed simp

theorem my_forward_filters_witness:
  "let front = fixture_conn (my_frame 0 [0x11] @ my_frame 0 [0x0e]) in
   \<exists>ps rest. Inp front = my_packets.frames ps @ rest \<and>
     Out (snd (my_forward front (fixture_conn []))) = my_packets.frames (filter (\<lambda>(seq, b). \<not> change_user seq b) ps)"
proof -
  let ?front = "fixture_conn (my_frame 0 [0x11] @ my_frame 0 [0x0e])"
  obtain ps rest where ps: "Inp ?front = my_packets.frames ps @ rest"
    "2 * length (filter (\<lambda>(seq, b). \<not> change_user seq b) ps) \<le> Budget (fixture_conn []) \<longrightarrow>
       Out (snd (my_forward ?front (fixture_conn []))) =
         Out (fixture_conn []) @ my_packets.frames (filter (\<lambda>(seq, b). \<not> change_user seq b) ps)"
    using my_forward_filters [of ?front "fixture_conn []"]
    by (cases "my_forward ?front (fixture_conn [])") (auto simp: Let_def)
  have "length (my_packets.frames ps) \<le> 10"
    using arg_cong [OF ps(1), of length] by (simp add: fixture_conn_def my_frame_def)
  then have "length ps \<le> 2" using length_frames [of ps] by simp
  moreover have "length (filter (\<lambda>(seq, b). \<not> change_user seq b) ps) \<le> length ps" by simp
  moreover have "Budget (fixture_conn []) = 100" by (simp add: fixture_conn_def)
  ultimately have "2 * length (filter (\<lambda>(seq, b). \<not> change_user seq b) ps) \<le> Budget (fixture_conn [])"
    by linarith
  with ps show ?thesis unfolding Let_def
    by (intro exI [of _ ps] exI [of _ rest]) (simp add: fixture_conn_def [of "[]"])
qed

section \<open>An example session\<close>

definition fixture_caps :: caps where
  "fixture_caps = CLIENT_PROTOCOL_41 OR CLIENT_PLUGIN_AUTH OR CLIENT_PLUGIN_AUTH_LENENC_CLIENT_DATA"

lemma fixture_caps:
  "fixture_caps AND CLIENT_PROTOCOL_41 \<noteq> 0" "fixture_caps AND CLIENT_PLUGIN_AUTH \<noteq> 0"
  "fixture_caps AND CLIENT_PLUGIN_AUTH_LENENC_CLIENT_DATA \<noteq> 0" "fixture_caps AND CLIENT_CONNECT_WITH_DB = 0"
  "\<forall>flag\<in>set myFramingCaps. fixture_caps AND flag = 0"
  by (simp_all add: fixture_caps_def caps_defs myFramingCaps_def)

definition fixture_response :: bytes where
  "fixture_response =
     my_encode_response fixture_caps (replicate 28 0) ''alice'' (google_token_string [1]) []"

definition fixture_ssl_request :: bytes where
  "fixture_ssl_request = le_bytes 4 (unat CLIENT_SSL) @ replicate 28 0"

definition fixture_my_env :: my_env where
  "fixture_my_env = \<lparr>Salt = Inr (replicate 20 1),
     Handshake = (\<lambda>_. Inr (fixture_conn (my_frame 2 fixture_response))), Now1 = 0, Now2 = 0,
     Connect = (\<lambda>_. Inr \<lparr>CapabilityString = [], BackendConn = fixture_conn []\<rparr>), CapNames = []\<rparr>"

lemma fixture_response_parsed:
  "myHandshakeResponse fixture_response = Inr (fixture_caps, ''alice'', google_token_string [1], [])"
  using my_response_parsed [OF fixture_caps(1,2), of "replicate 28 0" "''alice''" "google_token_string [1]" "[]"]
    fixture_token_chars fixture_caps(3,4)
  by (simp add: fixture_response_def)

theorem myHandshakeResponse_roundtrip_witness:
  "myHandshakeResponse (my_encode_response fixture_caps (replicate 28 0) ''alice'' ''secret'' ''db'') =
     Inr (fixture_caps, ''alice'', ''secret'', [])"
  using myHandshakeResponse_roundtrip [OF fixture_caps(1,2), of "replicate 28 0" "''alice''" "''secret''" "''db''"]
    fixture_caps(3,4)
  by simp

theorem my_uncounted_password_refused_witness:
  "\<exists>e. myHandshakeResponse (my_encode_response (CLIENT_PROTOCOL_41 OR CLIENT_PLUGIN_AUTH) (replicate 28 0)
     ''alice'' ''secret'' []) = Inl e"
proof -
  let ?cap = "CLIENT_PROTOCOL_41 OR CLIENT_PLUGIN_AUTH"
  let ?b = "my_encode_response ?cap (replicate 28 0) ''alice'' ''secret'' []"
  have "take 4 ?b = le_bytes 4 (unat ?cap)" by (simp add: my_encode_response_def)
  then have "?cap = word32 (take 4 ?b)" by (simp add: word32_cap)
  then show ?thesis by (rule my_uncounted_password_refused) (simp_all add: caps_defs)
qed

lemma fixture_my_session:
  "\<exists>c' ses. Failed ses = None \<and> serveMySQL fixture_platform fixture_logins fixture_my_env
       (fixture_conn (my_frame 1 fixture_ssl_request)) fixture_google =
     my_open_backend fixture_my_env fixture_google fixture_alice fixture_caps [] c' ses \<and> Budget c' = 100"
proof -
  let ?c = "fixture_conn (my_frame 1 fixture_ssl_request)"
  let ?salt = "replicate 20 1 :: bytes"
  have small: "length (my_greeting ?salt) \<le> max_packet" by (rule my_greeting_small) simp
  have w: "myWrite 0 (my_greeting ?salt) ?c =
      (Inr (), ?c\<lparr>Out := my_frame 0 (my_greeting ?salt), Budget := 98\<rparr>)"
    using myWrite_frame [OF small, of ?c 0] by (simp add: fixture_conn_def)
  have ssl: "length fixture_ssl_request = 32" "take 4 fixture_ssl_request = le_bytes 4 (unat CLIENT_SSL)"
    by (simp_all add: fixture_ssl_request_def)
  have r: "myRead (?c\<lparr>Out := my_frame 0 (my_greeting ?salt), Budget := 98\<rparr>) =
      (Inr (fixture_ssl_request, 1), ?c\<lparr>Out := my_frame 0 (my_greeting ?salt), Budget := 98, Inp := []\<rparr>)"
    using myRead_frame [of fixture_ssl_request "?c\<lparr>Out := my_frame 0 (my_greeting ?salt), Budget := 98\<rparr>" 1 "[]"] ssl
    by (simp add: fixture_conn_def max_packet_def)
  have "length fixture_response = 4 + 28 + 6 + 14 + 21"
    using fixture_token_chars(2) fixture_caps(3,4)
    by (simp add: fixture_response_def my_encode_response_def my_encode_password_def lenenc_def)
  then have t: "myRead (fixture_conn (my_frame 2 fixture_response)) =
      (Inr (fixture_response, 2), fixture_conn [])"
    using myRead_frame [of fixture_response "fixture_conn (my_frame 2 fixture_response)" 2 "[]"]
    by (simp add: fixture_conn_def max_packet_def)
  have flag: "word32 (le_bytes 4 (unat CLIENT_SSL)) AND CLIENT_SSL \<noteq> 0"
    unfolding word32_cap by (simp add: caps_defs)
  have env: "Salt fixture_my_env = Inr ?salt" "Now1 fixture_my_env = 0" "Now2 fixture_my_env = 0"
    "Handshake fixture_my_env c = Inr (fixture_conn (my_frame 2 fixture_response))" for c
    by (simp_all add: fixture_my_env_def)
  show ?thesis
    unfolding serveMySQL_def Let_def env w r my_login_def ssl prod.case sum.case t
      fixture_response_parsed fixture_validate
    using flag
    by (intro exI [of _ "fixture_conn []"]
        exI [of _ "\<lparr>Plain = ?c\<lparr>Out := my_frame 0 (my_greeting ?salt), Budget := 98, Inp := []\<rparr>,
          Secure = None, Dialed = None, Relayed = None, Failed = None\<rparr>"])
      (simp add: fixture_conn_def)
qed

theorem serveMySQL_login_first_witness:
  "\<exists>d. Dialed (serveMySQL fixture_platform fixture_logins fixture_my_env
      (fixture_conn (my_frame 1 fixture_ssl_request)) fixture_google) = Some d \<and>
     DialAddr d = Upstream fixture_google \<and>
     (\<exists>p\<in>set (Principals (SConfig fixture_logins)). Granted p (Name fixture_google) \<and> DialUser d = BackendUser p)"
proof -
  obtain d where d: "Dialed (serveMySQL fixture_platform fixture_logins fixture_my_env
      (fixture_conn (my_frame 1 fixture_ssl_request)) fixture_google) = Some d"
    using fixture_my_session by auto
  with serveMySQL_login_first [OF d] show ?thesis by blast
qed

theorem serveMySQL_relay_framing_witness:
  "\<exists>front upstream. Relayed (serveMySQL fixture_platform fixture_logins fixture_my_env
      (fixture_conn (my_frame 1 fixture_ssl_request)) fixture_google) = Some (front, upstream) \<and>
     (\<exists>t. Out front = t @ my_frame 3 [0, 0, 0, 2, 0, 0, 0])"
proof -
  obtain c' ses where s: "serveMySQL fixture_platform fixture_logins fixture_my_env
      (fixture_conn (my_frame 1 fixture_ssl_request)) fixture_google =
      my_open_backend fixture_my_env fixture_google fixture_alice fixture_caps [] c' ses" "Budget c' = 100"
    using fixture_my_session by auto
  have "my_mismatch (fixture_caps AND server_caps) (myNegotiated [] []) myFramingCaps = None"
    unfolding my_mismatch_None
    by (simp add: myFramingCaps_def server_caps_def fixture_caps_def caps_defs myNegotiated_def)
  moreover have "myWrite 3 [0, 0, 0, 2, 0, 0, 0] c' =
      (Inr (), c'\<lparr>Out := Out c' @ my_frame 3 [0, 0, 0, 2, 0, 0, 0], Budget := Budget c' - 2\<rparr>)"
    using s(2) by (intro myWrite_frame) (simp_all add: max_packet_def)
  ultimately obtain front upstream where r: "Relayed (serveMySQL fixture_platform fixture_logins fixture_my_env
      (fixture_conn (my_frame 1 fixture_ssl_request)) fixture_google) = Some (front, upstream)"
    unfolding s(1) by (simp add: my_open_backend_def fixture_my_env_def Let_def)
  with serveMySQL_relay_framing [OF r] show ?thesis by blast
qed

end
