(* ===== verification/Postgres.thy ===== *)
theory Postgres
  imports Session
begin

text \<open>
  The PostgreSQL front end (\<^verbatim>\<open>iamproxy/postgres.go\<close>): messages, the startup packet, the session up
  to the backend connection, and cancel requests. A stage of the session is an \<open>io\<close> computation on
  one connection; \<open>servePostgres\<close> runs the stages and records what the session did. The backend
  client library (\<^verbatim>\<open>pgconn\<close>), TLS and the dialer are the fields of \<open>pg_env\<close>. Deadlines show as
  the error after the last byte of a connection.
\<close>

section \<open>Messages\<close>

text \<open>The bytes \<^verbatim>\<open>pgWrite\<close> assembles: type, length including itself, body.\<close>

definition pg_frame :: "byte \<Rightarrow> bytes \<Rightarrow> bytes" where
  "pg_frame typ body = typ # be_bytes 4 (4 + length body) @ body"

definition pgWrite :: "byte \<Rightarrow> bytes \<Rightarrow> unit io" where
  "pgWrite typ body = WriteConn (pg_frame typ body)"

definition pgFatal :: "string \<Rightarrow> string \<Rightarrow> conn \<Rightarrow> conn" where
  "pgFatal code msg c =
     snd (pgWrite 0x45 (bytes_of_string
       (''SFATAL'' @ [NUL] @ ''C'' @ code @ [NUL] @ ''M'' @ msg @ [NUL, NUL])) c)"

text \<open>Send the error message and return the error.\<close>

definition pg_refuse :: "string \<Rightarrow> string \<Rightarrow> go_error \<Rightarrow> 'a io" where
  "pg_refuse code msg e c = (Inl e, pgFatal code msg c)"

section \<open>The startup packet\<close>

type_synonym params = "string \<rightharpoonup> string"

text \<open>Lines 85 to 90; the map keeps the last value of a name.\<close>

fun pg_params :: "string list \<Rightarrow> params \<Rightarrow> params result" where
  "pg_params [] m = Inr m"
| "pg_params [k] m = (if k = [] then Inl (NewErr ''empty parameter'') else Inl Panic)"
| "pg_params (k # v # fs) m =
     (if k = [] then Inl (NewErr ''empty parameter'') else pg_params fs (m(k \<mapsto> v)))"

definition invalid_params :: go_error where
  "invalid_params = NewErr ''invalid startup parameters''"

text \<open>Lines 74 to 91.\<close>

definition pg_parse_params :: "bytes \<Rightarrow> params result" where
  "pg_parse_params b =
     (if length b = 0 \<or> b ! (length b - 1) \<noteq> 0 then Inl invalid_params
      else tryR (slice_to b (length b - 1)) (\<lambda>b.
      let fs = Split (string_of_bytes b) NUL;
          fs = (if last fs = [] then butlast fs else fs)
      in if length fs mod 2 \<noteq> 0 then Inl invalid_params
         else pg_params fs Map.empty))"

definition pg_max :: nat where "pg_max = 1048576"
definition code_gss :: nat where "code_gss = 80877104"
definition code_cancel :: nat where "code_cancel = 80877102"
definition code_ssl :: nat where "code_ssl = 80877103"
definition code_v3 :: nat where "code_v3 = 196608"

lemmas code_defs = code_gss_def code_cancel_def code_ssl_def code_v3_def

text \<open>Lines 54 to 91: a packet other than a GSS request; \<open>n\<close> is its length, \<open>code\<close> its code.\<close>

definition pg_startup_packet :: "nat \<Rightarrow> nat \<Rightarrow> params io" where
  "pg_startup_packet n code =
     (if code = code_cancel then
        if n \<noteq> 16 then failIO (NewErr ''invalid cancel length'')
        else bindIO (ReadFull 8) (\<lambda>key. returnIO [''_cancel'' \<mapsto> string_of_bytes key])
      else if code = code_ssl then returnIO [''_ssl'' \<mapsto> ''1'']
      else if code \<noteq> code_v3 then failIO (NewErr ''unsupported protocol version'')
      else bindIO (ReadFull (n - 8)) (\<lambda>b. liftIO (pg_parse_params b)))"

lemma ReadFull_shorter: "ReadFull (Suc n) c = (Inr b, c') \<Longrightarrow> length (Inp c') < length (Inp c)"
  by (auto simp: ReadFull_Inr)

lemma WriteConn_Inp: "WriteConn b c = (r, c') \<Longrightarrow> Inp c' = Inp c"
  by (auto simp: WriteConn_def split: if_splits)

function pgStartup :: "params io" where
  "pgStartup c =
     (case ReadFull 8 c of
        (Inl e, c1) \<Rightarrow> (Inl e, c1)
      | (Inr head, c1) \<Rightarrow>
      let n = be_val (take 4 head); code = be_val (drop 4 head) in
      if n < 8 \<or> n > pg_max then (Inl (NewErr ''invalid startup length''), c1)
      else if code = code_gss then
        if n \<noteq> 8 then (Inl (NewErr ''invalid GSS request''), c1)
        else case WriteConn [0x4e] c1 of
          (Inl e, c2) \<Rightarrow> (Inl e, c2)
        | (Inr _, c2) \<Rightarrow> pgStartup c2
      else pg_startup_packet n code c1)"
  by (pat_completeness, hypsubst, rule refl)

termination
proof (relation "measure (\<lambda>c. length (Inp c))", goal_cases)
  case (2 c x c1 head n code y c2 u)
  then have "length (Inp c1) < length (Inp c)"
    using ReadFull_shorter [of 7 c head c1] by (simp add: numeral_eq_Suc)
  then show ?case using 2 by (simp add: WriteConn_Inp [OF sym])
qed simp

declare pgStartup.simps [simp del]

section \<open>The password message\<close>

definition pgPassword :: "string io" where
  "pgPassword =
     bindIO (ReadFull 5) (\<lambda>head.
     if head ! 0 \<noteq> 0x70 then failIO (NewErr ''expected password message'')
     else let n = be_val (drop 1 head) in
     if n < 5 \<or> n > pg_max then failIO (NewErr ''invalid password length'')
     else bindIO (ReadFull (n - 4)) (\<lambda>b.
     liftIO (tryR (index_go b (length b - 1)) (\<lambda>x.
       if x \<noteq> 0 then Inl (NewErr ''unterminated password'')
       else tryR (slice_to b (length b - 1)) (\<lambda>p. Inr (string_of_bytes p))))))"

section \<open>Replication\<close>

definition pgReplicationMode :: "(string \<Rightarrow> string) \<Rightarrow> string \<Rightarrow> string result" where
  "pgReplicationMode ul v =
     (let v = ToLower ul v in
      if v = [] \<or> v = ''false'' \<or> v = ''off'' \<or> v = ''no'' \<or> v = ''0'' then Inr []
      else if v = ''true'' \<or> v = ''on'' \<or> v = ''yes'' \<or> v = ''1'' then Inr ''true''
      else if v = ''database'' then Inr ''database''
      else Inl (NewErr ''invalid replication parameter''))"

section \<open>The backend\<close>

text \<open>The fields of \<^verbatim>\<open>pgconn.Config\<close> that the session sets.\<close>

record pg_config =
  Host :: string
  Port :: "16 word"
  User :: string
  Password :: string
  Database :: string
  ConnectTimeout :: time
  Fallbacks :: "(string \<times> 16 word) list"
  LookupFunc :: "string \<Rightarrow> string list result"
  TLSConfig :: "tls_config option"
  RuntimeParams :: params

text \<open>\<^verbatim>\<open>pgconn.HijackedConn\<close>; the Go map is visited in any order, as the list has it.\<close>

record pg_hijacked =
  ParameterStatuses :: "(string \<times> string) list"
  PID :: "32 word"
  SecretKey :: bytes
  TxStatus :: byte
  HijackedConn :: conn

record pg_backend =
  SyncConn :: "unit result"
  Hijack :: "pg_hijacked result"

text \<open>
  \<open>PgParse\<close> is \<^verbatim>\<open>pgconn.ParseConfig("sslmode=disable")\<close>, which also reads the process environment;
  \<open>PgCancels\<close> is the emulator's registry of cancel keys at the moment a cancel request looks it up.
\<close>

record pg_env =
  PgHandshake :: "conn \<Rightarrow> conn result"
  PgNow1 :: time
  PgNow2 :: time
  PgParse :: "pg_config result"
  PgConnect :: "pg_config \<Rightarrow> pg_backend result"
  PgDial :: "string \<Rightarrow> conn result"
  PgCancels :: "string \<rightharpoonup> string"

text \<open>Lines 190 to 227.\<close>

definition pg_dial_of :: "Listener \<Rightarrow> Principal \<Rightarrow> params \<Rightarrow> string \<Rightarrow> pg_config result \<Rightarrow> pg_config result" where
  "pg_dial_of l p params replication parsed =
     tryR (SplitHostPort (Upstream l)) (\<lambda>(host, portStr).
     let bad = Inl (NewErr ''invalid upstream port'') in
     case Atoi portStr of
       Inl _ \<Rightarrow> bad
     | Inr port \<Rightarrow>
     if port < 1 \<or> port > 65535 then bad
     else tryR parsed (\<lambda>pcfg.
     let rp = RuntimeParams pcfg;
         app = map_get params ''application_name'';
         rp = (if app \<noteq> [] then rp(''application_name'' \<mapsto> app) else rp);
         rp = (if replication \<noteq> [] then rp(''replication'' \<mapsto> replication) else rp);
         db = map_get params ''database''
     in Inr (pcfg\<lparr>Host := host, Port := word_of_int port, User := BackendUser p,
          Password := BackendPassword p, Database := (if db = [] then BackendUser p else db),
          ConnectTimeout := 8 * 10 ^ 9, Fallbacks := [], LookupFunc := (\<lambda>host. Inr [host]),
          TLSConfig := (case upstream_tls l host of None \<Rightarrow> TLSConfig pcfg | Some t \<Rightarrow> Some t),
          RuntimeParams := rp\<rparr>)))"

section \<open>Stages of the session\<close>

text \<open>
  Lines 136 to 149: in plaintext, a cancel request (\<^const>\<open>Some\<close> of its key) or, with \<^const>\<open>None\<close>,
  the way into TLS.
\<close>

definition pg_plaintext :: "string option io" where
  "pg_plaintext =
     bindIO pgStartup (\<lambda>params.
     case params ''_cancel'' of
       Some raw \<Rightarrow> returnIO (Some raw)
     | None \<Rightarrow>
         if map_get params ''_ssl'' \<noteq> ''1'' then
           pg_refuse ''08004'' ''TLS is required'' (NewErr ''TLS required'')
         else bindIO (WriteConn [0x53]) (\<lambda>_. returnIO None))"

datatype pg_request =
    CancelRequest string
  | Login Principal params string   \<comment> \<open>with the replication mode\<close>

text \<open>Lines 155 to 189, on the connection inside TLS.\<close>

definition pg_authenticate :: "platform \<Rightarrow> service \<Rightarrow> pg_env \<Rightarrow> Listener \<Rightarrow> pg_request io" where
  "pg_authenticate P s E l =
     bindIO pgStartup (\<lambda>params.
     case params ''_cancel'' of
       Some raw \<Rightarrow> returnIO (CancelRequest raw)
     | None \<Rightarrow>
     if map_get params ''_ssl'' \<noteq> [] then failIO (NewErr ''invalid startup after TLS'')
     else let username = map_get params ''user'' in
     if username = [] then pg_refuse ''28000'' ''user required'' (NewErr ''user required'')
     else case pgReplicationMode (unicode_lower P) (map_get params ''replication'') of
       Inl e \<Rightarrow> pg_refuse ''22023'' ''invalid value for parameter \"replication\"'' e
     | Inr replication \<Rightarrow>
     bindIO (pgWrite 0x52 (be_bytes 4 3)) (\<lambda>_.
     bindIO pgPassword (\<lambda>password.
     case Validate P s l username password (PgNow1 E) (PgNow2 E) of
       Inl e \<Rightarrow> pg_refuse ''28P01'' ''authentication failed'' e
     | Inr p \<Rightarrow> returnIO (Login p params replication))))"

text \<open>Lines 248 to 257.\<close>

fun pg_send_statuses :: "string list \<Rightarrow> (string \<times> string) list \<Rightarrow> unit io" where
  "pg_send_statuses [] m = returnIO ()"
| "pg_send_statuses (k # ks) m =
     bindIO (pgWrite 0x53 (bytes_of_string (k @ [NUL] @ map_get (map_of m) k @ [NUL])))
       (\<lambda>_. pg_send_statuses ks m)"

text \<open>Lines 245 to 270: tell the client that it is logged in; the result is the cancel key.\<close>

definition pg_ready :: "pg_hijacked \<Rightarrow> string io" where
  "pg_ready h =
     bindIO (pgWrite 0x52 [0, 0, 0, 0]) (\<lambda>_.
     bindIO (pg_send_statuses (sort (map fst (ParameterStatuses h))) (ParameterStatuses h)) (\<lambda>_.
     if length (SecretKey h) \<noteq> 4 then failIO (NewErr ''invalid backend secret key'')
     else let keyData = be_bytes 4 (unat (PID h)) @ SecretKey h in
     bindIO (pgWrite 0x4b keyData) (\<lambda>_.
     bindIO (pgWrite 0x5a [TxStatus h]) (\<lambda>_.
     returnIO (string_of_bytes keyData)))))"

text \<open>The dialled address and the connection after the write, if any, and the error, if any.\<close>

type_synonym pg_cancelled = "(string \<times> conn option) option \<times> go_error option"

definition pg_cancel_message :: "bytes \<Rightarrow> bytes" where
  "pg_cancel_message raw = be_bytes 4 16 @ be_bytes 4 code_cancel @ raw"

definition pgCancel :: "pg_env \<Rightarrow> Listener \<Rightarrow> bytes \<Rightarrow> pg_cancelled" where
  "pgCancel E l raw =
     (if length raw \<noteq> 8 then (None, Some (NewErr ''invalid cancel''))
      else case PgCancels E (Name l @ string_of_bytes raw) of
        None \<Rightarrow> (None, None)
      | Some upstream \<Rightarrow>
      case PgDial E upstream of
        Inl e \<Rightarrow> (Some (upstream, None), Some e)
      | Inr c \<Rightarrow>
      case WriteConn (pg_cancel_message raw) c of
        (Inl e, c) \<Rightarrow> (Some (upstream, Some c), Some e)
      | (Inr _, c) \<Rightarrow> (Some (upstream, Some c), None))"

section \<open>The session\<close>

text \<open>
  What a session has done: its plaintext connection and the one inside TLS, the configuration it
  connected to a backend with, the pair it ended up relaying and the key under which it can be
  cancelled meanwhile, the cancel request it forwarded, and the error it returned, if any.
\<close>

record pg_session =
  PgPlain :: conn
  PgSecure :: "conn option"
  PgDialed :: "pg_config option"
  PgRelayed :: "(conn \<times> conn) option"
  PgKey :: "string option"
  PgCanceled :: "(string \<times> conn option) option"
  PgFailed :: "go_error option"

definition pg_session0 :: "conn \<Rightarrow> pg_session" where
  "pg_session0 c = \<lparr>PgPlain = c, PgSecure = None, PgDialed = None, PgRelayed = None, PgKey = None,
     PgCanceled = None, PgFailed = None\<rparr>"

definition pg_run_cancel :: "pg_env \<Rightarrow> Listener \<Rightarrow> string \<Rightarrow> pg_session \<Rightarrow> pg_session" where
  "pg_run_cancel E l raw ses =
     (case pgCancel E l (bytes_of_string raw) of
        (sent, e) \<Rightarrow> ses\<lparr>PgCanceled := sent, PgFailed := e\<rparr>)"

text \<open>Lines 190 to 275; the key is stored before the relay and deleted after it.\<close>

definition pg_open_backend ::
  "pg_env \<Rightarrow> Listener \<Rightarrow> Principal \<Rightarrow> params \<Rightarrow> string \<Rightarrow> conn \<Rightarrow> pg_session \<Rightarrow> pg_session" where
  "pg_open_backend E l p params replication c ses =
     (let fail = (\<lambda>ses c e. ses\<lparr>PgSecure := Some c, PgFailed := Some e\<rparr>) in
      case pg_dial_of l p params replication (PgParse E) of
        Inl e \<Rightarrow> fail ses c e
      | Inr pcfg \<Rightarrow>
      let ses = ses\<lparr>PgDialed := Some pcfg\<rparr> in
      case PgConnect E pcfg of
        Inl _ \<Rightarrow> fail ses (pgFatal ''08006'' ''backend connection failed'' c)
                   (Errorf ''backend connection failed'' [])
      | Inr backend \<Rightarrow>
      case SyncConn backend of
        Inl e \<Rightarrow> fail ses c e
      | Inr _ \<Rightarrow>
      case Hijack backend of
        Inl e \<Rightarrow> fail ses c e
      | Inr hijacked \<Rightarrow>
      case pg_ready hijacked c of
        (Inl e, c) \<Rightarrow> fail ses c e
      | (Inr cancelKey, c) \<Rightarrow>
          ses\<lparr>PgSecure := Some c, PgRelayed := Some (c, HijackedConn hijacked),
            PgKey := Some (Name l @ cancelKey)\<rparr>)"

definition servePostgres :: "platform \<Rightarrow> service \<Rightarrow> pg_env \<Rightarrow> conn \<Rightarrow> Listener \<Rightarrow> pg_session" where
  "servePostgres P s E c l =
     (case pg_plaintext c of
        (Inl e, c) \<Rightarrow> (pg_session0 c)\<lparr>PgFailed := Some e\<rparr>
      | (Inr (Some raw), c) \<Rightarrow> pg_run_cancel E l raw (pg_session0 c)
      | (Inr None, c) \<Rightarrow>
      let ses = pg_session0 c in
      case PgHandshake E c of
        Inl e \<Rightarrow> ses\<lparr>PgFailed := Some e\<rparr>
      | Inr t \<Rightarrow>
      case pg_authenticate P s E l t of
        (Inl e, t) \<Rightarrow> ses\<lparr>PgSecure := Some t, PgFailed := Some e\<rparr>
      | (Inr (CancelRequest raw), t) \<Rightarrow> pg_run_cancel E l raw (ses\<lparr>PgSecure := Some t\<rparr>)
      | (Inr (Login p params replication), t) \<Rightarrow> pg_open_backend E l p params replication t ses)"

end
