(* ===== verification/Fakedb.thy ===== *)
theory Fakedb
  imports MySQLProps Postgres
begin

text \<open>
  The upstream servers that the hermetic tests put behind the proxy (\<^verbatim>\<open>internal/fakedb/fakedb.go\<close>): a
  MySQL server, which writes its own packets, and a PostgreSQL server on the messages of
  \<^verbatim>\<open>pgproto3\<close>. Serving a connection is a function of the connection and the server's records; the
  record \<open>pgproto\<close> stands for \<^verbatim>\<open>pgproto3.Backend\<close>, and SHA-1 is a parameter.
\<close>

section \<open>The server\<close>

record fakedb =
  FakeUser :: string
  FakePassword :: string
  NoDeprecateEOF :: bool
  dials :: "string list"
  startups :: "params list"
  cancels :: "32 word list"

text \<open>\<^verbatim>\<open>dial\<close>: the server's end of the pipe is served until it returns.\<close>

definition fake_dial :: "string \<Rightarrow> (conn \<Rightarrow> fakedb \<Rightarrow> 'r) \<Rightarrow> conn \<Rightarrow> fakedb \<Rightarrow> 'r" where
  "fake_dial addr serve backend s = serve backend (s\<lparr>dials := dials s @ [addr]\<rparr>)"

section \<open>MySQL\<close>

subsection \<open>Packets\<close>

definition fake_myRead :: "(bytes \<times> byte) io" where
  "fake_myRead = bindIO (ReadFull 4) (\<lambda>h. bindIO (ReadFull (or24 (h ! 0) (h ! 1) (h ! 2))) (\<lambda>b. returnIO (b, h ! 3)))"

definition fake_myWrite :: "byte \<Rightarrow> bytes \<Rightarrow> unit io" where
  "fake_myWrite seq b = WriteConn (my_header seq b @ b)"

definition fake_myOK :: "byte \<Rightarrow> bytes" where
  "fake_myOK header = [header, 0, 0, 2, 0, 0, 0]"

fun fake_write_all :: "(byte \<times> bytes) list \<Rightarrow> unit io" where
  "fake_write_all [] = returnIO ()"
| "fake_write_all ((seq, b) # ps) = bindIO (fake_myWrite seq b) (\<lambda>_. fake_write_all ps)"

subsection \<open>The handshake\<close>

definition myProtocol41 :: caps where "myProtocol41 = push_bit 9 1"
definition mySecureConn :: caps where "mySecureConn = push_bit 15 1"
definition myLongPassword :: caps where "myLongPassword = 1"
definition myLongFlag :: caps where "myLongFlag = push_bit 2 1"
definition myConnectWithDB :: caps where "myConnectWithDB = push_bit 3 1"
definition myTransactions :: caps where "myTransactions = push_bit 13 1"
definition myMultiResults :: caps where "myMultiResults = push_bit 17 1"
definition myPluginAuth :: caps where "myPluginAuth = push_bit 19 1"
definition myPluginLenenc :: caps where "myPluginLenenc = push_bit 21 1"
definition myDeprecateEOF :: caps where "myDeprecateEOF = push_bit 24 1"

lemmas fake_caps_defs = myProtocol41_def mySecureConn_def myLongPassword_def myLongFlag_def
  myConnectWithDB_def myTransactions_def myMultiResults_def myPluginAuth_def myPluginLenenc_def
  myDeprecateEOF_def

definition fake_caps :: "bool \<Rightarrow> caps" where
  "fake_caps noDeprecateEOF =
     (let caps = myProtocol41 OR mySecureConn OR myLongPassword OR myLongFlag OR myConnectWithDB OR
        myTransactions OR myMultiResults OR myPluginAuth OR myPluginLenenc in
      if \<not> noDeprecateEOF then caps OR myDeprecateEOF else caps)"

definition fake_salt :: bytes where
  "fake_salt = bytes_of_string ''abcdefghij0123456789''"

definition fake_greeting :: "caps \<Rightarrow> bytes" where
  "fake_greeting caps =
     [10] @ bytes_of_string (''8.0.0-fake'' @ [NUL]) @ le_bytes 4 7 @ take 8 fake_salt @ [0] @
     le_bytes 2 (unat caps) @ [45] @ le_bytes 2 2 @ le_bytes 2 (unat (drop_bit 16 caps)) @ [21] @
     replicate 10 0 @ drop 8 fake_salt @ [0] @ bytes_of_string (''mysql_native_password'' @ [NUL])"

definition nativeScramble :: "(bytes \<Rightarrow> bytes) \<Rightarrow> bytes \<Rightarrow> string \<Rightarrow> bytes" where
  "nativeScramble sha1 salt password =
     (let a = sha1 (bytes_of_string password); b = sha1 a; c = sha1 (salt @ b)
      in map2 (\<lambda>x y. x XOR y) a c)"

text \<open>\<^verbatim>\<open>bytes.Cut(b, []byte{0})\<close>, without whether it was found.\<close>

definition cut_nul :: "bytes \<Rightarrow> bytes \<times> bytes" where
  "cut_nul b = (takeWhile (\<lambda>x. x \<noteq> 0) b, tl (dropWhile (\<lambda>x. x \<noteq> 0) b))"

text \<open>The length-prefixed scramble, which is left where it is when it does not fit.\<close>

definition fake_auth :: "bytes \<Rightarrow> (bytes \<times> bytes) result" where
  "fake_auth rest =
     (if length rest > 0 then
        tryR (index_go rest 0) (\<lambda>x.
        let n = unat x in
        if n + 1 \<le> length rest then
          tryR (slice_to rest (1 + n)) (\<lambda>a. tryR (slice_from a 1) (\<lambda>auth.
          tryR (slice_from rest (1 + n)) (\<lambda>rest. Inr (auth, rest))))
        else Inr ([], rest))
      else Inr ([], rest))"

text \<open>User name, scramble and database of a handshake response.\<close>

definition fake_response :: "bytes \<Rightarrow> (bytes \<times> bytes \<times> bytes) result" where
  "fake_response resp =
     tryR (slice_from resp 32) (\<lambda>rest.
     let (user, rest) = cut_nul rest in
     tryR (fake_auth rest) (\<lambda>(auth, rest).
     Inr (user, auth, fst (cut_nul rest))))"

subsection \<open>Commands\<close>

definition fake_eof :: bytes where
  "fake_eof = [0xfe, 0, 0, 2, 0]"

definition fake_column :: bytes where
  "fake_column =
     concat (map (\<lambda>v. word_of_nat (length v) # bytes_of_string v) [''def'', [], [], [], ''current_user()'', []]) @
     [0x0c, 33, 0, 0, 1, 0, 0, 0xfd, 0, 0, 0, 0, 0]"

definition fake_row :: "string \<Rightarrow> bytes" where
  "fake_row user = (let row = user @ ''@%'' in word_of_nat (length row) # bytes_of_string row)"

definition fake_result :: "caps \<Rightarrow> string \<Rightarrow> bytes list" where
  "fake_result caps user =
     [[1], fake_column] @
     (if caps AND myDeprecateEOF = 0 then [fake_eof] else []) @
     [fake_row user] @
     (if caps AND myDeprecateEOF = 0 then [fake_eof] else [fake_myOK 0xfe])"

definition fake_error :: "byte \<Rightarrow> byte \<Rightarrow> string \<Rightarrow> bytes" where
  "fake_error lo hi msg = [0xff, lo, hi] @ bytes_of_string (CHR ''#'' # msg)"

text \<open>The packets that answer a command, with their sequence numbers.\<close>

definition fake_answer :: "caps \<Rightarrow> string \<Rightarrow> bytes \<Rightarrow> (byte \<times> bytes) list" where
  "fake_answer caps user cmd =
     (if cmd ! 0 = 3 then
        (let packets = fake_result caps user in
         map2 (\<lambda>i p. (word_of_nat (i + 1), p)) [0..<length packets] packets)
      else if cmd ! 0 = 0x0e \<or> cmd ! 0 = 2 then [(1, fake_myOK 0)]
      else [(1, fake_error 0x2f 4 ''HY000unsupported'')])"

lemma fake_myRead_consumes: "fake_myRead c = (Inr x, c') \<Longrightarrow> length (Inp c') < length (Inp c)"
  by (auto simp: fake_myRead_def go_simps)

lemma Inp_fake_write_all: "fake_write_all ps c = (r, c') \<Longrightarrow> Inp c' = Inp c"
  by (induction ps arbitrary: c r c' rule: fake_write_all.induct)
    (auto simp: returnIO_def bindIO_def fake_myWrite_def WriteConn_def split: prod.splits sum.splits if_splits)

function fake_commands :: "caps \<Rightarrow> string \<Rightarrow> conn \<Rightarrow> conn" where
  "fake_commands caps user c =
     (case fake_myRead c of
        (Inl _, c1) \<Rightarrow> c1
      | (Inr (cmd, _), c1) \<Rightarrow>
      if length cmd = 0 \<or> cmd ! 0 = 1 then c1
      else case fake_write_all (fake_answer caps user cmd) c1 of
        (Inl _, c2) \<Rightarrow> c2
      | (Inr _, c2) \<Rightarrow> fake_commands caps user c2)"
  by pat_completeness auto

termination
proof (relation "measure (\<lambda>(caps, user, c). length (Inp c))", goal_cases)
  case (2 caps user c x c1 y cmd z w c2 v)
  then show ?case by (auto dest!: fake_myRead_consumes [OF sym] Inp_fake_write_all [OF sym])
qed simp

declare fake_commands.simps [simp del]

definition fake_serveMySQL :: "(bytes \<Rightarrow> bytes) \<Rightarrow> conn \<Rightarrow> fakedb \<Rightarrow> conn \<times> fakedb" where
  "fake_serveMySQL sha1 c s =
     (let caps = fake_caps (NoDeprecateEOF s) in
      case fake_myWrite 0 (fake_greeting caps) c of
        (Inl _, c) \<Rightarrow> (c, s)
      | (Inr _, c) \<Rightarrow>
      case fake_myRead c of
        (Inl _, c) \<Rightarrow> (c, s)
      | (Inr (resp, _), c) \<Rightarrow>
      if length resp < 32 then (c, s)
      else
      let caps = caps AND word32 (take 4 resp) in
      case fake_response resp of
        Inl _ \<Rightarrow> (c, s)
      | Inr (user, auth, db) \<Rightarrow>
      if string_of_bytes user \<noteq> FakeUser s \<or> auth \<noteq> nativeScramble sha1 fake_salt (FakePassword s) then
        (snd (fake_myWrite 2 (fake_error 0x15 4 ''28000Access denied'') c), s)
      else
      let s = s\<lparr>startups := startups s @
            [[''user'' \<mapsto> string_of_bytes user, ''database'' \<mapsto> string_of_bytes db]]\<rparr> in
      case fake_myWrite 2 (fake_myOK 0) c of
        (Inl _, c) \<Rightarrow> (c, s)
      | (Inr _, c) \<Rightarrow> (fake_commands caps (FakeUser s) c, s))"

section \<open>PostgreSQL\<close>

text \<open>The messages of \<^verbatim>\<open>pgproto3\<close> that the server looks at or sends.\<close>

datatype pg_frontend =
    PgCancelRequest "32 word" bytes   \<comment> \<open>process id and secret key\<close>
  | PgStartupMessage params
  | PgPasswordMessage string
  | PgQuery
  | PgTerminate
  | PgOther

datatype pg_backend_message =
    AuthenticationCleartextPassword
  | ErrorResponse string string string   \<comment> \<open>severity, code, message\<close>
  | AuthenticationOk
  | ParameterStatus string string
  | BackendKeyData "32 word" bytes
  | ReadyForQuery char
  | RowDescription "(string \<times> nat \<times> int \<times> int) list"   \<comment> \<open>name, type, size, modifier\<close>
  | DataRow "bytes list"
  | CommandComplete string

record pgproto =
  ReceiveStartupMessage :: "pg_frontend io"
  SetAuthType :: "unit result"
  Receive :: "pg_frontend io"
  EncodeMessage :: "pg_backend_message \<Rightarrow> bytes"

text \<open>\<^verbatim>\<open>Send\<close> of some messages and \<^verbatim>\<open>Flush\<close>, which writes them at once.\<close>

definition pg_flush :: "pgproto \<Rightarrow> pg_backend_message list \<Rightarrow> unit io" where
  "pg_flush B msgs = WriteConn (concat (map (EncodeMessage B) msgs))"

definition pgPID :: "32 word" where "pgPID = 4242"
definition pgSecret :: bytes where "pgSecret = bytes_of_string ''k3y!''"

definition fake_pg_welcome :: "pg_backend_message list" where
  "fake_pg_welcome =
     [AuthenticationOk, ParameterStatus ''server_version'' ''17.0'', BackendKeyData pgPID pgSecret,
      ReadyForQuery CHR ''I'']"

definition fake_pg_result :: "string \<Rightarrow> pg_backend_message list" where
  "fake_pg_result user =
     [RowDescription [(''current_user'', 25, - 1, - 1)], DataRow [bytes_of_string user],
      CommandComplete ''SELECT 1'', ReadyForQuery CHR ''I'']"

text \<open>The loop over queries ends as soon as a message cannot be read; nothing says that it does.\<close>

partial_function (option) fake_pg_queries :: "pgproto \<Rightarrow> string \<Rightarrow> conn \<Rightarrow> conn option" where
  "fake_pg_queries B user c =
     (case Receive B c of (r, c1) \<Rightarrow>
      case r of
        Inl _ \<Rightarrow> Some c1
      | Inr msg \<Rightarrow>
      if msg = PgQuery then
        (case pg_flush B (fake_pg_result user) c1 of (w, c2) \<Rightarrow>
         case w of Inl _ \<Rightarrow> Some c2 | Inr _ \<Rightarrow> fake_pg_queries B user c2)
      else if msg = PgTerminate then Some c1
      else fake_pg_queries B user c1)"

definition pg_password_ok :: "fakedb \<Rightarrow> params \<Rightarrow> pg_frontend \<Rightarrow> bool" where
  "pg_password_ok s ps pw =
     (case pw of
        PgPasswordMessage p \<Rightarrow> map_get ps ''user'' = FakeUser s \<and> p = FakePassword s
      | _ \<Rightarrow> False)"

definition fake_pg_login :: "pgproto \<Rightarrow> params \<Rightarrow> conn \<Rightarrow> fakedb \<Rightarrow> (conn \<times> fakedb) option" where
  "fake_pg_login B ps c s =
     (case pg_flush B [AuthenticationCleartextPassword] c of
        (Inl _, c) \<Rightarrow> Some (c, s)
      | (Inr _, c) \<Rightarrow>
      case SetAuthType B of
        Inl _ \<Rightarrow> Some (c, s)
      | Inr _ \<Rightarrow>
      case Receive B c of
        (Inl _, c) \<Rightarrow> Some (c, s)
      | (Inr pw, c) \<Rightarrow>
      if \<not> pg_password_ok s ps pw then
        Some (snd (pg_flush B [ErrorResponse ''FATAL'' ''28P01'' ''password authentication failed''] c), s)
      else
      let s = s\<lparr>startups := startups s @ [ps]\<rparr> in
      case pg_flush B fake_pg_welcome c of
        (Inl _, c) \<Rightarrow> Some (c, s)
      | (Inr _, c) \<Rightarrow> map_option (\<lambda>c. (c, s)) (fake_pg_queries B (FakeUser s) c))"

definition fake_servePostgres :: "pgproto \<Rightarrow> conn \<Rightarrow> fakedb \<Rightarrow> (conn \<times> fakedb) option" where
  "fake_servePostgres B c s =
     (case ReceiveStartupMessage B c of
        (Inl _, c) \<Rightarrow> Some (c, s)
      | (Inr (PgCancelRequest pid key), c) \<Rightarrow>
          Some (c, if pid = pgPID \<and> key = pgSecret then s\<lparr>cancels := cancels s @ [pid]\<rparr> else s)
      | (Inr (PgStartupMessage ps), c) \<Rightarrow> fake_pg_login B ps c s
      | (Inr _, c) \<Rightarrow> Some (c, s))"

definition PostgresDialer :: "pgproto \<Rightarrow> string \<Rightarrow> conn \<Rightarrow> fakedb \<Rightarrow> (conn \<times> fakedb) option" where
  "PostgresDialer B addr = fake_dial addr (fake_servePostgres B)"

definition MySQLDialer :: "(bytes \<Rightarrow> bytes) \<Rightarrow> string \<Rightarrow> conn \<Rightarrow> fakedb \<Rightarrow> conn \<times> fakedb" where
  "MySQLDialer sha1 addr = fake_dial addr (fake_serveMySQL sha1)"

end
