(* ===== verification/PostgresProps.thy ===== *)
theory PostgresProps
  imports Postgres
begin

text \<open>
  Correctness of the PostgreSQL front end: the startup packet is read back as the client encoded it,
  behind any number of GSS requests; the loop over these reads a bounded amount; password messages
  are an instance of \<open>framing\<close>; a backend is only ever dialled after TLS and a successful login, with
  the account of the principal that logged in; and what a client is told before the relay starts.
\<close>

section \<open>The startup packet\<close>

text \<open>What a client can send first, its encoding, and the parameters the server makes of it.\<close>

datatype pg_hello =
    HelloStartup "(string \<times> string) list"
  | HelloSSL
  | HelloCancel bytes

definition pg_encode_params :: "(string \<times> string) list \<Rightarrow> bytes" where
  "pg_encode_params ps = bytes_of_string (concat (map (\<lambda>(k, v). k @ [NUL] @ v @ [NUL]) ps)) @ [0]"

fun pg_encode_hello :: "pg_hello \<Rightarrow> bytes" where
  "pg_encode_hello (HelloStartup ps) =
     be_bytes 4 (8 + length (pg_encode_params ps)) @ be_bytes 4 code_v3 @ pg_encode_params ps"
| "pg_encode_hello HelloSSL = be_bytes 4 8 @ be_bytes 4 code_ssl"
| "pg_encode_hello (HelloCancel key) = be_bytes 4 16 @ be_bytes 4 code_cancel @ key"

definition pg_encode_gss :: bytes where
  "pg_encode_gss = be_bytes 4 8 @ be_bytes 4 code_gss"

fun pg_hello_ok :: "pg_hello \<Rightarrow> bool" where
  "pg_hello_ok (HelloStartup ps) \<longleftrightarrow>
     (\<forall>(k, v)\<in>set ps. k \<noteq> [] \<and> NUL \<notin> set k \<and> NUL \<notin> set v) \<and> 8 + length (pg_encode_params ps) \<le> pg_max"
| "pg_hello_ok HelloSSL \<longleftrightarrow> True"
| "pg_hello_ok (HelloCancel key) \<longleftrightarrow> length key = 8"

fun pg_hello_params :: "pg_hello \<Rightarrow> params" where
  "pg_hello_params (HelloStartup ps) = map_of (rev ps)"
| "pg_hello_params HelloSSL = [''_ssl'' \<mapsto> ''1'']"
| "pg_hello_params (HelloCancel key) = [''_cancel'' \<mapsto> string_of_bytes key]"

lemma Split_terminated:
  "\<forall>f\<in>set fs. sep \<notin> set f \<Longrightarrow> Split (concat (map (\<lambda>f. f @ [sep]) fs)) sep = fs @ [[]]"
proof (induction fs)
  case (Cons f fs)
  then show ?case by (simp add: Split_append)
qed simp

definition pg_flat :: "(string \<times> string) list \<Rightarrow> string list" where
  "pg_flat ps = concat (map (\<lambda>(k, v). [k, v]) ps)"

lemma pg_flat_simps [simp]: "pg_flat [] = []" "pg_flat ((k, v) # ps) = k # v # pg_flat ps"
  by (simp_all add: pg_flat_def)

lemma length_pg_flat: "length (pg_flat ps) mod 2 = 0"
proof (induction ps)
  case (Cons p ps)
  then show ?case by (cases p) simp
qed simp

lemma concat_pg_flat:
  "concat (map (\<lambda>f. f @ [NUL]) (pg_flat ps)) = concat (map (\<lambda>(k, v). k @ [NUL] @ v @ [NUL]) ps)"
proof (induction ps)
  case (Cons p ps)
  then show ?case by (cases p) simp
qed simp

lemma set_pg_flat: "f \<in> set (pg_flat ps) \<longleftrightarrow> (\<exists>(k, v)\<in>set ps. f = k \<or> f = v)"
proof (induction ps)
  case (Cons p ps)
  then show ?case by (cases p) auto
qed simp

lemma pg_params_flat:
  "\<forall>(k, v)\<in>set ps. k \<noteq> [] \<Longrightarrow> pg_params (pg_flat ps) m = Inr (m ++ map_of (rev ps))"
proof (induction ps arbitrary: m)
  case (Cons p ps)
  obtain k v where p: "p = (k, v)" by (cases p)
  have "m ++ map_of (rev ps @ [p]) = m(k \<mapsto> v) ++ map_of (rev ps)" by (simp add: p map_add_assoc)
  with Cons p show ?case by auto
qed simp

lemma pg_parse_encoded:
  assumes "\<forall>(k, v)\<in>set ps. k \<noteq> [] \<and> NUL \<notin> set k \<and> NUL \<notin> set v"
  shows "pg_parse_params (pg_encode_params ps) = Inr (map_of (rev ps))"
proof -
  let ?s = "concat (map (\<lambda>(k, v). k @ [NUL] @ v @ [NUL]) ps)"
  have "Split ?s NUL = pg_flat ps @ [[]]"
    unfolding concat_pg_flat [symmetric] using assms by (intro Split_terminated) (auto simp: set_pg_flat)
  moreover have "pg_params (pg_flat ps) Map.empty = Inr (map_of (rev ps))"
    using pg_params_flat [of ps Map.empty] assms by auto
  ultimately show ?thesis
    by (simp add: pg_parse_params_def pg_encode_params_def length_pg_flat nth_append)
qed

lemma code_small: "code_gss < 256 ^ 4" "code_cancel < 256 ^ 4" "code_ssl < 256 ^ 4" "code_v3 < 256 ^ 4"
  by (simp_all add: code_defs)

lemma code_distinct [simp]: "code_cancel \<noteq> code_gss" "code_ssl \<noteq> code_gss" "code_ssl \<noteq> code_cancel"
  "code_v3 \<noteq> code_gss" "code_v3 \<noteq> code_cancel" "code_v3 \<noteq> code_ssl"
  by (simp_all add: code_defs)

lemma pg_head:
  assumes "Inp c = be_bytes 4 n @ be_bytes 4 code @ rest" "n < 256 ^ 4" "code < 256 ^ 4"
  shows "\<exists>head. ReadFull 8 c = (Inr head, c\<lparr>Inp := rest\<rparr>) \<and>
    be_val (take 4 head) = n \<and> be_val (drop 4 head) = code"
  using ReadFull_append [of c "be_bytes 4 n @ be_bytes 4 code" rest 8] assms be_val_be_bytes by auto

lemma pgStartup_other:
  assumes "Inp c = be_bytes 4 n @ be_bytes 4 code @ rest" "8 \<le> n" "n \<le> pg_max" "code < 256 ^ 4" "code \<noteq> code_gss"
  shows "pgStartup c = pg_startup_packet n code (c\<lparr>Inp := rest\<rparr>)"
proof -
  have "n < 256 ^ 4" using assms(3) by (simp add: pg_max_def)
  from pg_head [OF assms(1) this assms(4)] show ?thesis
    using assms(2,3,5) by (subst pgStartup.simps) auto
qed

lemma pgStartup_gss:
  assumes "Inp c = pg_encode_gss @ rest" "Budget c > 0"
  shows "pgStartup c = pgStartup (c\<lparr>Inp := rest, Out := Out c @ [0x4e], Budget := Budget c - 1\<rparr>)"
proof -
  have "Inp c = be_bytes 4 8 @ be_bytes 4 code_gss @ rest" using assms(1) by (simp add: pg_encode_gss_def)
  from pg_head [OF this _ code_small(1)] show ?thesis
    using assms(2) by (subst pgStartup.simps) (auto simp: pg_max_def WriteConn_def)
qed

lemma pgStartup_hello:
  assumes "pg_hello_ok h" "Inp c = pg_encode_hello h @ rest"
  shows "pgStartup c = (Inr (pg_hello_params h), c\<lparr>Inp := rest\<rparr>)"
proof (cases h)
  case (HelloStartup ps)
  let ?b = "pg_encode_params ps"
  have "Inp c = be_bytes 4 (8 + length ?b) @ be_bytes 4 code_v3 @ ?b @ rest" using HelloStartup assms(2) by simp
  then have "pgStartup c = pg_startup_packet (8 + length ?b) code_v3 (c\<lparr>Inp := ?b @ rest\<rparr>)"
    using HelloStartup assms(1) code_small(4) by (intro pgStartup_other) simp_all
  moreover have "ReadFull (length ?b) (c\<lparr>Inp := ?b @ rest\<rparr>) = (Inr ?b, c\<lparr>Inp := rest\<rparr>)"
    using ReadFull_append [of "c\<lparr>Inp := ?b @ rest\<rparr>" ?b rest] by simp
  ultimately show ?thesis
    using HelloStartup assms(1) pg_parse_encoded [of ps] by (simp add: pg_startup_packet_def liftIO_def)
next
  case HelloSSL
  then have "pgStartup c = pg_startup_packet 8 code_ssl (c\<lparr>Inp := rest\<rparr>)"
    using assms code_small(3) by (intro pgStartup_other) (simp_all add: pg_max_def)
  with HelloSSL show ?thesis by (simp add: pg_startup_packet_def returnIO_def)
next
  case (HelloCancel key)
  then have "pgStartup c = pg_startup_packet 16 code_cancel (c\<lparr>Inp := key @ rest\<rparr>)"
    using assms code_small(2) by (intro pgStartup_other) (simp_all add: pg_max_def)
  moreover have "ReadFull 8 (c\<lparr>Inp := key @ rest\<rparr>) = (Inr key, c\<lparr>Inp := rest\<rparr>)"
    using ReadFull_append [of "c\<lparr>Inp := key @ rest\<rparr>" key rest 8] HelloCancel assms(1) by simp
  ultimately show ?thesis using HelloCancel by (simp add: pg_startup_packet_def returnIO_def)
qed

lemma pgStartup_gss_hello:
  assumes "pg_hello_ok h" "Inp c = concat (replicate g pg_encode_gss) @ pg_encode_hello h @ rest" "Budget c \<ge> g"
  shows "pgStartup c =
    (Inr (pg_hello_params h), c\<lparr>Inp := rest, Out := Out c @ replicate g 0x4e, Budget := Budget c - g\<rparr>)"
  using assms(2,3)
proof (induction g arbitrary: c)
  case 0
  then show ?case using pgStartup_hello [OF assms(1)] by simp
next
  case (Suc g)
  let ?r = "concat (replicate g pg_encode_gss) @ pg_encode_hello h @ rest"
  let ?c = "c\<lparr>Inp := ?r, Out := Out c @ [0x4e], Budget := Budget c - 1\<rparr>"
  have "pgStartup c = pgStartup ?c" using Suc.prems by (intro pgStartup_gss) simp_all
  also have "\<dots> = (Inr (pg_hello_params h),
      ?c\<lparr>Inp := rest, Out := Out ?c @ replicate g 0x4e, Budget := Budget ?c - g\<rparr>)"
    using Suc.prems by (intro Suc.IH) simp_all
  finally show ?case by simp
qed

text \<open>
  C30: The server understands what a client sends first. Behind any number of GSS encryption requests,
  each of which it declines with one \<^verbatim>\<open>N\<close>, it reads an SSL request, a cancel request with its
  key, or a startup packet with any parameters (names not empty, no NUL, at most a mebibyte; the last
  value of a repeated name counts), and leaves what follows unread.
\<close>

theorem pgStartup_roundtrip:
  assumes "pg_hello_ok h" and "Inp c = concat (replicate g pg_encode_gss) @ pg_encode_hello h @ rest"
    and "Budget c \<ge> g"
  shows "pgStartup c =
    (Inr (pg_hello_params h), c\<lparr>Inp := rest, Out := Out c @ replicate g 0x4e, Budget := Budget c - g\<rparr>)"
  by (rule pgStartup_gss_hello [OF assms])

subsection \<open>Bounds\<close>

definition reads_at_most :: "nat \<Rightarrow> conn \<Rightarrow> conn \<Rightarrow> bool" where
  "reads_at_most k c c' \<longleftrightarrow> (\<exists>b. Inp c = b @ Inp c' \<and> length b \<le> k) \<and>
     Out c' = Out c \<and> Budget c' = Budget c \<and> Fin c' = Fin c"

lemma reads_at_most_refl [simp]: "reads_at_most k c c"
  by (simp add: reads_at_most_def)

lemma ReadFull_reads: "ReadFull n c = (r, c') \<Longrightarrow> reads_at_most n c c'"
  by (auto simp: ReadFull_def reads_at_most_def split: if_splits intro: exI [of _ "take n (Inp c)"])

lemma pg_params_no_panic: "length fs mod 2 = 0 \<Longrightarrow> pg_params fs m \<noteq> Inl Panic"
  by (induction fs m rule: pg_params.induct) auto

lemma pg_parse_params_no_panic: "pg_parse_params b \<noteq> Inl Panic"
  unfolding pg_parse_params_def Let_def invalid_params_def
  by (intro if_no_panic tryR_no_panic slice_no_panic pg_params_no_panic) (auto simp: invalid_params_def)

lemma pg_startup_packet_bound:
  assumes "pg_startup_packet n code c = (r, c')" "8 \<le> n"
  shows "reads_at_most (n - 8) c c' \<and> (Fin c \<noteq> Panic \<longrightarrow> r \<noteq> Inl Panic)"
proof -
  have *: "reads_at_most k c c'' \<and> (Fin c \<noteq> Panic \<longrightarrow> q \<noteq> Inl Panic)" if "ReadFull k c = (q, c'')" for k q c''
    using ReadFull_reads [OF that] ReadFull_no_panic [of c k] that by auto
  show ?thesis
    using assms pg_parse_params_no_panic * [of "n - 8"] * [of 8]
    by (auto simp: pg_startup_packet_def failIO_def returnIO_def liftIO_def bindIO_def
        split: if_splits sum.splits prod.splits)
qed

definition startup_bound :: "conn \<Rightarrow> params result \<Rightarrow> conn \<Rightarrow> bool" where
  "startup_bound c r c' \<longleftrightarrow> (\<exists>b g. Inp c = b @ Inp c' \<and> 8 * g \<le> length b \<and> length b \<le> 8 * g + pg_max \<and>
     Out c' = Out c @ replicate g 0x4e \<and> Budget c = Budget c' + g \<and> Fin c' = Fin c) \<and>
     (Fin c \<noteq> Panic \<longrightarrow> r \<noteq> Inl Panic)"

lemma startup_bound_reads:
  "reads_at_most k c c' \<Longrightarrow> k \<le> pg_max \<Longrightarrow> (Fin c \<noteq> Panic \<Longrightarrow> r \<noteq> Inl Panic) \<Longrightarrow> startup_bound c r c'"
  by (auto simp: startup_bound_def reads_at_most_def intro!: exI [of _ 0])

lemma startup_bound_gss:
  assumes "Inp c = b @ Inp c2" "length b = 8" "Out c2 = Out c @ [0x4e]" "Budget c = Budget c2 + 1" "Fin c2 = Fin c"
    and "startup_bound c2 r c'"
  shows "startup_bound c r c'"
proof -
  obtain b' g where "Inp c2 = b' @ Inp c'" "8 * g \<le> length b'" "length b' \<le> 8 * g + pg_max"
    "Out c' = Out c2 @ replicate g 0x4e" "Budget c2 = Budget c' + g" "Fin c' = Fin c2"
    using assms(6) by (auto simp: startup_bound_def)
  with assms show ?thesis
    unfolding startup_bound_def by (intro conjI exI [of _ "b @ b'"] exI [of _ "Suc g"]) (auto simp: startup_bound_def)
qed

lemma reads_trans:
  "reads_at_most j c c1 \<Longrightarrow> reads_at_most k c1 c2 \<Longrightarrow> reads_at_most (j + k) c c2"
  by (fastforce simp: reads_at_most_def)

lemma pgStartup_bounded: "pgStartup c = (r, c') \<Longrightarrow> startup_bound c r c'"
proof (induction c arbitrary: r c' rule: pgStartup.induct)
  case (1 c)
  obtain q c1 where q: "ReadFull 8 c = (q, c1)" by (cases "ReadFull 8 c")
  note reads = ReadFull_reads [OF q]
  show ?case
  proof (cases q)
    case (Inl e)
    then have "r = Inl e" "c' = c1" using 1(2) q by (auto simp: pgStartup.simps [of c])
    then show ?thesis
      using reads Inl q ReadFull_no_panic [of c 8] by (intro startup_bound_reads [of 8]) (auto simp: pg_max_def)
  next
    case (Inr head)
    let ?n = "be_val (take 4 head)" and ?code = "be_val (drop 4 head)"
    consider "?n < 8 \<or> ?n > pg_max \<or> ?code = code_gss \<and> ?n \<noteq> 8"
      | "8 \<le> ?n" "?n \<le> pg_max" "?code \<noteq> code_gss" | "?n = 8" "?n \<le> pg_max" "?code = code_gss"
      by linarith
    then show ?thesis
    proof cases
      case 1
      then have "c' = c1" "r \<noteq> Inl Panic"
        using \<open>pgStartup c = (r, c')\<close> q Inr by (auto simp: pgStartup.simps [of c] Let_def split: if_splits)
      then show ?thesis using reads by (intro startup_bound_reads [of 8]) (auto simp: pg_max_def)
    next
      case 2
      then have "pg_startup_packet ?n ?code c1 = (r, c')"
        using \<open>pgStartup c = (r, c')\<close> q Inr by (simp add: pgStartup.simps [of c])
      from pg_startup_packet_bound [OF this 2(1)] reads have
        "reads_at_most ?n c c' \<and> (Fin c \<noteq> Panic \<longrightarrow> r \<noteq> Inl Panic)"
        using reads_trans [OF reads, of "?n - 8" c'] 2(1) by (auto simp: reads_at_most_def)
      then show ?thesis using 2(2) by (intro startup_bound_reads [of ?n]) auto
    next
      case 3
      obtain w c2 where w: "WriteConn [0x4e] c1 = (w, c2)" by (cases "WriteConn [0x4e] c1")
      show ?thesis
      proof (cases w)
        case (Inl e)
        then have "c' = c1" "r \<noteq> Inl Panic"
          using \<open>pgStartup c = (r, c')\<close> q Inr 3 w by (auto simp: pgStartup.simps [of c] WriteConn_def split: if_splits)
        then show ?thesis using reads by (intro startup_bound_reads [of 8]) (auto simp: pg_max_def)
      next
        case (Inr u)
        have "pgStartup c2 = (r, c')"
          using \<open>pgStartup c = (r, c')\<close> q \<open>q = Inr head\<close> 3 w Inr by (simp add: pgStartup.simps [of c])
        then have "startup_bound c2 r c'"
          using 1(1) [OF q [symmetric] \<open>q = Inr head\<close> refl refl _ _ _ w [symmetric] Inr] 3 by simp
        moreover have "c2 = c1\<lparr>Out := Out c1 @ [0x4e], Budget := Budget c1 - 1\<rparr>" "Budget c1 > 0"
          using w Inr by (simp_all add: WriteConn_Inr)
        moreover have "length head = 8" "Inp c = head @ Inp c1"
          using q \<open>q = Inr head\<close> by (simp_all add: ReadFull_Inr)
        ultimately show ?thesis
          using reads by (intro startup_bound_gss [of c head c2]) (auto simp: reads_at_most_def)
      qed
    qed
  qed
qed

text \<open>
  C31: The startup loop is bounded and never panics. Whatever arrives, it consumes at least eight bytes
  per GSS request that it answers with one \<^verbatim>\<open>N\<close>, at most a mebibyte beyond these, writes
  nothing else, and no index or slice of the packet is out of range.
\<close>

theorem pgStartup_bounds:
  assumes "pgStartup c = (r, c')"
  shows "(\<exists>b g. Inp c = b @ Inp c' \<and> 8 * g \<le> length b \<and> length b \<le> 8 * g + pg_max \<and>
      Out c' = Out c @ replicate g 0x4e \<and> Budget c = Budget c' + g) \<and>
    (Fin c \<noteq> Panic \<longrightarrow> r \<noteq> Inl Panic)"
  using pgStartup_bounded [OF assms] unfolding startup_bound_def by blast

text \<open>
  The parameter names \<^verbatim>\<open>_cancel\<close> and \<^verbatim>\<open>_ssl\<close> are taken from the client: a startup packet that
  uses them as parameters is served as a cancel request or an SSL request.
\<close>

lemma pgStartup_hello_fst:
  "pg_hello_ok h \<Longrightarrow> Inp c = pg_encode_hello h \<Longrightarrow> fst (pgStartup c) = Inr (pg_hello_params h)"
  using pgStartup_hello [of h c "[]"] by simp

lemma pg_reserved_parameters:
  assumes "length key = 8" "0 \<notin> set key" "Inp c = pg_encode_hello (HelloCancel key)"
    "Inp c' = pg_encode_hello (HelloStartup [(''_cancel'', string_of_bytes key)])"
  shows "fst (pgStartup c) = fst (pgStartup c')"
proof -
  have "pg_hello_ok (HelloStartup [(''_cancel'', string_of_bytes key)])" "pg_hello_ok (HelloCancel key)"
    using assms(1,2) by (simp_all add: pg_encode_params_def pg_max_def)
  from pgStartup_hello_fst [OF this(1) assms(4)] pgStartup_hello_fst [OF this(2) assms(3)]
  show ?thesis by simp
qed

lemma pg_ssl_parameter:
  assumes "Inp c = pg_encode_hello HelloSSL" "Inp c' = pg_encode_hello (HelloStartup [(''_ssl'', ''1'')])"
  shows "fst (pgStartup c) = fst (pgStartup c')"
proof -
  have "pg_hello_ok (HelloStartup [(''_ssl'', ''1'')])" "pg_hello_ok HelloSSL"
    by (simp_all add: pg_encode_params_def pg_max_def)
  from pgStartup_hello_fst [OF this(1) assms(2)] pgStartup_hello_fst [OF this(2) assms(1)]
  show ?thesis by simp
qed

section \<open>Passwords\<close>

definition pg_password_frame :: "unit \<Rightarrow> bytes \<Rightarrow> bytes" where
  "pg_password_frame u password = pg_frame 0x70 (password @ [0])"

definition pg_read_password :: "(unit \<times> bytes) io" where
  "pg_read_password = bindIO pgPassword (\<lambda>p. returnIO ((), bytes_of_string p))"

lemma pgPassword_frame:
  assumes "length p + 5 \<le> pg_max" "Inp c = pg_password_frame () p @ rest"
  shows "pgPassword c = (Inr (string_of_bytes p), c\<lparr>Inp := rest\<rparr>)"
proof -
  let ?n = "5 + length p"
  have n: "?n < 256 ^ 4" using assms(1) by (simp add: pg_max_def)
  have "ReadFull 5 c = (Inr (0x70 # be_bytes 4 ?n), c\<lparr>Inp := p @ 0 # rest\<rparr>)"
    using assms(2) by (intro ReadFull_append) (simp_all add: pg_password_frame_def pg_frame_def)
  moreover have "ReadFull (Suc (length p)) (c\<lparr>Inp := p @ 0 # rest\<rparr>) = (Inr (p @ [0]), c\<lparr>Inp := rest\<rparr>)"
    using ReadFull_append [of "c\<lparr>Inp := p @ 0 # rest\<rparr>" "p @ [0]" rest] by simp
  ultimately show ?thesis
    using assms(1) be_val_be_bytes [OF n] by (simp add: pgPassword_def liftIO_def nth_append)
qed

interpretation pg_passwords: framing pg_password_frame "\<lambda>b. length b + 5 \<le> pg_max" pg_read_password
  by unfold_locales (simp add: pg_read_password_def pgPassword_frame returnIO_def)

lemma pgPassword_Inr:
  assumes "pgPassword c = (Inr p, c')"
  shows "Inp c = pg_password_frame () (bytes_of_string p) @ Inp c' \<and> c' = c\<lparr>Inp := Inp c'\<rparr>"
proof -
  obtain head c1 where h: "ReadFull 5 c = (Inr head, c1)" "head ! 0 = 0x70"
    and n: "5 \<le> be_val (drop 1 head)"
    and r: "bindIO (ReadFull (be_val (drop 1 head) - 4)) (\<lambda>b.
       liftIO (tryR (index_go b (length b - 1)) (\<lambda>x.
       if x \<noteq> 0 then Inl (NewErr ''unterminated password'')
       else tryR (slice_to b (length b - 1)) (\<lambda>p. Inr (string_of_bytes p))))) c1 = (Inr p, c')"
    using assms by (auto simp: pgPassword_def bindIO_Inr_iff Let_def split: if_splits)
  obtain b where b: "ReadFull (be_val (drop 1 head) - 4) c1 = (Inr b, c')"
    and p: "index_go b (length b - 1) = Inr 0" "string_of_bytes (take (length b - 1) b) = p"
    using r by (auto simp: bindIO_Inr_iff tryR_Inr_iff slice_to_def split: if_splits)
  let ?n = "be_val (drop 1 head)"
  have l: "length head = 5" "Inp c = head @ Inp c1" "c1 = c\<lparr>Inp := Inp c1\<rparr>" using h(1) by (simp_all add: ReadFull_Inr)
  have m: "length b = ?n - 4" "Inp c1 = b @ Inp c'" "c' = c1\<lparr>Inp := Inp c'\<rparr>" using b by (simp_all add: ReadFull_Inr)
  have "b \<noteq> []" using p(1) by (auto simp: index_go_def)
  then have "b = take (length b - 1) b @ [0]" using p(1)
    by (metis One_nat_def append_butlast_last_id butlast_conv_take diff_less index_go_ok last_conv_nth
        length_greater_0_conv lessI sum.inject(2))
  then have pb: "b = bytes_of_string p @ [0]" using p(2) by auto
  have "head = 0x70 # drop 1 head" using l(1) h(2) by (cases head) auto
  moreover have "drop 1 head = be_bytes 4 ?n"
  proof -
    have "length (rev (drop 1 head)) = 4" using l(1) by simp
    then have "le_bytes 4 (le_val (rev (drop 1 head))) = rev (drop 1 head)" using le_bytes_le_val by metis
    then show ?thesis by (simp add: be_bytes_def be_val_def)
  qed
  moreover have "?n = 4 + length b" using m(1) n by simp
  ultimately have "head = 0x70 # be_bytes 4 (4 + length b)" by metis
  then have "Inp c = pg_password_frame () (bytes_of_string p) @ Inp c'"
    using l(2) m(2) pb by (simp add: pg_password_frame_def pg_frame_def)
  moreover have "c' = c\<lparr>Inp := Inp c'\<rparr>" using l(3) m(3) by (metis conn.fold_congs(1) conn.surjective conn.update_convs(1))
  ultimately show ?thesis by simp
qed

section \<open>Replication\<close>

text \<open>
  The comment of \<^verbatim>\<open>pgReplicationMode\<close> announces PostgreSQL's parsing. Of PostgreSQL's boolean
  spellings the unique prefixes such as \<^verbatim>\<open>t\<close> are refused, and \<^verbatim>\<open>DATABASE\<close> is accepted.
\<close>

lemma pgReplicationMode_examples:
  "pgReplicationMode ul ''t'' = Inl (NewErr ''invalid replication parameter'')"
  "pgReplicationMode ul ''DATABASE'' = Inr ''database''"
  by (simp_all add: pgReplicationMode_def ToLower_def ascii_char_def lower_char_def char_of_def bit_Suc_0_iff)

lemma pgReplicationMode_modes: "pgReplicationMode ul v = Inr m \<Longrightarrow> m = [] \<or> m = ''true'' \<or> m = ''database''"
  unfolding pgReplicationMode_def Let_def by (simp only: if_Inl_Inr split: if_splits) auto

end
