(* ===== verification/PostgresSession.thy ===== *)
theory PostgresSession
  imports PostgresProps
begin

text \<open>
  PostgreSQL sessions: what each stage has to have done when a session reaches a backend or is
  relayed, and the registry of cancel keys with the sessions that are live in it.
\<close>

section \<open>Stages\<close>

lemma pg_refuse_Inr [simp]: "pg_refuse code msg e c \<noteq> (Inr y, c')"
  by (simp add: pg_refuse_def)

lemma case_refuse_Inr [go_simps]:
  "(case r of Inl e \<Rightarrow> pg_refuse code msg e | Inr x \<Rightarrow> f x) c = (Inr y, c') \<longleftrightarrow>
     (\<exists>x. r = Inr x \<and> f x c = (Inr y, c'))"
  by (cases r) simp_all

lemma pgWrite_Inr: "pgWrite typ b c = (Inr u, c') \<longleftrightarrow>
    Budget c > 0 \<and> c' = c\<lparr>Out := Out c @ pg_frame typ b, Budget := Budget c - 1\<rparr>"
  by (simp add: pgWrite_def WriteConn_Inr)


definition pg_logged_in ::
  "platform \<Rightarrow> service \<Rightarrow> pg_env \<Rightarrow> Listener \<Rightarrow> conn \<Rightarrow> Principal \<Rightarrow> params \<Rightarrow> string \<Rightarrow> conn \<Rightarrow> bool" where
  "pg_logged_in P s E l t p params replication t' \<longleftrightarrow>
     (\<exists>t1 t2 password. pgStartup t = (Inr params, t1) \<and> pgWrite 0x52 (be_bytes 4 3) t1 = (Inr (), t2) \<and>
        pgPassword t2 = (Inr password, t') \<and>
        params ''_cancel'' = None \<and> map_get params ''_ssl'' = [] \<and> map_get params ''user'' \<noteq> [] \<and>
        pgReplicationMode (unicode_lower P) (map_get params ''replication'') = Inr replication \<and>
        Validate P s l (map_get params ''user'') password (PgNow1 E) (PgNow2 E) = Inr p)"

lemma pg_authenticate_Login:
  "pg_authenticate P s E l t = (Inr (Login p params replication), t') \<longleftrightarrow>
     pg_logged_in P s E l t p params replication t'"
proof
  assume "pg_authenticate P s E l t = (Inr (Login p params replication), t')"
  then show "pg_logged_in P s E l t p params replication t'"
    unfolding pg_authenticate_def pg_logged_in_def Let_def
    by (auto simp: bindIO_Inr_iff case_refuse_Inr split: option.splits if_splits)
next
  assume "pg_logged_in P s E l t p params replication t'"
  then show "pg_authenticate P s E l t = (Inr (Login p params replication), t')"
    unfolding pg_authenticate_def pg_logged_in_def Let_def by (auto simp: returnIO_def)
qed



section \<open>Reaching a backend\<close>

lemma pg_open_backend_simps [simp]:
  "PgPlain (pg_open_backend E l p params r c ses) = PgPlain ses"
  "PgCanceled (pg_open_backend E l p params r c ses) = PgCanceled ses"
  by (simp_all add: pg_open_backend_def Let_def split: sum.split prod.split)

lemma pg_run_cancel_simps [simp]:
  "PgPlain (pg_run_cancel E l raw ses) = PgPlain ses"
  "PgDialed (pg_run_cancel E l raw ses) = PgDialed ses"
  "PgRelayed (pg_run_cancel E l raw ses) = PgRelayed ses"
  "PgKey (pg_run_cancel E l raw ses) = PgKey ses"
  "PgSecure (pg_run_cancel E l raw ses) = PgSecure ses"
  by (simp_all add: pg_run_cancel_def split: prod.split)


lemma pg_session0_simps [simp]:
  "PgPlain (pg_session0 c) = c" "PgSecure (pg_session0 c) = None" "PgDialed (pg_session0 c) = None"
  "PgRelayed (pg_session0 c) = None" "PgKey (pg_session0 c) = None" "PgCanceled (pg_session0 c) = None"
  "PgFailed (pg_session0 c) = None"
  by (simp_all add: pg_session0_def)

text \<open>A session either logs in and goes on to the backend, or it never dials one.\<close>

lemma servePostgres_cases:
  obtains (idle) "PgDialed (servePostgres P s E c l) = None" "PgRelayed (servePostgres P s E c l) = None"
      "PgKey (servePostgres P s E c l) = None" "PgCanceled (servePostgres P s E c l) = None"
  | (cancelled) raw ses where "servePostgres P s E c l = pg_run_cancel E l raw ses"
      "PgDialed ses = None" "PgRelayed ses = None" "PgKey ses = None"
  | (login) c1 t p params replication t' where "pg_plaintext c = (Inr None, c1)" "PgHandshake E c1 = Inr t"
      "pg_logged_in P s E l t p params replication t'"
      "servePostgres P s E c l = pg_open_backend E l p params replication t' (pg_session0 c1)"
proof (cases "pg_plaintext c")
  case (Pair q c1)
  show ?thesis
  proof (cases q)
    case (Inl e)
    with Pair show ?thesis by (intro idle) (simp_all add: servePostgres_def)
  next
    case (Inr o1)
    show ?thesis
    proof (cases o1)
      case (Some raw)
      with Pair Inr show ?thesis by (intro cancelled [of raw "pg_session0 c1"]) (simp_all add: servePostgres_def)
    next
      case None
      note plain = Pair [unfolded Inr None]
      show ?thesis
      proof (cases "PgHandshake E c1")
        case (Inl e)
        with plain show ?thesis by (intro idle) (simp_all add: servePostgres_def Let_def)
      next
        case (Inr t)
        obtain a t' where a: "pg_authenticate P s E l t = (a, t')" by (cases "pg_authenticate P s E l t")
        show ?thesis
        proof (cases a)
          case (Inl e)
          with plain Inr a show ?thesis by (intro idle) (simp_all add: servePostgres_def)
        next
          case req: (Inr req)
          show ?thesis
          proof (cases req)
            case (CancelRequest raw)
            then have "servePostgres P s E c l = pg_run_cancel E l raw ((pg_session0 c1)\<lparr>PgSecure := Some t'\<rparr>)"
              using plain Inr a req by (simp add: servePostgres_def)
            then show ?thesis by (rule cancelled) simp_all
          next
            case (Login p params replication)
            then have "servePostgres P s E c l = pg_open_backend E l p params replication t' (pg_session0 c1)"
              using plain Inr a req by (simp add: servePostgres_def)
            with plain Inr a req Login show ?thesis
              by (intro login) (simp_all add: pg_authenticate_Login [symmetric])
          qed
        qed
      qed
    qed
  qed
qed


section \<open>The handoff\<close>

definition pg_frames :: "(byte \<times> bytes) list \<Rightarrow> bytes" where
  "pg_frames ms = concat (map (\<lambda>(typ, body). pg_frame typ body) ms)"

lemma pg_frames_simps [simp]:
  "pg_frames [] = []" "pg_frames ((typ, body) # ms) = pg_frame typ body @ pg_frames ms"
  "pg_frames (ms @ ms') = pg_frames ms @ pg_frames ms'"
  by (simp_all add: pg_frames_def)

definition pg_status :: "(string \<times> string) list \<Rightarrow> string \<Rightarrow> byte \<times> bytes" where
  "pg_status m k = (0x53, bytes_of_string (k @ [NUL] @ map_get (map_of m) k @ [NUL]))"

definition pg_key_data :: "pg_hijacked \<Rightarrow> bytes" where
  "pg_key_data h = be_bytes 4 (unat (PID h)) @ SecretKey h"

lemma pg_send_statuses_Inr:
  "pg_send_statuses ks m c = (Inr u, c') \<Longrightarrow> Out c' = Out c @ pg_frames (map (pg_status m) ks)"
proof (induction ks arbitrary: c)
  case (Cons k ks)
  from Cons.prems obtain c1 where "pgWrite 0x53 (snd (pg_status m k)) c = (Inr (), c1)"
    "pg_send_statuses ks m c1 = (Inr u, c')"
    by (auto simp: bindIO_Inr_iff pg_status_def)
  with Cons.IH [of c1] show ?case by (simp add: pg_status_def pgWrite_Inr)
qed simp

lemma pg_ready_Inr:
  assumes "pg_ready h c = (Inr k, c')"
  shows "length (SecretKey h) = 4 \<and> k = string_of_bytes (pg_key_data h) \<and>
    Out c' = Out c @ pg_frames ([(0x52, [0, 0, 0, 0])] @
      map (pg_status (ParameterStatuses h)) (sort (map fst (ParameterStatuses h))) @
      [(0x4b, pg_key_data h), (0x5a, [TxStatus h])])"
proof -
  obtain c1 c2 where r: "pgWrite 0x52 [0, 0, 0, 0] c = (Inr (), c1)"
    "pg_send_statuses (sort (map fst (ParameterStatuses h))) (ParameterStatuses h) c1 = (Inr (), c2)"
    "length (SecretKey h) = 4" "Out c' = Out c2 @ pg_frames [(0x4b, pg_key_data h), (0x5a, [TxStatus h])]"
    "k = string_of_bytes (pg_key_data h)"
    using assms by (auto simp: pg_ready_def bindIO_Inr_iff pgWrite_Inr pg_key_data_def Let_def split: if_splits)
  with pg_send_statuses_Inr [OF r(2)] show ?thesis by (simp add: pgWrite_Inr)
qed

lemma pg_open_backend_cases:
  obtains (fail) "PgRelayed (pg_open_backend E l p params r c (pg_session0 c0)) = None"
      "PgKey (pg_open_backend E l p params r c (pg_session0 c0)) = None"
  | (relay) d b h k c' where "pg_dial_of l p params r (PgParse E) = Inr d" "PgConnect E d = Inr b"
      "Hijack b = Inr h" "pg_ready h c = (Inr k, c')"
      "pg_open_backend E l p params r c (pg_session0 c0) = (pg_session0 c0)\<lparr>PgDialed := Some d, PgSecure := Some c',
         PgRelayed := Some (c', HijackedConn h), PgKey := Some (Name l @ k)\<rparr>"
proof (cases "PgRelayed (pg_open_backend E l p params r c (pg_session0 c0)) = None \<and>
    PgKey (pg_open_backend E l p params r c (pg_session0 c0)) = None")
  case False
  then obtain d b h k c' where *: "pg_dial_of l p params r (PgParse E) = Inr d" "PgConnect E d = Inr b"
    "SyncConn b = Inr ()" "Hijack b = Inr h" "pg_ready h c = (Inr k, c')"
    by (auto simp: pg_open_backend_def Let_def split: sum.splits prod.splits)
  then show ?thesis by (intro relay) (simp_all add: pg_open_backend_def)
qed (auto intro: fail)

text \<open>
  C26: What the client of a relayed session has seen. After TLS it was asked for its password, and after
  the login it received exactly AuthenticationOk, the backend's parameters in the order of their
  names, the backend's process and secret key (of four bytes), and ReadyForQuery with the backend's
  transaction status; then its connection is relayed with the very connection taken over from the
  backend, under a cancel key made of the listener's name and the key the client was told.
\<close>

theorem servePostgres_handoff:
  assumes "PgRelayed (servePostgres P s E c l) = Some (front, upstream)"
  shows "\<exists>t d b h g. PgHandshake E (PgPlain (servePostgres P s E c l)) = Inr t \<and>
    PgDialed (servePostgres P s E c l) = Some d \<and> PgConnect E d = Inr b \<and> Hijack b = Inr h \<and>
    upstream = HijackedConn h \<and> PgFailed (servePostgres P s E c l) = None \<and>
    length (SecretKey h) = 4 \<and>
    Out front = Out t @ replicate g 0x4e @ pg_frames ([(0x52, be_bytes 4 3), (0x52, [0, 0, 0, 0])] @
      map (pg_status (ParameterStatuses h)) (sort (map fst (ParameterStatuses h))) @
      [(0x4b, pg_key_data h), (0x5a, [TxStatus h])]) \<and>
    PgKey (servePostgres P s E c l) = Some (Name l @ string_of_bytes (pg_key_data h))"
proof (cases rule: servePostgres_cases [of P s E c l])
  case (login c1 t p params replication t')
  obtain t1 t2 password where a: "pgStartup t = (Inr params, t1)" "pgWrite 0x52 (be_bytes 4 3) t1 = (Inr (), t2)"
    "pgPassword t2 = (Inr password, t')"
    using login(3) by (auto simp: pg_logged_in_def)
  from pgStartup_bounded [OF a(1)] obtain g where "Out t1 = Out t @ replicate g 0x4e"
    by (auto simp: startup_bound_def)
  moreover have "t' = t2\<lparr>Inp := Inp t'\<rparr>" using pgPassword_Inr [OF a(3)] by blast
  then have "Out t' = Out t2" by (metis conn.select_convs(3) conn.surjective conn.update_convs(1))
  ultimately have out: "Out t' = Out t @ replicate g 0x4e @ pg_frame 0x52 (be_bytes 4 3)"
    using a(2) by (simp add: pgWrite_Inr)
  show ?thesis
  proof (cases rule: pg_open_backend_cases [of E l p params replication t' c1])
    case (relay d b h k c')
    with assms login(4) have front: "front = c'" "upstream = HijackedConn h" by simp_all
    have "PgHandshake E (PgPlain (servePostgres P s E c l)) = Inr t" using login(2,4) by simp
    moreover have "PgFailed (servePostgres P s E c l) = None" "PgDialed (servePostgres P s E c l) = Some d"
      "PgKey (servePostgres P s E c l) = Some (Name l @ k)"
      by (simp_all add: login(4) relay(5))
    ultimately show ?thesis
      using relay(2,3) pg_ready_Inr [OF relay(4)] out front
      by (intro exI [of _ t] exI [of _ d] exI [of _ b] exI [of _ h] exI [of _ g]) simp
  qed (use assms login(4) in simp_all)
qed (use assms in simp_all)

end
