(* ===== verification/PostgresCancel.thy ===== *)
theory PostgresCancel
  imports PostgresSession
begin

text \<open>
  The registry of cancel keys over the life of the emulator: sessions store their key when they start
  to relay and delete it when the relay ends. The state adds to the code's registry the sessions that
  are live, and the keys that were handed out while another live session already had them.
\<close>

section \<open>The registry\<close>

record pg_emulator =
  Cancels :: "string \<rightharpoonup> string"
  LiveSessions :: "nat \<rightharpoonup> Listener \<times> string"
  SharedKeys :: "string set"

definition pg_start :: pg_emulator where
  "pg_start = \<lparr>Cancels = Map.empty, LiveSessions = Map.empty, SharedKeys = {}\<rparr>"

definition pg_live_key :: "pg_emulator \<Rightarrow> string \<Rightarrow> bool" where
  "pg_live_key r k \<longleftrightarrow> (\<exists>sid l. LiveSessions r sid = Some (l, k))"

text \<open>\<^verbatim>\<open>e.cancels.Store(l.Name+cancelKey, pgCancelTarget{l.Upstream})\<close>\<close>

definition pg_store :: "nat \<Rightarrow> Listener \<Rightarrow> string \<Rightarrow> pg_emulator \<Rightarrow> pg_emulator" where
  "pg_store sid l k r =
     r\<lparr>Cancels := (Cancels r)(k \<mapsto> Upstream l), LiveSessions := (LiveSessions r)(sid \<mapsto> (l, k)),
       SharedKeys := (if pg_live_key r k then insert k (SharedKeys r) else SharedKeys r)\<rparr>"

text \<open>\<^verbatim>\<open>e.cancels.Delete(l.Name + cancelKey)\<close>\<close>

definition pg_delete :: "nat \<Rightarrow> string \<Rightarrow> pg_emulator \<Rightarrow> pg_emulator" where
  "pg_delete sid k r =
     r\<lparr>Cancels := (Cancels r)(k := None), LiveSessions := (LiveSessions r)(sid := None)\<rparr>"

inductive pg_run :: "platform \<Rightarrow> service \<Rightarrow> pg_emulator \<Rightarrow> bool" for P s where
  run_start: "pg_run P s pg_start"
| run_open: "pg_run P s r \<Longrightarrow> l \<in> set (Listeners (SConfig s)) \<Longrightarrow> LiveSessions r sid = None \<Longrightarrow>
    PgKey (servePostgres P s E c l) = Some k \<Longrightarrow> pg_run P s (pg_store sid l k r)"
| run_end: "pg_run P s r \<Longrightarrow> LiveSessions r sid = Some (l, k) \<Longrightarrow> pg_run P s (pg_delete sid k r)"

section \<open>Its invariant\<close>

lemma PgKey_shape:
  assumes "PgKey (servePostgres P s E c l) = Some k"
  shows "\<exists>raw. length raw = 8 \<and> k = Name l @ string_of_bytes raw"
proof (cases rule: servePostgres_cases [of P s E c l])
  case (login c1 t p params replication t')
  show ?thesis
  proof (cases rule: pg_open_backend_cases [of E l p params replication t' c1])
    case (relay d b h k' c')
    with assms login(4) have "k = Name l @ k'" by simp
    with pg_ready_Inr [OF relay(4)] show ?thesis
      by (intro exI [of _ "pg_key_data h"]) (simp add: pg_key_data_def)
  qed (use assms login(4) in simp_all)
qed (use assms in simp_all)

definition pg_registry_inv :: "service \<Rightarrow> pg_emulator \<Rightarrow> bool" where
  "pg_registry_inv s r \<longleftrightarrow>
     (\<forall>sid l k. LiveSessions r sid = Some (l, k) \<longrightarrow>
        l \<in> set (Listeners (SConfig s)) \<and> (\<exists>raw. length raw = 8 \<and> k = Name l @ string_of_bytes raw)) \<and>
     (\<forall>k upstream. Cancels r k = Some upstream \<longrightarrow>
        (\<exists>sid l. LiveSessions r sid = Some (l, k) \<and> upstream = Upstream l)) \<and>
     (\<forall>sid l k. LiveSessions r sid = Some (l, k) \<longrightarrow> k \<notin> SharedKeys r \<longrightarrow>
        Cancels r k = Some (Upstream l) \<and> (\<forall>sid' l'. LiveSessions r sid' = Some (l', k) \<longrightarrow> sid' = sid))"

lemma pg_registry_invD:
  assumes "pg_registry_inv s r"
  shows "LiveSessions r sid = Some (l, k) \<Longrightarrow> l \<in> set (Listeners (SConfig s))"
    "LiveSessions r sid = Some (l, k) \<Longrightarrow> \<exists>raw. length raw = 8 \<and> k = Name l @ string_of_bytes raw"
    "Cancels r k = Some upstream \<Longrightarrow> \<exists>sid l. LiveSessions r sid = Some (l, k) \<and> upstream = Upstream l"
    "LiveSessions r sid = Some (l, k) \<Longrightarrow> k \<notin> SharedKeys r \<Longrightarrow> Cancels r k = Some (Upstream l)"
    "LiveSessions r sid = Some (l, k) \<Longrightarrow> k \<notin> SharedKeys r \<Longrightarrow> LiveSessions r sid' = Some (l', k) \<Longrightarrow> sid' = sid"
  using assms unfolding pg_registry_inv_def by blast+

lemma pg_inv_start: "pg_registry_inv s pg_start"
  by (simp add: pg_registry_inv_def pg_start_def)

lemma pg_store_simps [simp]:
  "LiveSessions (pg_store sid l k r) sid' = (if sid' = sid then Some (l, k) else LiveSessions r sid')"
  "Cancels (pg_store sid l k r) k' = (if k' = k then Some (Upstream l) else Cancels r k')"
  "k' \<in> SharedKeys (pg_store sid l k r) \<longleftrightarrow> k' \<in> SharedKeys r \<or> k' = k \<and> pg_live_key r k"
  by (auto simp: pg_store_def)

lemma pg_delete_simps [simp]:
  "LiveSessions (pg_delete sid k r) sid' = (if sid' = sid then None else LiveSessions r sid')"
  "Cancels (pg_delete sid k r) k' = (if k' = k then None else Cancels r k')"
  "SharedKeys (pg_delete sid k r) = SharedKeys r"
  by (simp_all add: pg_delete_def)

lemma pg_inv_store:
  assumes inv: "pg_registry_inv s r" and l: "l \<in> set (Listeners (SConfig s))"
    and fresh: "LiveSessions r sid = None"
    and k: "\<exists>raw. length raw = 8 \<and> k = Name l @ string_of_bytes raw"
  shows "pg_registry_inv s (pg_store sid l k r)"
  unfolding pg_registry_inv_def
proof (intro conjI allI impI)
  fix sid' l' k' assume "LiveSessions (pg_store sid l k r) sid' = Some (l', k')"
  then have "l' = l \<and> k' = k \<or> LiveSessions r sid' = Some (l', k')" by (simp split: if_splits)
  then show "l' \<in> set (Listeners (SConfig s))" "\<exists>raw. length raw = 8 \<and> k' = Name l' @ string_of_bytes raw"
    using l k pg_registry_invD(1) [OF inv, of sid' l' k'] pg_registry_invD(2) [OF inv, of sid' l' k']
    by (elim disjE conjE; simp)+
next
  fix k' upstream assume c: "Cancels (pg_store sid l k r) k' = Some upstream"
  show "\<exists>sid' l'. LiveSessions (pg_store sid l k r) sid' = Some (l', k') \<and> upstream = Upstream l'"
  proof (cases "k' = k")
    case True
    with c show ?thesis by (intro exI [of _ sid] exI [of _ l]) simp
  next
    case False
    with c have "Cancels r k' = Some upstream" by simp
    from pg_registry_invD(3) [OF inv this] obtain sid' l' where
      "LiveSessions r sid' = Some (l', k')" "upstream = Upstream l'" by blast
    with fresh show ?thesis by (intro exI [of _ sid'] exI [of _ l']) auto
  qed
next
  fix sid' l' k'
  assume live: "LiveSessions (pg_store sid l k r) sid' = Some (l', k')" and s: "k' \<notin> SharedKeys (pg_store sid l k r)"
  have new: "k' = k \<Longrightarrow> LiveSessions r sid'' \<noteq> Some (l'', k)" for sid'' l''
    using s by (auto simp: pg_live_key_def)
  show "Cancels (pg_store sid l k r) k' = Some (Upstream l')"
    using live new s pg_registry_invD(4) [OF inv] by (cases "sid' = sid") auto
  fix sid'' l'' assume live': "LiveSessions (pg_store sid l k r) sid'' = Some (l'', k')"
  show "sid'' = sid'"
    using live live' new s pg_registry_invD(5) [OF inv] by (cases "sid' = sid"; cases "sid'' = sid") auto
qed

lemma pg_inv_delete:
  assumes inv: "pg_registry_inv s r" and live: "LiveSessions r sid = Some (l, k)"
  shows "pg_registry_inv s (pg_delete sid k r)"
  unfolding pg_registry_inv_def
proof (intro conjI allI impI)
  fix sid' l' k' assume "LiveSessions (pg_delete sid k r) sid' = Some (l', k')"
  then have "LiveSessions r sid' = Some (l', k')" by (simp split: if_splits)
  then show "l' \<in> set (Listeners (SConfig s))" "\<exists>raw. length raw = 8 \<and> k' = Name l' @ string_of_bytes raw"
    by (rule pg_registry_invD(1,2) [OF inv])+
next
  fix k' upstream assume "Cancels (pg_delete sid k r) k' = Some upstream"
  then have k': "k' \<noteq> k" "Cancels r k' = Some upstream" by (simp_all split: if_splits)
  from pg_registry_invD(3) [OF inv k'(2)] obtain sid' l' where
    "LiveSessions r sid' = Some (l', k')" "upstream = Upstream l'" by blast
  with k'(1) live show "\<exists>sid' l'. LiveSessions (pg_delete sid k r) sid' = Some (l', k') \<and> upstream = Upstream l'"
    by (intro exI [of _ sid'] exI [of _ l']) auto
next
  fix sid' l' k'
  assume "LiveSessions (pg_delete sid k r) sid' = Some (l', k')" "k' \<notin> SharedKeys (pg_delete sid k r)"
  then have r: "LiveSessions r sid' = Some (l', k')" "sid' \<noteq> sid" "k' \<notin> SharedKeys r"
    by (simp_all split: if_splits)
  note unique = pg_registry_invD(5) [OF inv r(1,3)]
  have "k' \<noteq> k" using unique live r(2) by blast
  then show "Cancels (pg_delete sid k r) k' = Some (Upstream l')"
    using pg_registry_invD(4) [OF inv r(1,3)] by simp
  fix sid'' l'' assume "LiveSessions (pg_delete sid k r) sid'' = Some (l'', k')"
  then show "sid'' = sid'" by (intro unique) (simp split: if_splits)
qed

lemma pg_run_inv: "pg_run P s r \<Longrightarrow> pg_registry_inv s r"
proof (induction rule: pg_run.induct)
  case (run_open r l sid E c k)
  from run_open.IH run_open.hyps(2,3) PgKey_shape [OF run_open.hyps(4)] show ?case by (rule pg_inv_store)
qed (auto intro: pg_inv_start pg_inv_delete)

section \<open>Cancel requests\<close>

lemma pgCancel_Some:
  assumes "pgCancel E l raw = (Some (upstream, sent), e)"
  shows "length raw = 8 \<and> PgCancels E (Name l @ string_of_bytes raw) = Some upstream \<and>
    (case sent of None \<Rightarrow> \<exists>e. PgDial E upstream = Inl e
     | Some c' \<Rightarrow> \<exists>c. PgDial E upstream = Inr c \<and> c' = snd (WriteConn (pg_cancel_message raw) c))"
  using assms by (auto simp: pgCancel_def split: if_splits option.splits sum.splits prod.splits)

lemma servePostgres_Canceled:
  assumes "PgCanceled (servePostgres P s E c l) = Some x"
  shows "\<exists>raw e. pgCancel E l raw = (Some x, e)"
proof (cases rule: servePostgres_cases [of P s E c l])
  case (cancelled raw ses)
  then have "fst (pgCancel E l (bytes_of_string raw)) = Some x"
    using assms by (cases "pgCancel E l (bytes_of_string raw)") (simp add: pg_run_cancel_def)
  then show ?thesis by (metis prod.collapse)
qed (use assms in simp_all)

lemma pg_key_inject:
  "length raw = 8 \<Longrightarrow> length raw' = 8 \<Longrightarrow>
     n @ string_of_bytes raw = n' @ string_of_bytes raw' \<longleftrightarrow> n = n' \<and> raw = raw'"
  by (auto dest: arg_cong [of _ _ length])

text \<open>
  C27: A cancel request reaches live sessions only. Whenever a connection to a listener, in plaintext or
  inside TLS, makes the emulator dial a server for a cancel request, then that listener has a live
  session whose client was told the eight bytes of the request, the server dialled is the listener's
  own upstream, and what is sent to it is the cancel message with these bytes; neither the
  listener's name nor the key can be mistaken for another's in the registry's joined keys.
\<close>

theorem pgCancel_targets_live:
  assumes "Validate_Config ul conf = Inr (SConfig s)" and "pg_run P s r" and "l \<in> set (Listeners (SConfig s))"
    and "PgCancels E = Cancels r" and "PgCanceled (servePostgres P s E c l) = Some (addr, sent)"
  shows "addr = Upstream l \<and>
    (\<exists>sid raw. length raw = 8 \<and> LiveSessions r sid = Some (l, Name l @ string_of_bytes raw) \<and>
       (sent = None \<or> (\<exists>b. PgDial E addr = Inr b \<and> sent = Some (snd (WriteConn (pg_cancel_message raw) b)))))"
proof -
  obtain raw e where "pgCancel E l raw = (Some (addr, sent), e)" using servePostgres_Canceled [OF assms(5)] by blast
  note sent = pgCancel_Some [OF this]
  obtain sid l' where live: "LiveSessions r sid = Some (l', Name l @ string_of_bytes raw)" "addr = Upstream l'"
    using sent pg_run_inv [OF assms(2)] unfolding assms(4) pg_registry_inv_def by blast
  then obtain raw' where raw': "l' \<in> set (Listeners (SConfig s))" "length raw' = 8"
    "Name l @ string_of_bytes raw = Name l' @ string_of_bytes raw'"
    using pg_run_inv [OF assms(2)] unfolding pg_registry_inv_def by blast
  then have "Name l = Name l'" using sent by (simp add: pg_key_inject)
  moreover have "distinct (map Name (Listeners (SConfig s)))"
    using Validate_valid [OF assms(1)] by (simp add: valid_config_def)
  ultimately have "l' = l" using raw'(1) assms(3) by (simp add: distinct_map inj_on_def)
  with live sent show ?thesis
    by (intro conjI exI [of _ sid] exI [of _ raw]) (auto split: option.splits)
qed

lemma live_session_cancelled:
  assumes "pg_run P s r" and "LiveSessions r sid = Some (l, Name l @ string_of_bytes key)"
    and "Name l @ string_of_bytes key \<notin> SharedKeys r" and "length key = 8"
    and "PgCancels E = Cancels r" and "PgDial E (Upstream l) = Inr b" and "Budget b > 0"
    and "Inp c = concat (replicate g pg_encode_gss) @ pg_encode_hello (HelloCancel key) @ rest"
    and "Budget c \<ge> g"
  shows "PgCanceled (servePostgres P s E c l) =
      Some (Upstream l, Some (b\<lparr>Out := Out b @ pg_encode_hello (HelloCancel key), Budget := Budget b - 1\<rparr>)) \<and>
    PgFailed (servePostgres P s E c l) = None"
proof -
  have "pg_hello_ok (HelloCancel key)" using assms(4) by simp
  note hello = pgStartup_gss_hello [OF this assms(8,9)]
  have "Cancels r (Name l @ string_of_bytes key) = Some (Upstream l)"
    using pg_run_inv [OF assms(1)] assms(2,3) unfolding pg_registry_inv_def by blast
  then have "pgCancel E l key = (Some (Upstream l,
      Some (b\<lparr>Out := Out b @ pg_cancel_message key, Budget := Budget b - 1\<rparr>)), None)"
    using assms(4-7) by (simp add: pgCancel_def WriteConn_ok)
  moreover have "pg_cancel_message key = pg_encode_hello (HelloCancel key)"
    by (simp add: pg_cancel_message_def)
  ultimately show ?thesis
    by (simp add: servePostgres_def pg_plaintext_def hello returnIO_def pg_run_cancel_def)
qed

text \<open>
  C28: A live session can be cancelled. While a session is live, a client that sends the cancel request
  with the key it was told to the same listener, behind any number of GSS requests, makes the emulator
  send exactly this key to the session's upstream, unless the backends handed the same key to two
  live sessions of the listener.
\<close>

theorem pgCancel_reaches:
  assumes "pg_run P s r" and "LiveSessions r sid = Some (l, Name l @ string_of_bytes key)"
    and "Name l @ string_of_bytes key \<notin> SharedKeys r" and "length key = 8"
    and "PgCancels E = Cancels r" and "PgDial E (Upstream l) = Inr b" and "Budget b > 0"
    and "Inp c = concat (replicate g pg_encode_gss) @ pg_encode_hello (HelloCancel key) @ rest"
    and "Budget c \<ge> g"
  shows "PgCanceled (servePostgres P s E c l) =
      Some (Upstream l, Some (b\<lparr>Out := Out b @ pg_encode_hello (HelloCancel key), Budget := Budget b - 1\<rparr>)) \<and>
    PgFailed (servePostgres P s E c l) = None"
  by (rule live_session_cancelled [OF assms])

end
