(* ===== verification/PostgresExamples.thy ===== *)
theory PostgresExamples
  imports PostgresCancel
begin

text \<open>
  An example session: alice logs in to the Azure listener of the fixtures through a group, is relayed,
  and is cancelled. It instantiates the parameters of the PostgreSQL properties.
\<close>

definition fixture_azure_token :: string where
  "fixture_azure_token = b64_encode [] @ ''.'' @ b64_encode (bytes_of_string ''alice'') @ ''.'' @
     b64_encode (sha256 fixture_platform
       (bytes_of_string (b64_encode [] @ ''.'' @ b64_encode (bytes_of_string ''alice''))))"

lemma fixture_azure_validate:
  "Validate fixture_platform fixture_service fixture_azure ''readers'' fixture_azure_token fixture_now fixture_now =
     Inr fixture_alice"
proof -
  have "principal fixture_service ''alice'' = Some fixture_alice"
    using principal_ID [OF valid_IDs [OF fixture_rds_config] fixture_rds(2)] by (simp only: fixture_fields)
  then have claims: "azure_check_claims fixture_service fixture_azure ''readers'' (fixture_claims ''alice'')
      fixture_now fixture_now = Inr fixture_alice"
    unfolding azure_check_claims_iff
    by (simp add: fixture_fields fixture_issuer fixture_claims_def fixture_now_def Unix_def second_def)
  have "validateAzure fixture_platform fixture_service fixture_azure ''readers'' fixture_azure_token
      fixture_now fixture_now = Inr fixture_alice"
    unfolding fixture_azure_token_def validateAzure_iff azure_token_parts
    using claims by (auto simp: b64_decode_encode fixture_platform_def fixture_header_def)
  moreover have "Provider fixture_azure = ''azure''" by (simp add: fixture_azure_def)
  ultimately show ?thesis using fixture_grants(3) by (simp add: Validate_iff)
qed

lemma length_b64_sextets: "length (b64_sextets b) \<le> 2 * length b"
  by (induction b rule: b64_sextets.induct) simp_all

lemma length_b64_encode: "length (b64_encode b) \<le> 2 * length b"
  using length_b64_sextets [of b] by (simp add: b64_encode_def)

lemma fixture_token_small: "length fixture_azure_token + 5 \<le> pg_max"
proof -
  have "length (sha256 fixture_platform b) = 32" for b by (simp add: fixture_platform_def)
  then have h: "length (b64_encode (sha256 fixture_platform b)) \<le> 64" for b
    using length_b64_encode [of "sha256 fixture_platform b"] by simp
  have "length (b64_encode (bytes_of_string ''alice'')) \<le> 10"
    using length_b64_encode [of "bytes_of_string ''alice''"] by simp
  moreover have "length (b64_encode []) = 0" using length_b64_encode [of "[]"] by simp
  ultimately have "length fixture_azure_token \<le> 0 + (1 + (10 + (1 + 64)))"
    unfolding fixture_azure_token_def length_append using h by (intro add_mono) simp_all
  then show ?thesis by (simp add: pg_max_def)
qed

definition fixture_key :: bytes where
  "fixture_key = be_bytes 4 4242 @ bytes_of_string ''k3y!''"

definition fixture_hijacked :: pg_hijacked where
  "fixture_hijacked = \<lparr>ParameterStatuses = [(''server_version'', ''17.0'')], PID = 4242,
     SecretKey = bytes_of_string ''k3y!'', TxStatus = 0x49, HijackedConn = fixture_conn []\<rparr>"

definition fixture_login_bytes :: bytes where
  "fixture_login_bytes = pg_encode_hello (HelloStartup [(''user'', ''readers'')]) @
     pg_password_frame () (bytes_of_string fixture_azure_token)"

definition fixture_pg_env :: "(string \<rightharpoonup> string) \<Rightarrow> pg_env" where
  "fixture_pg_env cancels = \<lparr>PgHandshake = (\<lambda>_. Inr (fixture_conn fixture_login_bytes)),
     PgNow1 = fixture_now, PgNow2 = fixture_now,
     PgParse = Inr \<lparr>Host = [], Port = 0, User = [], Password = [], Database = [], ConnectTimeout = 0,
       Fallbacks = [], LookupFunc = (\<lambda>_. Inl EOF), TLSConfig = None, RuntimeParams = Map.empty\<rparr>,
     PgConnect = (\<lambda>_. Inr \<lparr>SyncConn = Inr (), Hijack = Inr fixture_hijacked\<rparr>),
     PgDial = (\<lambda>_. Inr (fixture_conn [])), PgCancels = cancels\<rparr>"

lemma fixture_pg_env_simps [simp]:
  "PgHandshake (fixture_pg_env m) c = Inr (fixture_conn fixture_login_bytes)"
  "PgNow1 (fixture_pg_env m) = fixture_now" "PgNow2 (fixture_pg_env m) = fixture_now"
  "PgConnect (fixture_pg_env m) d = Inr \<lparr>SyncConn = Inr (), Hijack = Inr fixture_hijacked\<rparr>"
  "PgDial (fixture_pg_env m) a = Inr (fixture_conn [])" "PgCancels (fixture_pg_env m) = m"
  "\<exists>pcfg. PgParse (fixture_pg_env m) = Inr pcfg"
  by (simp_all add: fixture_pg_env_def)

lemma fixture_conn_simps [simp]:
  "Inp (fixture_conn b) = b" "Out (fixture_conn b) = []" "Budget (fixture_conn b) = 100" "Fin (fixture_conn b) = EOF"
  by (simp_all add: fixture_conn_def)

definition fixture_ssl :: conn where
  "fixture_ssl = fixture_conn (pg_encode_hello HelloSSL)"

lemma fixture_user_hello: "pg_hello_ok (HelloStartup [(''user'', ''readers'')])"
  by (simp add: pg_encode_params_def pg_max_def)

lemma fixture_upgrade:
  "pg_plaintext fixture_ssl = (Inr None, (fixture_conn [])\<lparr>Out := [0x53], Budget := 99\<rparr>)"
proof -
  have "pgStartup fixture_ssl = (Inr [''_ssl'' \<mapsto> ''1''], fixture_conn [])"
    using pgStartup_hello [of HelloSSL fixture_ssl "[]"] by (simp add: fixture_ssl_def fixture_conn_def)
  then show ?thesis
    by (simp add: pg_plaintext_def map_get_def WriteConn_def returnIO_def bindIO_def fixture_conn_def)
qed

lemma fixture_pg_login:
  "pg_logged_in fixture_platform fixture_service (fixture_pg_env m) fixture_azure (fixture_conn fixture_login_bytes)
     fixture_alice [''user'' \<mapsto> ''readers''] []
     \<lparr>Inp = [], Fin = EOF, Out = pg_frame 0x52 (be_bytes 4 3), Budget = 99\<rparr>"
proof -
  let ?pw = "pg_password_frame () (bytes_of_string fixture_azure_token)"
  let ?t = "fixture_conn fixture_login_bytes"
  let ?t2 = "\<lparr>Inp = ?pw, Fin = EOF, Out = pg_frame 0x52 (be_bytes 4 3), Budget = 99\<rparr>"
  have "pgStartup ?t = (Inr [''user'' \<mapsto> ''readers''], fixture_conn ?pw)"
    using pgStartup_hello [OF fixture_user_hello, of ?t ?pw]
    by (simp add: fixture_login_bytes_def fixture_conn_def)
  moreover have "pgWrite 0x52 (be_bytes 4 3) (fixture_conn ?pw) = (Inr (), ?t2)"
    by (simp add: pgWrite_def WriteConn_def fixture_conn_def)
  moreover have "pgPassword ?t2 = (Inr fixture_azure_token,
      \<lparr>Inp = [], Fin = EOF, Out = pg_frame 0x52 (be_bytes 4 3), Budget = 99\<rparr>)"
    using pgPassword_frame [of "bytes_of_string fixture_azure_token" ?t2 "[]"] fixture_token_small by simp
  moreover have "pgReplicationMode (unicode_lower fixture_platform) [] = Inr []"
    by (simp add: pgReplicationMode_def ToLower_def)
  ultimately show ?thesis
    using fixture_azure_validate unfolding pg_logged_in_def by (simp add: map_get_def)
qed

lemma fixture_upstream: "SplitHostPort (Upstream fixture_azure) = Inr (''127.0.0.1'', ''5432'')" "Atoi ''5432'' = Inr 5432"
proof -
  show "SplitHostPort (Upstream fixture_azure) = Inr (''127.0.0.1'', ''5432'')"
    by (simp add: fixture_azure_def eval_net)
  have "dec_string 5432 = ''5432''" by (simp add: dec_string.simps char_of_def bit_Suc_0_iff)
  then show "Atoi ''5432'' = Inr 5432" using Atoi_dec_string [of 5432] by simp
qed

lemma fixture_dial: "\<exists>d. pg_dial_of fixture_azure p params r (PgParse (fixture_pg_env m)) = Inr d"
proof -
  obtain pcfg where "PgParse (fixture_pg_env m) = Inr pcfg" using fixture_pg_env_simps(7) by blast
  then show ?thesis by (simp add: pg_dial_of_def fixture_upstream Let_def)
qed

lemma fixture_pg_ready:
  "\<exists>c'. pg_ready fixture_hijacked
     \<lparr>Inp = [], Fin = EOF, Out = pg_frame 0x52 (be_bytes 4 3), Budget = 99\<rparr> = (Inr (string_of_bytes fixture_key), c')"
  by (simp add: pg_ready_def fixture_hijacked_def pgWrite_def WriteConn_def fixture_key_def returnIO_def
      bindIO_def)

lemma fixture_pg_session:
  "\<exists>d c'. PgDialed (servePostgres fixture_platform fixture_service (fixture_pg_env m) fixture_ssl fixture_azure) = Some d \<and>
     PgRelayed (servePostgres fixture_platform fixture_service (fixture_pg_env m) fixture_ssl fixture_azure) =
       Some (c', fixture_conn []) \<and>
     PgKey (servePostgres fixture_platform fixture_service (fixture_pg_env m) fixture_ssl fixture_azure) =
       Some (Name fixture_azure @ string_of_bytes fixture_key)"
proof -
  obtain d where d: "pg_dial_of fixture_azure fixture_alice [''user'' \<mapsto> ''readers''] []
      (PgParse (fixture_pg_env m)) = Inr d" using fixture_dial by blast
  obtain c' where r: "pg_ready fixture_hijacked
      \<lparr>Inp = [], Fin = EOF, Out = pg_frame 0x52 (be_bytes 4 3), Budget = 99\<rparr> =
      (Inr (string_of_bytes fixture_key), c')" using fixture_pg_ready by blast
  have a: "pg_authenticate fixture_platform fixture_service (fixture_pg_env m) fixture_azure
      (fixture_conn fixture_login_bytes) = (Inr (Login fixture_alice [''user'' \<mapsto> ''readers''] []),
      \<lparr>Inp = [], Fin = EOF, Out = pg_frame 0x52 (be_bytes 4 3), Budget = 99\<rparr>)"
    using fixture_pg_login unfolding pg_authenticate_Login .
  have "HijackedConn fixture_hijacked = fixture_conn []" by (simp add: fixture_hijacked_def)
  then show ?thesis
    by (simp add: servePostgres_def fixture_upgrade a pg_open_backend_def d r Let_def)
qed

section \<open>Witnesses\<close>

theorem pgStartup_roundtrip_witness:
  "let c = fixture_conn (pg_encode_gss @ pg_encode_hello (HelloStartup [(''user'', ''readers'')])) in
   pgStartup c = (Inr [''user'' \<mapsto> ''readers''], c\<lparr>Inp := [], Out := [0x4e], Budget := 99\<rparr>)"
proof -
  let ?c = "fixture_conn (pg_encode_gss @ pg_encode_hello (HelloStartup [(''user'', ''readers'')]))"
  have "Inp ?c = concat (replicate 1 pg_encode_gss) @ pg_encode_hello (HelloStartup [(''user'', ''readers'')]) @ []"
    by simp
  moreover have "Budget ?c \<ge> 1" by simp
  ultimately show ?thesis
    using pgStartup_roundtrip [OF fixture_user_hello, of ?c 1 "[]"] unfolding Let_def by simp
qed

theorem pgStartup_bounds_witness:
  "fst (pgStartup fixture_ssl) \<noteq> Inl Panic"
proof -
  have "Fin fixture_ssl \<noteq> Panic" by (simp add: fixture_ssl_def)
  then show ?thesis
    using pgStartup_bounds [of fixture_ssl "fst (pgStartup fixture_ssl)" "snd (pgStartup fixture_ssl)"] by simp
qed


theorem servePostgres_handoff_witness:
  "\<exists>front upstream. PgRelayed (servePostgres fixture_platform fixture_service (fixture_pg_env Map.empty)
      fixture_ssl fixture_azure) = Some (front, upstream) \<and>
     PgFailed (servePostgres fixture_platform fixture_service (fixture_pg_env Map.empty) fixture_ssl fixture_azure) = None"
proof -
  obtain front where r: "PgRelayed (servePostgres fixture_platform fixture_service (fixture_pg_env Map.empty)
      fixture_ssl fixture_azure) = Some (front, fixture_conn [])" using fixture_pg_session by blast
  from servePostgres_handoff [OF this] r show ?thesis by blast
qed

definition fixture_run :: pg_emulator where
  "fixture_run = pg_store 7 fixture_azure (Name fixture_azure @ string_of_bytes fixture_key) pg_start"

lemma fixture_run: "pg_run fixture_platform fixture_service fixture_run"
proof -
  have "LiveSessions pg_start 7 = None" by (simp add: pg_start_def)
  moreover have "PgKey (servePostgres fixture_platform fixture_service (fixture_pg_env Map.empty) fixture_ssl
      fixture_azure) = Some (Name fixture_azure @ string_of_bytes fixture_key)" using fixture_pg_session by blast
  moreover have "fixture_azure \<in> set (Listeners (SConfig fixture_service))"
    using fixture_members(4) by (simp add: fixture_service_def)
  ultimately show ?thesis unfolding fixture_run_def by (intro run_open run_start)
qed

lemma fixture_run_simps:
  "LiveSessions fixture_run 7 = Some (fixture_azure, Name fixture_azure @ string_of_bytes fixture_key)"
  "k \<notin> SharedKeys fixture_run" "length fixture_key = 8"
  by (simp_all add: fixture_run_def fixture_key_def pg_live_key_def pg_start_def)

theorem pgCancel_reaches_witness:
  "PgFailed (servePostgres fixture_platform fixture_service (fixture_pg_env (Cancels fixture_run))
     (fixture_conn (pg_encode_hello (HelloCancel fixture_key))) fixture_azure) = None"
proof -
  let ?E = "fixture_pg_env (Cancels fixture_run)" and ?c = "fixture_conn (pg_encode_hello (HelloCancel fixture_key))"
  have "Inp ?c = concat (replicate 0 pg_encode_gss) @ pg_encode_hello (HelloCancel fixture_key) @ []" by simp
  moreover have "PgCancels ?E = Cancels fixture_run" "PgDial ?E (Upstream fixture_azure) = Inr (fixture_conn [])"
    "Budget (fixture_conn []) > 0" "Budget ?c \<ge> 0"
    by simp_all
  ultimately show ?thesis
    by (intro pgCancel_reaches [OF fixture_run fixture_run_simps, THEN conjunct2])
qed

lemma fixture_cancelled:
  "\<exists>x. PgCanceled (servePostgres fixture_platform fixture_service (fixture_pg_env (Cancels fixture_run))
     (fixture_conn (pg_encode_hello (HelloCancel fixture_key))) fixture_azure) = Some (Upstream fixture_azure, x)"
proof -
  let ?c = "fixture_conn (pg_encode_hello (HelloCancel fixture_key))"
  have "pgStartup ?c = (Inr [''_cancel'' \<mapsto> string_of_bytes fixture_key], fixture_conn [])"
    using pgStartup_hello [of "HelloCancel fixture_key" ?c "[]"] fixture_run_simps(3) by (simp add: fixture_conn_def)
  then show ?thesis
    using fixture_run_simps(3)
    by (simp add: servePostgres_def pg_plaintext_def returnIO_def pg_run_cancel_def pgCancel_def
        fixture_run_def WriteConn_def)
qed

theorem pgCancel_targets_live_witness:
  "\<exists>sid raw. LiveSessions fixture_run sid = Some (fixture_azure, Name fixture_azure @ string_of_bytes raw)"
proof -
  obtain x where x: "PgCanceled (servePostgres fixture_platform fixture_service (fixture_pg_env (Cancels fixture_run))
     (fixture_conn (pg_encode_hello (HelloCancel fixture_key))) fixture_azure) = Some (Upstream fixture_azure, x)"
    using fixture_cancelled by blast
  have l: "fixture_azure \<in> set (Listeners (SConfig fixture_service))"
    using fixture_members(4) by (simp add: fixture_service_def)
  have c: "PgCancels (fixture_pg_env (Cancels fixture_run)) = Cancels fixture_run" by simp
  from pgCancel_targets_live [OF fixture_rds_config fixture_run l c x] show ?thesis by blast
qed

end
