(* ===== verification/FakedbProps.thy ===== *)
theory FakedbProps
  imports Fakedb PostgresExamples
begin

text \<open>
  The proxy in front of the upstream servers of \<open>Fakedb\<close>: commands relayed by the MySQL front end are
  answered one by one, but for changes of user; a client's cancel request reaches the PostgreSQL
  server as the cancellation of its session; who may log in to the servers, and that they stop.
\<close>

section \<open>MySQL packets\<close>

lemma fake_myRead_frame:
  assumes "length b < 2 ^ 24" "Inp c = my_frame seq b @ rest"
  shows "fake_myRead c = (Inr (b, seq), c\<lparr>Inp := rest\<rparr>)"
proof -
  have "ReadFull 4 c = (Inr (my_header seq b), c\<lparr>Inp := b @ rest\<rparr>)"
    using assms(2) by (intro ReadFull_append) (simp_all add: my_frame_def)
  moreover have "ReadFull (length b) (c\<lparr>Inp := b @ rest\<rparr>) = (Inr b, c\<lparr>Inp := rest\<rparr>)"
    using ReadFull_append [of "c\<lparr>Inp := b @ rest\<rparr>" b rest] by simp
  ultimately show ?thesis
    using assms(1) by (simp add: fake_myRead_def my_header_length returnIO_def)
qed

lemma fake_myRead_incomplete:
  assumes "my_incomplete (Inp c)"
  shows "\<exists>e c'. fake_myRead c = (Inl e, c') \<and> Out c' = Out c"
proof (cases "length (Inp c) < 4")
  case True
  then show ?thesis by (simp add: fake_myRead_def bindIO_def ReadFull_def)
next
  case False
  let ?i = "Inp c"
  have "length (drop 4 ?i) < or24 (take 4 ?i ! 0) (take 4 ?i ! Suc 0) (take 4 ?i ! 2)"
    using assms False by (simp add: my_incomplete_def)
  with False show ?thesis by (simp add: fake_myRead_def bindIO_def ReadFull_def del: nth_take)
qed

lemma fake_myWrite_frame:
  "Budget c > 0 \<Longrightarrow> fake_myWrite seq b c = (Inr (), c\<lparr>Out := Out c @ my_frame seq b, Budget := Budget c - 1\<rparr>)"
  by (simp add: fake_myWrite_def WriteConn_def my_frame_def)

lemma fake_write_all_frames:
  "Budget c \<ge> length ps \<Longrightarrow> fake_write_all ps c =
     (Inr (), c\<lparr>Out := Out c @ my_packets.frames ps, Budget := Budget c - length ps\<rparr>)"
proof (induction ps arbitrary: c)
  case (Cons p ps)
  obtain seq b where p: "p = (seq, b)" by (cases p)
  let ?c = "c\<lparr>Out := Out c @ my_frame seq b, Budget := Budget c - 1\<rparr>"
  have "fake_myWrite seq b c = (Inr (), ?c)" using Cons.prems by (intro fake_myWrite_frame) simp
  moreover have "fake_write_all ps ?c =
      (Inr (), ?c\<lparr>Out := Out ?c @ my_packets.frames ps, Budget := Budget ?c - length ps\<rparr>)"
    using Cons.prems by (intro Cons.IH) simp
  ultimately show ?case by (simp add: p)
qed (simp add: returnIO_def)

section \<open>Answering commands\<close>

text \<open>What the server is asked to do is to answer each command up to the one that ends the session.\<close>

definition fake_quit :: "bytes \<Rightarrow> bool" where
  "fake_quit cmd \<longleftrightarrow> cmd = [] \<or> cmd ! 0 = 1"

definition fake_replies :: "caps \<Rightarrow> string \<Rightarrow> (byte \<times> bytes) list \<Rightarrow> (byte \<times> bytes) list" where
  "fake_replies caps user ps =
     concat (map (\<lambda>(seq, cmd). fake_answer caps user cmd) (takeWhile (\<lambda>(seq, cmd). \<not> fake_quit cmd) ps))"

lemma fake_replies_simps [simp]:
  "fake_replies caps user [] = []"
  "fake_quit cmd \<Longrightarrow> fake_replies caps user ((seq, cmd) # ps) = []"
  "\<not> fake_quit cmd \<Longrightarrow>
     fake_replies caps user ((seq, cmd) # ps) = fake_answer caps user cmd @ fake_replies caps user ps"
  by (simp_all add: fake_replies_def)

lemma my_frames_append [simp]: "my_packets.frames (ps @ qs) = my_packets.frames ps @ my_packets.frames qs"
  by (simp add: my_packets.frames_def)

lemma fake_commands_frames:
  assumes "\<forall>(seq, b)\<in>set ps. length b < 2 ^ 24" "my_incomplete rest" "Inp c = my_packets.frames ps @ rest"
    and "length (fake_replies caps user ps) \<le> Budget c"
  shows "Out (fake_commands caps user c) = Out c @ my_packets.frames (fake_replies caps user ps)"
  using assms(1,3,4)
proof (induction ps arbitrary: c)
  case Nil
  then obtain e c' where "fake_myRead c = (Inl e, c')" "Out c' = Out c"
    using fake_myRead_incomplete [of c] assms(2) by auto
  then show ?case by (subst fake_commands.simps) simp
next
  case (Cons p ps)
  obtain seq b where p: "p = (seq, b)" by (cases p)
  let ?c = "c\<lparr>Inp := my_packets.frames ps @ rest\<rparr>"
  have r: "fake_myRead c = (Inr (b, seq), ?c)" using Cons.prems p by (intro fake_myRead_frame) simp_all
  show ?case
  proof (cases "fake_quit b")
    case True
    then show ?thesis by (subst fake_commands.simps) (simp add: r p fake_quit_def)
  next
    case False
    let ?a = "fake_answer caps user b"
    let ?c2 = "?c\<lparr>Out := Out c @ my_packets.frames ?a, Budget := Budget c - length ?a\<rparr>"
    have "fake_write_all ?a ?c = (Inr (), ?c2)"
      using fake_write_all_frames [of ?a ?c] Cons.prems(3) False p by simp
    then have "fake_commands caps user c = fake_commands caps user ?c2"
      using r False by (subst fake_commands.simps) (simp add: fake_quit_def)
    moreover have "Out (fake_commands caps user ?c2) =
        Out ?c2 @ my_packets.frames (fake_replies caps user ps)"
      using Cons.prems False p by (intro Cons.IH) simp_all
    ultimately show ?thesis using False p by simp
  qed
qed

text \<open>
  C21: The relay and the upstream server together answer every command but changes of user. When the
  server reads what the relay wrote for a client's packets, it writes exactly the answers to the
  packets that are not \<^verbatim>\<open>COM_CHANGE_USER\<close>, in order, up to the first that ends the session: its loop
  over the wire refines answering a list of commands.
\<close>

theorem relay_upstream_answers:
  fixes ps :: "(byte \<times> bytes) list"
  defines "kept \<equiv> filter (\<lambda>(seq, b). \<not> change_user seq b) ps"
  assumes "\<forall>(seq, b)\<in>set ps. length b < 2 ^ 24" and "my_incomplete rest"
    and "Inp front = my_packets.frames ps @ rest"
    and "Out upstream = []" and "2 * length kept \<le> Budget upstream"
    and "Inp server = Out (snd (my_forward front upstream))"
    and "length (fake_replies caps user kept) \<le> Budget server"
  shows "Out (fake_commands caps user server) = Out server @ my_packets.frames (fake_replies caps user kept)"
proof (rule fake_commands_frames)
  show "\<forall>(seq, b)\<in>set kept. length b < 2 ^ 24" using assms(2) by (auto simp: kept_def)
  show "my_incomplete []" by (simp add: my_incomplete_def)
  show "Inp server = my_packets.frames kept @ []"
    using my_forward_frames [OF assms(2-4), of upstream] assms(5-7) by (simp add: kept_def)
qed (rule assms(8))

section \<open>Logging in to the MySQL server\<close>

definition fake_client :: "caps \<Rightarrow> bytes \<Rightarrow> string \<Rightarrow> bytes \<Rightarrow> string \<Rightarrow> bytes" where
  "fake_client caps filler user auth db =
     le_bytes 4 (unat caps) @ filler @ bytes_of_string (user @ [NUL]) @
     (word_of_nat (length auth) # auth) @ bytes_of_string (db @ [NUL])"

lemma cut_nul_append: "0 \<notin> set a \<Longrightarrow> cut_nul (a @ 0 # b) = (a, b)"
  by (induction a) (simp_all add: cut_nul_def)

lemma bytes_NUL: "bytes_of_string (s @ [NUL]) = bytes_of_string s @ [0]"
  by (simp add: bytes_of_string_def)

lemma fake_auth_field: "length auth < 256 \<Longrightarrow> fake_auth (word_of_nat (length auth) # auth @ r) = Inr (auth, r)"
  by (simp add: fake_auth_def unat_word_of_nat_8 Let_def)

lemma fake_response_client:
  assumes "length filler = 28" "NUL \<notin> set user" "NUL \<notin> set db" "length auth < 256"
  shows "fake_response (fake_client caps filler user auth db) = Inr (bytes_of_string user, auth, bytes_of_string db)"
proof -
  have "drop 32 (fake_client caps filler user auth db) =
      bytes_of_string user @ 0 # (word_of_nat (length auth) # auth @ bytes_of_string db @ 0 # [])"
    using assms(1) by (simp add: fake_client_def bytes_NUL del: bytes_of_string_append)
  moreover have "32 \<le> length (fake_client caps filler user auth db)"
    using assms(1) by (simp add: fake_client_def)
  ultimately show ?thesis
    using assms by (simp add: fake_response_def cut_nul_append NUL_bytes fake_auth_field)
qed

lemma fake_response_no_panic: "32 \<le> length resp \<Longrightarrow> fake_response resp \<noteq> Inl Panic"
  by (auto simp: fake_response_def fake_auth_def Let_def split: prod.splits)

text \<open>
  The upstream server logs in its one account. A client that answers the greeting with a user, a
  scramble and a database is recorded with them and told so when they are the account's name and the
  native-password scramble of its password; any other client is refused and leaves no record.
\<close>

theorem fake_mysql_login:
  fixes s :: fakedb
  assumes "length filler = 28" and "NUL \<notin> set user" and "NUL \<notin> set db" and "length auth < 256"
    and "length (fake_client caps filler user auth db) < 2 ^ 24"
    and "Inp c = my_frame seq (fake_client caps filler user auth db)" and "Budget c \<ge> 2" and "Out c = []"
  defines "greeting \<equiv> my_frame 0 (fake_greeting (fake_caps (NoDeprecateEOF s)))"
  shows "if user = FakeUser s \<and> auth = nativeScramble sha1 fake_salt (FakePassword s) then
      Out (fst (fake_serveMySQL sha1 c s)) = greeting @ my_frame 2 (fake_myOK 0) \<and>
      snd (fake_serveMySQL sha1 c s) = s\<lparr>startups := startups s @ [[''user'' \<mapsto> user, ''database'' \<mapsto> db]]\<rparr>
    else
      Out (fst (fake_serveMySQL sha1 c s)) = greeting @ my_frame 2 (fake_error 0x15 4 ''28000Access denied'') \<and>
      snd (fake_serveMySQL sha1 c s) = s"
proof -
  define resp where "resp = fake_client caps filler user auth db"
  let ?c1 = "c\<lparr>Out := greeting, Budget := Budget c - 1\<rparr>" and ?ok = "user = FakeUser s \<and> auth = nativeScramble sha1 fake_salt (FakePassword s)"
  have w: "fake_myWrite 0 (fake_greeting (fake_caps (NoDeprecateEOF s))) c = (Inr (), ?c1)"
    using assms(7,8) by (simp add: fake_myWrite_frame greeting_def)
  have r: "fake_myRead ?c1 = (Inr (resp, seq), ?c1\<lparr>Inp := []\<rparr>)"
    using assms(5,6) by (intro fake_myRead_frame) (simp_all add: resp_def)
  have l: "\<not> length resp < 32" using assms(1) by (simp add: fake_client_def resp_def)
  have p: "fake_response resp = Inr (bytes_of_string user, auth, bytes_of_string db)"
    unfolding resp_def by (rule fake_response_client [OF assms(1-4)])
  let ?c2 = "?c1\<lparr>Inp := []\<rparr>"
  have w2: "fake_myWrite 2 b ?c2 = (Inr (), ?c2\<lparr>Out := greeting @ my_frame 2 b, Budget := Budget c - 2\<rparr>)" for b
    using assms(7) fake_myWrite_frame [of ?c2 2 b] by (simp add: numeral_2_eq_2)
  have q: "Out (fake_commands caps' u (?c2\<lparr>Out := out, Budget := n\<rparr>)) = out" for caps' u out n
    using fake_commands_frames [of "[]" "[]" "?c2\<lparr>Out := out, Budget := n\<rparr>" caps' u]
    by (simp add: my_incomplete_def)
  show ?thesis
  proof (cases ?ok)
    case True
    then show ?thesis using w r l p w2 q by (auto simp: fake_serveMySQL_def Let_def)
  next
    case False
    then show ?thesis using w r l p w2 by (auto simp: fake_serveMySQL_def Let_def)
  qed
qed

section \<open>Cancelling a session of the PostgreSQL server\<close>

text \<open>What \<^verbatim>\<open>pgproto3\<close> documents of a startup message with the code of a cancel request.\<close>

definition reads_cancel :: "pgproto \<Rightarrow> bool" where
  "reads_cancel B \<longleftrightarrow> (\<forall>pid key c. length key = 4 \<longrightarrow>
     Inp c = be_bytes 4 16 @ be_bytes 4 code_cancel @ be_bytes 4 (unat pid) @ key \<longrightarrow>
     (\<exists>c'. ReceiveStartupMessage B c = (Inr (PgCancelRequest pid key), c')))"

definition fake_key :: bytes where
  "fake_key = be_bytes 4 (unat pgPID) @ pgSecret"

lemma fake_key_length [simp]: "length fake_key = 8" "length pgSecret = 4"
  by (simp_all add: fake_key_def pgSecret_def)

lemma fake_servePostgres_cancel:
  assumes "reads_cancel B" "Inp c = pg_cancel_message fake_key"
  shows "\<exists>c'. fake_servePostgres B c s = Some (c', s\<lparr>cancels := cancels s @ [pgPID]\<rparr>)"
proof -
  obtain c' where "ReceiveStartupMessage B c = (Inr (PgCancelRequest pgPID pgSecret), c')"
    using assms fake_key_length(2) unfolding reads_cancel_def pg_cancel_message_def fake_key_def by blast
  then show ?thesis by (simp add: fake_servePostgres_def)
qed

text \<open>
  C29: Cancellation end to end. While a session on a backend of the test server is live, a client that
  sends the key it was told, behind any number of GSS requests, to the same listener makes the emulator
  dial the listener's upstream, and the server on the other end of that connection records the
  cancellation of its process. The hypothesis on \<open>reads_cancel\<close> is what \<^verbatim>\<open>pgproto3\<close> documents.
\<close>

theorem cancel_reaches_upstream:
  assumes "pg_run P s r" and "LiveSessions r sid = Some (l, Name l @ string_of_bytes fake_key)"
    and "Name l @ string_of_bytes fake_key \<notin> SharedKeys r"
    and "PgCancels E = Cancels r" and "PgDial E (Upstream l) = Inr b" and "Budget b > 0" and "Out b = []"
    and "Inp c = concat (replicate g pg_encode_gss) @ pg_encode_hello (HelloCancel fake_key) @ rest"
    and "Budget c \<ge> g" and "reads_cancel B"
  shows "\<exists>b'. PgCanceled (servePostgres P s E c l) = Some (Upstream l, Some b') \<and>
    (\<forall>server. Inp server = Out b' \<longrightarrow>
       (\<exists>server'. PostgresDialer B (Upstream l) server db = Some (server',
          db\<lparr>dials := dials db @ [Upstream l], cancels := cancels db @ [pgPID]\<rparr>)))"
proof -
  let ?b' = "b\<lparr>Out := Out b @ pg_encode_hello (HelloCancel fake_key), Budget := Budget b - 1\<rparr>"
  have "PgCanceled (servePostgres P s E c l) = Some (Upstream l, Some ?b')"
    using live_session_cancelled [OF assms(1-3) fake_key_length(1) assms(4-6) assms(8,9)] by blast
  moreover have "Out ?b' = pg_cancel_message fake_key" using assms(7) by (simp add: pg_cancel_message_def)
  ultimately show ?thesis
    using fake_servePostgres_cancel [OF assms(10), of _ "db\<lparr>dials := dials db @ [Upstream l]\<rparr>"]
    by (intro exI [of _ ?b']) (auto simp: PostgresDialer_def fake_dial_def)
qed

section \<open>Sessions of the PostgreSQL server\<close>

lemma fake_pg_queries_ends:
  assumes "\<And>c m c'. Receive B c = (Inr m, c') \<Longrightarrow> length (Inp c') < length (Inp c)"
  shows "\<exists>c'. fake_pg_queries B user c = Some c'"
proof (induction "length (Inp c)" arbitrary: c rule: less_induct)
  case less
  show ?case
  proof (cases "Receive B c")
    case (Pair r c1)
    show ?thesis
    proof (cases r)
      case (Inr m)
      then have l: "length (Inp c1) < length (Inp c)" using Pair assms by blast
      obtain w c2 where f: "pg_flush B (fake_pg_result user) c1 = (w, c2)" by fastforce
      then have "Inp c2 = Inp c1" by (auto simp: pg_flush_def WriteConn_def split: if_splits)
      with l have "\<exists>c'. fake_pg_queries B user c1 = Some c'" "\<exists>c'. fake_pg_queries B user c2 = Some c'"
        using less by simp_all
      then show ?thesis by (subst fake_pg_queries.simps) (auto simp: Pair Inr f split: sum.split)
    qed (subst fake_pg_queries.simps, simp add: Pair)
  qed
qed

text \<open>
  A connection to the PostgreSQL server ends, with one record at most. As soon as each message takes
  a byte of the connection, serving returns; the server then has a new startup record only for a
  client that named the account and gave its password, and it never has more than one more record.
\<close>

theorem fake_postgres_ends:
  assumes "\<forall>c m c'. Receive B c = (Inr m, c') \<longrightarrow> length (Inp c') < length (Inp c)"
  shows "\<exists>c' s'. fake_servePostgres B c s = Some (c', s') \<and>
    (s' = s \<or> s' = s\<lparr>cancels := cancels s @ [pgPID]\<rparr> \<or>
     (\<exists>ps c1 c2 c3. ReceiveStartupMessage B c = (Inr (PgStartupMessage ps), c1) \<and>
        Receive B c2 = (Inr (PgPasswordMessage (FakePassword s)), c3) \<and>
        map_get ps ''user'' = FakeUser s \<and> s' = s\<lparr>startups := startups s @ [ps]\<rparr>))"
proof -
  note ends = fake_pg_queries_ends [of B "FakeUser s"]
  have q: "\<exists>c'. fake_pg_queries B (FakeUser s) c2 = Some c'" for c2 using assms by (intro ends) blast
  show ?thesis
    using q unfolding fake_servePostgres_def fake_pg_login_def
    by (fastforce simp: pg_password_ok_def Let_def split: prod.split sum.split pg_frontend.split pg_frontend.split_asm if_splits)
qed

section \<open>Examples\<close>

definition fixture_fakedb :: fakedb where
  "fixture_fakedb = \<lparr>FakeUser = ''app'', FakePassword = ''pw'', NoDeprecateEOF = True, dials = [], startups = [],
     cancels = []\<rparr>"

text \<open>Messages of one byte, and startup messages of sixteen.\<close>

definition fixture_pgproto :: pgproto where
  "fixture_pgproto = \<lparr>
     ReceiveStartupMessage = bindIO (ReadFull 16) (\<lambda>b. returnIO
       (PgCancelRequest (word_of_nat (be_val (take 4 (drop 8 b)))) (drop 12 b))),
     SetAuthType = Inr (), Receive = bindIO (ReadFull 1) (\<lambda>_. returnIO PgQuery),
     EncodeMessage = (\<lambda>_. [0])\<rparr>"

lemma fixture_pgproto_reads: "reads_cancel fixture_pgproto"
  unfolding reads_cancel_def
proof (intro allI impI)
  fix pid :: "32 word" and key :: bytes and c :: conn
  assume k: "length key = (4 :: nat)"
    and c: "Inp c = be_bytes 4 16 @ be_bytes 4 code_cancel @ be_bytes 4 (unat pid) @ key"
  have "ReadFull 16 c = (Inr (Inp c), c\<lparr>Inp := []\<rparr>)" using k c by (simp add: ReadFull_def)
  moreover have "unat pid < 256 ^ 4" using unsigned_less [of pid, where ?'a = nat] by simp
  ultimately show "\<exists>c'. ReceiveStartupMessage fixture_pgproto c = (Inr (PgCancelRequest pid key), c')"
    using k by (simp add: fixture_pgproto_def returnIO_def c be_val_be_bytes)
qed

theorem relay_upstream_answers_witness:
  "let server = (fixture_conn [])\<lparr>Inp := Out (snd (my_forward
       (fixture_conn (my_packets.frames [(0, [0x11]), (0, [0x0e]), (0, [1])])) (fixture_conn [])))\<rparr>
   in Out (fake_commands 0 ''app'' server) = my_frame 1 (fake_myOK 0)"
proof -
  let ?ps = "[(0, [0x11]), (0, [0x0e]), (0, [1])] :: (byte \<times> bytes) list"
  let ?up = "Out (snd (my_forward (fixture_conn (my_packets.frames ?ps)) (fixture_conn [])))"
  have k: "filter (\<lambda>(seq, b). \<not> change_user seq b) ?ps = [(0, [0x0e]), (0, [1])]" by (simp add: change_user_def)
  have a: "fake_replies 0 ''app'' [(0, [0x0e]), (0, [1])] = [(1, fake_myOK 0)]"
    by (simp add: fake_replies_def fake_quit_def fake_answer_def)
  have "\<forall>(seq, b)\<in>set ?ps. length b < 2 ^ 24" "my_incomplete []"
    "Inp (fixture_conn (my_packets.frames ?ps)) = my_packets.frames ?ps @ []"
    "Out (fixture_conn []) = []" "Inp ((fixture_conn [])\<lparr>Inp := ?up\<rparr>) = ?up"
    by (simp_all add: my_incomplete_def fixture_conn_def)
  note r = relay_upstream_answers [OF this(1-4) _ this(5), of 0 "''app''"]
  have "Out (fake_commands 0 ''app'' ((fixture_conn [])\<lparr>Inp := ?up\<rparr>)) =
      Out ((fixture_conn [])\<lparr>Inp := ?up\<rparr>) @ my_packets.frames [(1, fake_myOK 0)]"
    using r unfolding k a by (simp add: fixture_conn_def)
  then show ?thesis unfolding Let_def by (simp add: fixture_conn_def)
qed

theorem fake_mysql_login_witness:
  "let sha1 = (\<lambda>_. replicate 20 (7 :: byte)); resp = fake_client 0 (replicate 28 0) ''app'' (replicate 20 0) ''db'' in
   snd (fake_serveMySQL sha1 (fixture_conn (my_frame 1 resp)) fixture_fakedb) =
     fixture_fakedb\<lparr>startups := [[''user'' \<mapsto> ''app'', ''database'' \<mapsto> ''db'']]\<rparr>"
proof -
  let ?sha1 = "\<lambda>_. replicate 20 (7 :: byte)"
  let ?c = "fixture_conn (my_frame 1 (fake_client 0 (replicate 28 0) ''app'' (replicate 20 0) ''db''))"
  have "replicate 20 0 = nativeScramble ?sha1 fake_salt (FakePassword fixture_fakedb)"
    by (simp add: nativeScramble_def replicate_numeral)
  moreover have "''app'' = FakeUser fixture_fakedb" "startups fixture_fakedb = []" by (simp_all add: fixture_fakedb_def)
  moreover have "length (replicate 28 (0::byte)) = 28" "NUL \<notin> set ''app''" "NUL \<notin> set ''db''"
    "length (replicate 20 (0::byte)) < 256"
    "length (fake_client 0 (replicate 28 0) ''app'' (replicate 20 0) ''db'') < 2 ^ 24"
    "Inp ?c = my_frame 1 (fake_client 0 (replicate 28 0) ''app'' (replicate 20 0) ''db'')"
    "Budget ?c \<ge> 2" "Out ?c = []"
    by (simp_all add: fake_client_def)
  note fake_mysql_login [OF this, of fixture_fakedb ?sha1]
  ultimately show ?thesis unfolding Let_def by simp
qed

theorem cancel_reaches_upstream_witness:
  "\<exists>b'. PgCanceled (servePostgres fixture_platform fixture_service (fixture_pg_env (Cancels fixture_run))
      (fixture_conn (pg_encode_hello (HelloCancel fake_key))) fixture_azure) = Some (Upstream fixture_azure, Some b') \<and>
    (\<exists>server'. PostgresDialer fixture_pgproto (Upstream fixture_azure) (fixture_conn (Out b')) fixture_fakedb =
       Some (server', fixture_fakedb\<lparr>dials := [Upstream fixture_azure], cancels := [4242]\<rparr>))"
proof -
  let ?E = "fixture_pg_env (Cancels fixture_run)" and ?c = "fixture_conn (pg_encode_hello (HelloCancel fake_key))"
  have k: "fixture_key = fake_key" by (simp add: fixture_key_def fake_key_def pgPID_def pgSecret_def)
  have "Inp ?c = concat (replicate 0 pg_encode_gss) @ pg_encode_hello (HelloCancel fake_key) @ []" by simp
  moreover have "PgCancels ?E = Cancels fixture_run" "PgDial ?E (Upstream fixture_azure) = Inr (fixture_conn [])"
    "Budget (fixture_conn []) > 0" "Out (fixture_conn []) = []" "Budget ?c \<ge> 0"
    by simp_all
  ultimately obtain b' where b': "PgCanceled (servePostgres fixture_platform fixture_service ?E ?c fixture_azure) =
      Some (Upstream fixture_azure, Some b')"
    "\<forall>server. Inp server = Out b' \<longrightarrow> (\<exists>server'. PostgresDialer fixture_pgproto (Upstream fixture_azure) server fixture_fakedb =
       Some (server', fixture_fakedb\<lparr>dials := dials fixture_fakedb @ [Upstream fixture_azure],
         cancels := cancels fixture_fakedb @ [pgPID]\<rparr>))"
    using cancel_reaches_upstream [OF fixture_run fixture_run_simps(1) [unfolded k] fixture_run_simps(2)
        _ _ _ _ _ _ fixture_pgproto_reads, of ?E "fixture_conn []" ?c 0 "[]" fixture_fakedb] by blast
  then show ?thesis by (intro exI [of _ b']) (simp add: fixture_fakedb_def pgPID_def)
qed

theorem fake_postgres_ends_witness:
  "\<exists>c' s'. fake_servePostgres fixture_pgproto (fixture_conn []) fixture_fakedb = Some (c', s')"
proof -
  have "\<forall>c m c'. Receive fixture_pgproto c = (Inr m, c') \<longrightarrow> length (Inp c') < length (Inp c)"
    by (auto simp: fixture_pgproto_def go_simps)
  from fake_postgres_ends [OF this, of "fixture_conn []" fixture_fakedb] show ?thesis by blast
qed

end
