(* ===== verification/MemConn.thy ===== *)
theory MemConn
  imports Prelude
begin

text \<open>
  In-memory connections (\<^verbatim>\<open>iamproxy/memconn.go\<close>): a bounded buffer per direction, the pipe of two of
  them, and the goroutines that read and write it. What runs while a goroutine holds the buffer's
  mutex is one function here, and reads the clock once; a goroutine that has to wait keeps the
  generation of the channel \<^verbatim>\<open>changed\<close> that it waits for, which \<^verbatim>\<open>broadcast\<close> replaces. The step
  relation \<open>mem_step\<close> interleaves the critical sections of any number of goroutines.
\<close>

section \<open>One direction\<close>

definition memBufferLimit :: nat where
  "memBufferLimit = 1048576"

text \<open>\<^const>\<open>None\<close> is the zero time; \<open>Changed\<close> counts the channels \<^verbatim>\<open>changed\<close> has been.\<close>

record memBuffer =
  Data :: bytes
  WriteClosed :: bool
  ReadClosed :: bool
  Changed :: nat
  ReadDeadline :: "time option"
  WriteDeadline :: "time option"

definition newMemBuffer :: memBuffer where
  "newMemBuffer = \<lparr>Data = [], WriteClosed = False, ReadClosed = False, Changed = 0, ReadDeadline = None,
     WriteDeadline = None\<rparr>"

definition broadcast :: "memBuffer \<Rightarrow> memBuffer" where
  "broadcast b = b\<lparr>Changed := Suc (Changed b)\<rparr>"

definition expired :: "time \<Rightarrow> time option \<Rightarrow> bool" where
  "expired now deadline \<longleftrightarrow> (case deadline of None \<Rightarrow> False | Some d \<Rightarrow> \<not> now < d)"

text \<open>
  \<^verbatim>\<open>wait\<close> up to the point where it releases the mutex: the generation and the timer to wait for, or
  the error when the deadline has passed.
\<close>

definition wait_start :: "time \<Rightarrow> time option \<Rightarrow> memBuffer \<Rightarrow> (nat \<times> time option) result" where
  "wait_start now deadline b =
     (case deadline of
        None \<Rightarrow> Inr (Changed b, None)
      | Some d \<Rightarrow> if d - now \<le> 0 then Inl ErrDeadlineExceeded else Inr (Changed b, Some d))"

text \<open>The \<^verbatim>\<open>select\<close> of \<^verbatim>\<open>wait\<close>: woken by a broadcast, or by the timer.\<close>

definition wait_woken :: "nat \<Rightarrow> memBuffer \<Rightarrow> bool" where
  "wait_woken gen b \<longleftrightarrow> Changed b \<noteq> gen"

definition wait_timeout :: "time \<Rightarrow> time option \<Rightarrow> bool" where
  "wait_timeout now timer \<longleftrightarrow> (case timer of None \<Rightarrow> False | Some d \<Rightarrow> d \<le> now)"

datatype 'a section_end =
    Return 'a "go_error option"
  | Wait 'a nat "time option"    \<comment> \<open>what is done so far, and what to wait for\<close>

definition wait_or :: "'a \<Rightarrow> time \<Rightarrow> time option \<Rightarrow> memBuffer \<Rightarrow> 'a section_end \<times> memBuffer" where
  "wait_or x now deadline b =
     (case wait_start now deadline b of
        Inl e \<Rightarrow> (Return x (Some e), b)
      | Inr (gen, timer) \<Rightarrow> (Wait x gen timer, b))"

text \<open>One iteration of \<^verbatim>\<open>read\<close> for a buffer of \<open>n\<close> bytes, from locking to returning or waiting.\<close>

definition mem_read :: "time \<Rightarrow> nat \<Rightarrow> memBuffer \<Rightarrow> bytes section_end \<times> memBuffer" where
  "mem_read now n b =
     (if ReadClosed b then (Return [] (Some ErrClosed), b)
      else if expired now (ReadDeadline b) then (Return [] (Some ErrDeadlineExceeded), b)
      else if length (Data b) > 0 then
        (Return (take n (Data b)) None, broadcast (b\<lparr>Data := drop n (Data b)\<rparr>))
      else if WriteClosed b then (Return [] (Some EOF), b)
      else wait_or [] now (ReadDeadline b) b)"

text \<open>\<^verbatim>\<open>write\<close> of \<open>p\<close>, of which \<open>written\<close> bytes are in the buffer already.\<close>

function mem_write :: "time \<Rightarrow> bytes \<Rightarrow> nat \<Rightarrow> memBuffer \<Rightarrow> nat section_end \<times> memBuffer" where
  "mem_write now p written b =
     (if \<not> written < length p then (Return written None, b)
      else if WriteClosed b then (Return written (Some ErrClosed), b)
      else if ReadClosed b then (Return written (Some ErrClosedPipe), b)
      else if expired now (WriteDeadline b) then (Return written (Some ErrDeadlineExceeded), b)
      else let room = memBufferLimit - length (Data b) in
      if room > 0 then
        let n = min room (length p - written) in
        mem_write now p (written + n)
          (broadcast (b\<lparr>Data := Data b @ take n (drop written p)\<rparr>))
      else wait_or written now (WriteDeadline b) b)"
  by pat_completeness auto

termination
  by (relation "measure (\<lambda>(now, p, written, b). length p - written)") auto

declare mem_write.simps [simp del]

definition mem_update :: "(memBuffer \<Rightarrow> memBuffer) \<Rightarrow> memBuffer \<Rightarrow> memBuffer" where
  "mem_update f b = broadcast (f b)"

section \<open>The pipe\<close>

datatype mem_side = Client | Server

fun peer :: "mem_side \<Rightarrow> mem_side" where
  "peer Client = Server"
| "peer Server = Client"

text \<open>
  \<open>In e\<close> is the buffer that end \<open>e\<close> reads from, which is the one its peer writes to; \<open>Local e\<close> is the
  end's own address.
\<close>

record memPipe =
  In :: "mem_side \<Rightarrow> memBuffer"
  CloseOnce :: "mem_side \<Rightarrow> bool"
  Local :: "mem_side \<Rightarrow> string"

definition mem_pipe :: "string \<Rightarrow> string \<Rightarrow> memPipe" where
  "mem_pipe clientAddr serverAddr =
     \<lparr>In = (\<lambda>_. newMemBuffer), CloseOnce = (\<lambda>_. False),
      Local = (\<lambda>e. case e of Client \<Rightarrow> clientAddr | Server \<Rightarrow> serverAddr)\<rparr>"

definition LocalAddr :: "mem_side \<Rightarrow> memPipe \<Rightarrow> string" where
  "LocalAddr e c = Local c e"

definition RemoteAddr :: "mem_side \<Rightarrow> memPipe \<Rightarrow> string" where
  "RemoteAddr e c = Local c (peer e)"

definition set_in :: "mem_side \<Rightarrow> memBuffer \<Rightarrow> memPipe \<Rightarrow> memPipe" where
  "set_in e b c = c\<lparr>In := (In c)(e := b)\<rparr>"

text \<open>The two critical sections of \<^verbatim>\<open>Close\<close>, which its \<^verbatim>\<open>sync.Once\<close> runs once.\<close>

definition close_in :: "mem_side \<Rightarrow> memPipe \<Rightarrow> memPipe" where
  "close_in e c = set_in e (mem_update (\<lambda>b. b\<lparr>ReadClosed := True\<rparr>) (In c e)) c"

definition close_out :: "mem_side \<Rightarrow> memPipe \<Rightarrow> memPipe" where
  "close_out e c = set_in (peer e) (mem_update (\<lambda>b. b\<lparr>WriteClosed := True\<rparr>) (In c (peer e))) c"

definition close_once :: "mem_side \<Rightarrow> memPipe \<Rightarrow> memPipe" where
  "close_once e c = c\<lparr>CloseOnce := (CloseOnce c)(e := True)\<rparr>"

definition mem_Close :: "mem_side \<Rightarrow> memPipe \<Rightarrow> memPipe" where
  "mem_Close e c = (if CloseOnce c e then c else close_out e (close_in e (close_once e c)))"

definition SetReadDeadline :: "mem_side \<Rightarrow> time option \<Rightarrow> memPipe \<Rightarrow> memPipe" where
  "SetReadDeadline e t c = set_in e (mem_update (\<lambda>b. b\<lparr>ReadDeadline := t\<rparr>) (In c e)) c"

definition SetWriteDeadline :: "mem_side \<Rightarrow> time option \<Rightarrow> memPipe \<Rightarrow> memPipe" where
  "SetWriteDeadline e t c = set_in (peer e) (mem_update (\<lambda>b. b\<lparr>WriteDeadline := t\<rparr>) (In c (peer e))) c"

definition SetDeadline :: "mem_side \<Rightarrow> time option \<Rightarrow> memPipe \<Rightarrow> memPipe" where
  "SetDeadline e t c = SetWriteDeadline e t (SetReadDeadline e t c)"

section \<open>Goroutines\<close>

text \<open>
  A goroutine inside \<^verbatim>\<open>wait\<close>, with the call it will resume, or between the two critical sections
  of \<^verbatim>\<open>Close\<close>. The state adds to the pipe these
  goroutines, and what has been put into and taken out of each buffer so far.
\<close>

datatype mem_waiter =
    Reader mem_side nat nat "time option"          \<comment> \<open>end, size, generation, timer\<close>
  | Writer mem_side bytes nat nat "time option"    \<comment> \<open>end, bytes, written, generation, timer\<close>
  | Closer mem_side

record mem_state =
  Pipe :: memPipe
  Waiters :: "nat \<rightharpoonup> mem_waiter"
  Sent :: "mem_side \<Rightarrow> bytes"
  Received :: "mem_side \<Rightarrow> bytes"

definition mem_start :: "string \<Rightarrow> string \<Rightarrow> mem_state" where
  "mem_start clientAddr serverAddr =
     \<lparr>Pipe = mem_pipe clientAddr serverAddr, Waiters = Map.empty, Sent = (\<lambda>_. []), Received = (\<lambda>_. [])\<rparr>"

text \<open>A critical section of a goroutine's \<^verbatim>\<open>Read\<close> and \<^verbatim>\<open>Write\<close>.\<close>

definition run_read :: "nat \<Rightarrow> time \<Rightarrow> mem_side \<Rightarrow> nat \<Rightarrow> mem_state \<Rightarrow> mem_state" where
  "run_read g now e n s =
     (case mem_read now n (In (Pipe s) e) of
        (Return got err, b) \<Rightarrow>
          s\<lparr>Pipe := set_in e b (Pipe s), Waiters := (Waiters s)(g := None),
            Received := (Received s)(e := Received s e @ got)\<rparr>
      | (Wait _ gen timer, b) \<Rightarrow>
          s\<lparr>Pipe := set_in e b (Pipe s), Waiters := (Waiters s)(g \<mapsto> Reader e n gen timer)\<rparr>)"

definition run_write :: "nat \<Rightarrow> time \<Rightarrow> mem_side \<Rightarrow> bytes \<Rightarrow> nat \<Rightarrow> mem_state \<Rightarrow> mem_state" where
  "run_write g now e p written s =
     (let put = (\<lambda>w. (Sent s)(peer e := Sent s (peer e) @ take (w - written) (drop written p)))
      in case mem_write now p written (In (Pipe s) (peer e)) of
        (Return w err, b) \<Rightarrow>
          s\<lparr>Pipe := set_in (peer e) b (Pipe s), Waiters := (Waiters s)(g := None), Sent := put w\<rparr>
      | (Wait w gen timer, b) \<Rightarrow>
          s\<lparr>Pipe := set_in (peer e) b (Pipe s), Waiters := (Waiters s)(g \<mapsto> Writer e p w gen timer),
            Sent := put w\<rparr>)"

inductive mem_step :: "mem_state \<Rightarrow> mem_state \<Rightarrow> bool" where
  step_read: "Waiters s g = None \<Longrightarrow> mem_step s (run_read g now e n s)"
| step_write: "Waiters s g = None \<Longrightarrow> mem_step s (run_write g now e p 0 s)"
| step_read_woken: "Waiters s g = Some (Reader e n gen timer) \<Longrightarrow> wait_woken gen (In (Pipe s) e) \<Longrightarrow>
    mem_step s (run_read g now e n s)"
| step_write_woken: "Waiters s g = Some (Writer e p w gen timer) \<Longrightarrow> wait_woken gen (In (Pipe s) (peer e)) \<Longrightarrow>
    mem_step s (run_write g now e p w s)"
| step_read_timeout: "Waiters s g = Some (Reader e n gen timer) \<Longrightarrow> wait_timeout now timer \<Longrightarrow>
    mem_step s (s\<lparr>Waiters := (Waiters s)(g := None)\<rparr>)"
| step_write_timeout: "Waiters s g = Some (Writer e p w gen timer) \<Longrightarrow> wait_timeout now timer \<Longrightarrow>
    mem_step s (s\<lparr>Waiters := (Waiters s)(g := None)\<rparr>)"
| step_close: "Waiters s g = None \<Longrightarrow> \<not> CloseOnce (Pipe s) e \<Longrightarrow>
    mem_step s (s\<lparr>Pipe := close_in e (close_once e (Pipe s)), Waiters := (Waiters s)(g \<mapsto> Closer e)\<rparr>)"
| step_close_out: "Waiters s g = Some (Closer e) \<Longrightarrow>
    mem_step s (s\<lparr>Pipe := close_out e (Pipe s), Waiters := (Waiters s)(g := None)\<rparr>)"
| step_read_deadline: "mem_step s (s\<lparr>Pipe := SetReadDeadline e t (Pipe s)\<rparr>)"
| step_write_deadline: "mem_step s (s\<lparr>Pipe := SetWriteDeadline e t (Pipe s)\<rparr>)"

inductive_cases mem_stepE: "mem_step s s'"

inductive mem_reach :: "mem_state \<Rightarrow> bool" where
  reach_start: "mem_reach (mem_start clientAddr serverAddr)"
| reach_step: "mem_reach s \<Longrightarrow> mem_step s s' \<Longrightarrow> mem_reach s'"

section \<open>The listener\<close>

text \<open>
  \<^verbatim>\<open>Accept\<close> and the sending side of the unbuffered channel \<^verbatim>\<open>conns\<close> meet in one step; what is modelled of
  the listener is whether it is closed and the connections handed over so far.
\<close>

record memListener =
  ListenAddr :: string
  ListenerDone :: bool
  Accepted :: "memPipe list"

definition newMemListener :: "string \<Rightarrow> memListener" where
  "newMemListener addr = \<lparr>ListenAddr = addr, ListenerDone = False, Accepted = []\<rparr>"

definition listener_Close :: "memListener \<Rightarrow> memListener" where
  "listener_Close l = (if ListenerDone l then l else l\<lparr>ListenerDone := True\<rparr>)"

end
