(* ===== verification/MemConnProps.thy ===== *)
theory MemConnProps
  imports MemConn
begin

text \<open>
  Correctness of in-memory connections: in every interleaving of readers, writers, closes and deadline
  changes, a buffer holds exactly what was written and not yet read, and at most a mebibyte; each
  direction refines a byte stream that is described without buffers, waiting or locks; and no
  wake-up is lost.
\<close>

section \<open>Critical sections\<close>

fun progress :: "'a section_end \<Rightarrow> 'a" where
  "progress (Return x e) = x"
| "progress (Wait x gen timer) = x"

lemma broadcast_simps [simp]:
  "Data (broadcast b) = Data b" "WriteClosed (broadcast b) = WriteClosed b" "ReadClosed (broadcast b) = ReadClosed b"
  "Changed (broadcast b) = Suc (Changed b)" "ReadDeadline (broadcast b) = ReadDeadline b"
  "WriteDeadline (broadcast b) = WriteDeadline b"
  by (simp_all add: broadcast_def)

text \<open>Every change of a buffer is a broadcast.\<close>

definition notifies :: "memBuffer \<Rightarrow> memBuffer \<Rightarrow> bool" where
  "notifies b b' \<longleftrightarrow> b' = b \<or> Changed b < Changed b'"

lemma notifies_refl [simp]: "notifies b b"
  by (simp add: notifies_def)

lemma notifies_broadcast: "Changed b' = Changed b \<Longrightarrow> notifies b (broadcast b')"
  by (simp add: notifies_def)

lemma wait_or_cases:
  obtains (expired) "wait_or x now d b = (Return x (Some ErrDeadlineExceeded), b)"
  | (wait) "wait_or x now d b = (Wait x (Changed b) d, b)"
proof (cases d)
  case None
  then show ?thesis by (intro wait) (simp add: wait_or_def wait_start_def)
next
  case (Some t)
  then show ?thesis
    by (cases "t \<le> now") (intro expired wait; simp add: wait_or_def wait_start_def)+
qed

lemma mem_read_cases:
  obtains (stop) err where "mem_read now n b = (Return [] err, b)"
  | (take) "mem_read now n b = (Return (take n (Data b)) None, broadcast (b\<lparr>Data := drop n (Data b)\<rparr>))"
      "\<not> ReadClosed b" "Data b \<noteq> []"
  | (wait) "mem_read now n b = (Wait [] (Changed b) (ReadDeadline b), b)" "Data b = []" "\<not> WriteClosed b"
      "\<not> ReadClosed b"
proof (cases "ReadClosed b \<or> expired now (ReadDeadline b) \<or> Data b = [] \<and> WriteClosed b")
  case True
  have "\<exists>err. mem_read now n b = (Return [] err, b)"
  proof (cases "ReadClosed b \<or> expired now (ReadDeadline b)")
    case True
    then show ?thesis by (cases "ReadClosed b") (simp_all add: mem_read_def)
  next
    case False
    with True show ?thesis by (simp add: mem_read_def)
  qed
  then show ?thesis using stop by blast
next
  case open': False
  show ?thesis
  proof (cases "Data b = []")
    case True
    with open' have "mem_read now n b = wait_or [] now (ReadDeadline b) b" by (simp add: mem_read_def)
    with open' True show ?thesis
      by (cases rule: wait_or_cases [of "[] :: bytes" now "ReadDeadline b" b]) (auto intro: stop wait)
  next
    case False
    with open' show ?thesis by (intro take) (simp_all add: mem_read_def)
  qed
qed

lemma mem_read_effect:
  assumes "mem_read now n b = (r, b')"
  shows "Data b = progress r @ Data b'" "WriteClosed b' = WriteClosed b" "ReadClosed b' = ReadClosed b"
    "notifies b b'" "progress r \<noteq> [] \<Longrightarrow> \<not> ReadClosed b"
    "r = Wait x gen timer \<Longrightarrow> b' = b \<and> gen = Changed b \<and> timer = ReadDeadline b \<and> Data b = [] \<and>
       \<not> WriteClosed b \<and> \<not> ReadClosed b"
  by (cases rule: mem_read_cases [of now n b]; use assms in \<open>auto simp: notifies_broadcast\<close>)+

definition write_effect :: "bytes \<Rightarrow> nat \<Rightarrow> memBuffer \<Rightarrow> nat section_end \<Rightarrow> memBuffer \<Rightarrow> bool" where
  "write_effect p written b r b' \<longleftrightarrow>
     written \<le> progress r \<and> Data b' = Data b @ take (progress r - written) (drop written p) \<and>
     WriteClosed b' = WriteClosed b \<and> ReadClosed b' = ReadClosed b \<and>
     notifies b b' \<and> length (Data b') \<le> max memBufferLimit (length (Data b)) \<and>
     (progress r \<noteq> written \<longrightarrow> \<not> WriteClosed b \<and> \<not> ReadClosed b) \<and>
     (\<forall>x gen timer. r = Wait x gen timer \<longrightarrow> gen = Changed b' \<and> timer = WriteDeadline b' \<and>
        memBufferLimit \<le> length (Data b') \<and> \<not> WriteClosed b \<and> \<not> ReadClosed b \<and> x < length p)"

lemma write_effect_stop:
  "(\<And>x gen timer. r \<noteq> Wait x gen timer) \<Longrightarrow> progress r = written \<Longrightarrow> write_effect p written b r b"
  by (simp add: write_effect_def)

lemma take_drop_split:
  "k \<le> m \<Longrightarrow> take k xs @ take (m - k) (drop k xs) = take m xs"
  by (metis le_add_diff_inverse take_add)

lemma write_effect_put:
  assumes "room = memBufferLimit - length (Data b)" "n = min room (length p - written)" "\<not> WriteClosed b" "\<not> ReadClosed b"
    and "write_effect p (written + n) (broadcast (b\<lparr>Data := Data b @ take n (drop written p)\<rparr>)) r b'"
  shows "write_effect p written b r b'"
proof -
  let ?b = "broadcast (b\<lparr>Data := Data b @ take n (drop written p)\<rparr>)"
  have w: "written + n \<le> progress r"
    and d: "Data b' = (Data b @ take n (drop written p)) @ take (progress r - (written + n)) (drop (written + n) p)"
    using assms(5) by (simp_all add: write_effect_def)
  have "take n (drop written p) @ take (progress r - written - n) (drop n (drop written p)) =
      take (progress r - written) (drop written p)"
    using w by (intro take_drop_split) simp
  then have "Data b' = Data b @ take (progress r - written) (drop written p)"
    using d by (simp add: add.commute diff_diff_add)
  moreover have "WriteClosed b' = WriteClosed b" "ReadClosed b' = ReadClosed b" "notifies b b'"
    using assms(5) by (auto simp: write_effect_def notifies_def)
  moreover have "length (Data b') \<le> max memBufferLimit (length (Data b))"
  proof -
    have "length (Data ?b) \<le> max memBufferLimit (length (Data b))" using assms(1,2) by simp
    moreover have "length (Data b') \<le> max memBufferLimit (length (Data ?b))"
      using assms(5) unfolding write_effect_def by blast
    ultimately show ?thesis by linarith
  qed
  moreover have "\<forall>x gen timer. r = Wait x gen timer \<longrightarrow> gen = Changed b' \<and> timer = WriteDeadline b' \<and>
        memBufferLimit \<le> length (Data b') \<and> \<not> WriteClosed b \<and> \<not> ReadClosed b \<and> x < length p"
    using assms(5) unfolding write_effect_def broadcast_simps by auto
  moreover have "written \<le> progress r" using w by simp
  ultimately show ?thesis
    using assms(3,4) unfolding write_effect_def by blast
qed

abbreviation fits_now :: "bytes \<Rightarrow> nat \<Rightarrow> memBuffer \<Rightarrow> nat" where
  "fits_now p written b \<equiv> min (memBufferLimit - length (Data b)) (length p - written)"

lemma mem_write_cases:
  obtains (stop) err where "mem_write now p written b = (Return written err, b)"
  | (put) "mem_write now p written b =
        mem_write now p (written + fits_now p written b)
          (broadcast (b\<lparr>Data := Data b @ take (fits_now p written b) (drop written p)\<rparr>))"
      "written < length p" "\<not> WriteClosed b" "\<not> ReadClosed b" "\<not> expired now (WriteDeadline b)"
      "memBufferLimit - length (Data b) > 0"
  | (full) "mem_write now p written b = (Wait written (Changed b) (WriteDeadline b), b)"
      "written < length p" "\<not> WriteClosed b" "\<not> ReadClosed b" "memBufferLimit \<le> length (Data b)"
proof (cases "written < length p \<and> \<not> WriteClosed b \<and> \<not> ReadClosed b \<and> \<not> expired now (WriteDeadline b)")
  case False
  have "\<exists>err. mem_write now p written b = (Return written err, b)"
  proof (cases "written < length p \<and> \<not> WriteClosed b \<and> \<not> ReadClosed b")
    case True
    with False show ?thesis by (simp add: mem_write.simps [of now p written b])
  next
    case nope: False
    then show ?thesis
      by (cases "written < length p"; cases "WriteClosed b") (simp_all add: mem_write.simps [of now p written b])
  qed
  then show ?thesis using stop by blast
next
  case open': True
  show ?thesis
  proof (cases "memBufferLimit - length (Data b) > 0")
    case True
    with open' show ?thesis by (intro put) (simp_all add: mem_write.simps [of now p written b] Let_def)
  next
    case False
    with open' have "mem_write now p written b = wait_or written now (WriteDeadline b) b"
      by (simp add: mem_write.simps [of now p written b])
    with open' False show ?thesis
      by (cases rule: wait_or_cases [of written now "WriteDeadline b" b]) (auto intro: stop full)
  qed
qed

lemma mem_write_effect: "mem_write now p written b = (r, b') \<Longrightarrow> write_effect p written b r b'"
proof (induction now p written b arbitrary: r b' rule: mem_write.induct)
  case (1 now p written b)
  let ?n = "fits_now p written b"
  show ?case
  proof (cases rule: mem_write_cases [of now p written b])
    case (stop err)
    with 1(2) have "r = Return written err" "b' = b" by auto
    then show ?thesis by (auto intro: write_effect_stop)
  next
    case put
    have "write_effect p (written + ?n) (broadcast (b\<lparr>Data := Data b @ take ?n (drop written p)\<rparr>)) r b'"
    proof (rule 1(1) [OF _ put(3-5) refl put(6) refl])
      show "\<not> \<not> written < length p" using put(2) by blast
    qed (rule put(1) [symmetric, THEN trans, OF 1(2)])
    from write_effect_put [OF refl refl put(3,4) this] show ?thesis .
  next
    case full
    with 1(2) show ?thesis by (auto simp: write_effect_def)
  qed
qed

section \<open>Steps\<close>

lemma In_set_in [simp]: "In (set_in e b c) = (In c)(e := b)"
  by (simp add: set_in_def)

lemma run_read_effect:
  assumes "mem_read now n (In (Pipe s) e) = (r, b)"
  shows "In (Pipe (run_read g now e n s)) = (In (Pipe s))(e := b)"
    "Received (run_read g now e n s) = (Received s)(e := Received s e @ progress r)"
    "Sent (run_read g now e n s) = Sent s"
    "Waiters (run_read g now e n s) = (Waiters s)(g := (case r of Return got err \<Rightarrow> None
       | Wait x gen timer \<Rightarrow> Some (Reader e n gen timer)))"
  by (cases rule: mem_read_cases [of now n "In (Pipe s) e"]; use assms in \<open>auto simp: run_read_def\<close>)+

lemma run_write_effect:
  assumes "mem_write now p written (In (Pipe s) (peer e)) = (r, b)"
  shows "In (Pipe (run_write g now e p written s)) = (In (Pipe s))(peer e := b)"
    "Received (run_write g now e p written s) = Received s"
    "Sent (run_write g now e p written s) =
       (Sent s)(peer e := Sent s (peer e) @ take (progress r - written) (drop written p))"
    "Waiters (run_write g now e p written s) = (Waiters s)(g := (case r of Return w err \<Rightarrow> None
       | Wait w gen timer \<Rightarrow> Some (Writer e p w gen timer)))"
  by (cases r; use assms in \<open>simp add: run_write_def\<close>)+

lemma In_close:
  "In (close_once e c) = In c" "CloseOnce (close_in e c) = CloseOnce c"
  "In (close_in e c) = (In c)(e := broadcast ((In c e)\<lparr>ReadClosed := True\<rparr>))"
  "In (close_out e c) = (In c)(peer e := broadcast ((In c (peer e))\<lparr>WriteClosed := True\<rparr>))"
  "In (SetReadDeadline e t c) = (In c)(e := broadcast ((In c e)\<lparr>ReadDeadline := t\<rparr>))"
  "In (SetWriteDeadline e t c) = (In c)(peer e := broadcast ((In c (peer e))\<lparr>WriteDeadline := t\<rparr>))"
  by (simp_all add: close_once_def close_in_def close_out_def SetReadDeadline_def SetWriteDeadline_def
      mem_update_def set_in_def)

text \<open>What a step can do to one direction: the two sides of each buffer, and everything else.\<close>

lemma mem_step_direction:
  assumes "mem_step s s'"
  obtains (reads) now n r where "mem_read now n (In (Pipe s) d) = (r, In (Pipe s') d)"
      "Received s' d = Received s d @ progress r" "Sent s' d = Sent s d"
  | (writes) now p w r where "mem_write now p w (In (Pipe s) d) = (r, In (Pipe s') d)"
      "Sent s' d = Sent s d @ take (progress r - w) (drop w p)" "Received s' d = Received s d"
  | (control) b where "In (Pipe s') d = broadcast b" "Changed b = Changed (In (Pipe s) d)"
      "Data b = Data (In (Pipe s) d)" "WriteClosed (In (Pipe s) d) \<longrightarrow> WriteClosed b"
      "ReadClosed (In (Pipe s) d) \<longrightarrow> ReadClosed b"
      "ReadClosed b = ReadClosed (In (Pipe s) d) \<or> WriteClosed b = WriteClosed (In (Pipe s) d)"
      "Sent s' d = Sent s d" "Received s' d = Received s d"
  | (idle) "In (Pipe s') d = In (Pipe s) d" "Sent s' d = Sent s d" "Received s' d = Received s d"
proof -
  have r: thesis if "s' = run_read g now e n s" for g now e n
  proof -
    obtain r b where m: "mem_read now n (In (Pipe s) e) = (r, b)" by (cases "mem_read now n (In (Pipe s) e)")
    note eff = run_read_effect [OF m, of g]
    show thesis
    proof (cases "d = e")
      case True
      with m eff that show ?thesis by (intro reads [of now n r]) simp_all
    next
      case False
      with eff that show ?thesis by (intro idle) simp_all
    qed
  qed
  have w: thesis if "s' = run_write g now e p w s" for g now e p w
  proof -
    obtain r b where m: "mem_write now p w (In (Pipe s) (peer e)) = (r, b)"
      by (cases "mem_write now p w (In (Pipe s) (peer e))")
    note eff = run_write_effect [OF m, of g]
    show thesis
    proof (cases "d = peer e")
      case True
      with m eff that show ?thesis by (intro writes [of now p w r]) simp_all
    next
      case False
      with eff that show ?thesis by (intro idle) simp_all
    qed
  qed
  have c: thesis if "In (Pipe s') = (In (Pipe s))(e := broadcast (f (In (Pipe s) e)))" "Sent s' = Sent s"
      "Received s' = Received s"
      "f = (\<lambda>b. b\<lparr>ReadClosed := True\<rparr>) \<or> f = (\<lambda>b. b\<lparr>WriteClosed := True\<rparr>) \<or>
       f = (\<lambda>b. b\<lparr>ReadDeadline := t\<rparr>) \<or> f = (\<lambda>b. b\<lparr>WriteDeadline := t\<rparr>)" for e f t
  proof (cases "d = e")
    case True
    with that show ?thesis by (intro control [of "f (In (Pipe s) e)"]) auto
  next
    case False
    with that show ?thesis by (intro idle) simp_all
  qed
  from assms show thesis
    by (cases rule: mem_step.cases) (auto intro: r w c idle simp: In_close fun_eq_iff)
qed

section \<open>Buffers\<close>

definition buffer_inv :: "mem_state \<Rightarrow> mem_side \<Rightarrow> bool" where
  "buffer_inv s d \<longleftrightarrow> Sent s d = Received s d @ Data (In (Pipe s) d) \<and>
     length (Data (In (Pipe s) d)) \<le> memBufferLimit"

lemma buffer_inv_start: "buffer_inv (mem_start a b) d"
  by (simp add: buffer_inv_def mem_start_def mem_pipe_def newMemBuffer_def)

lemma buffer_inv_step:
  assumes "mem_step s s'" "buffer_inv s d"
  shows "buffer_inv s' d"
  using assms(1)
proof (cases rule: mem_step_direction [where d = d])
  case (reads now n r)
  with assms(2) arg_cong [OF mem_read_effect(1) [OF reads(1)], of length] mem_read_effect(1) [OF reads(1)]
  show ?thesis by (simp add: buffer_inv_def)
next
  case (writes now p w r)
  from mem_write_effect [OF this(1)] assms(2) writes(2,3) show ?thesis
    unfolding buffer_inv_def write_effect_def by (metis append.assoc max.absorb1)
next
  case (control b)
  with assms(2) show ?thesis by (simp add: buffer_inv_def)
next
  case idle
  with assms(2) show ?thesis by (simp add: buffer_inv_def)
qed

lemma mem_reach_buffers: "mem_reach s \<Longrightarrow> buffer_inv s d"
  by (induction rule: mem_reach.induct) (auto intro: buffer_inv_start buffer_inv_step)

text \<open>
  C32: Nothing is lost, duplicated or reordered, and memory is bounded. In every interleaving of any
  number of readers, writers, closes and deadline changes, what has been written in a direction is
  what has been read of it, in order, followed by the content of the buffer, which never exceeds a
  mebibyte.
\<close>

theorem mem_buffers_fifo:
  assumes "mem_reach s"
  shows "Sent s d = Received s d @ Data (In (Pipe s) d) \<and> length (Data (In (Pipe s) d)) \<le> memBufferLimit"
  using mem_reach_buffers [OF assms] by (simp add: buffer_inv_def)

theorem mem_buffers_fifo_witness:
  "let s = run_read 0 0 Server 1 (run_write 0 0 Client [7, 8, 9] 0 (mem_start ''client'' ''db:5432'')) in
   Sent s Server = Received s Server @ Data (In (Pipe s) Server)"
proof -
  let ?s1 = "run_write 0 0 Client [7, 8, 9] 0 (mem_start ''client'' ''db:5432'')"
  have "Waiters (mem_start ''client'' ''db:5432'') 0 = None" by (simp add: mem_start_def)
  then have s1: "mem_reach ?s1" by (intro reach_step [OF reach_start step_write])
  have "Waiters ?s1 0 = None"
    by (simp add: run_write_def mem_start_def mem_pipe_def newMemBuffer_def mem_write.simps expired_def memBufferLimit_def)
  with s1 have "mem_reach (run_read 0 0 Server 1 ?s1)" by (intro reach_step [OF _ step_read])
  from mem_buffers_fifo [OF this] show ?thesis by simp
qed

section \<open>The stream it implements\<close>

text \<open>
  A direction as its two users see it: what was put in, what came out, and which side has ended it.
  Bytes go in as long as neither side has, and come out as long as the reader has not, a prefix of
  what went in. There is no buffer, no bound, no waiting and no lock.
\<close>

record channel =
  Input :: bytes
  Output :: bytes
  WEnd :: bool
  REnd :: bool

inductive channel_step :: "channel \<Rightarrow> channel \<Rightarrow> bool" where
  chan_idle: "channel_step c c"
| chan_put: "\<not> WEnd c \<Longrightarrow> \<not> REnd c \<Longrightarrow> channel_step c (c\<lparr>Input := Input c @ xs\<rparr>)"
| chan_take: "\<not> REnd c \<Longrightarrow> prefix (Output c @ xs) (Input c) \<Longrightarrow> channel_step c (c\<lparr>Output := Output c @ xs\<rparr>)"
| chan_end_write: "channel_step c (c\<lparr>WEnd := True\<rparr>)"
| chan_end_read: "channel_step c (c\<lparr>REnd := True\<rparr>)"

definition mem_channel :: "mem_state \<Rightarrow> mem_side \<Rightarrow> channel" where
  "mem_channel s d = \<lparr>Input = Sent s d, Output = Received s d, WEnd = WriteClosed (In (Pipe s) d),
     REnd = ReadClosed (In (Pipe s) d)\<rparr>"

lemma mem_channel_simps [simp]:
  "Input (mem_channel s d) = Sent s d" "Output (mem_channel s d) = Received s d"
  "WEnd (mem_channel s d) = WriteClosed (In (Pipe s) d)" "REnd (mem_channel s d) = ReadClosed (In (Pipe s) d)"
  by (simp_all add: mem_channel_def)

lemma mem_channel_step:
  assumes "mem_step s s'" "buffer_inv s d"
  shows "channel_step (mem_channel s d) (mem_channel s' d)"
  using assms(1)
proof (cases rule: mem_step_direction [where d = d])
  case (reads now n r)
  note eff = mem_read_effect [OF reads(1)]
  have c: "mem_channel s' d = (mem_channel s d)\<lparr>Output := Output (mem_channel s d) @ progress r\<rparr>"
    using reads eff(2,3) by (simp add: mem_channel_def)
  show ?thesis
  proof (cases "progress r = []")
    case True
    then have "mem_channel s' d = mem_channel s d" using c by simp
    then show ?thesis by (simp add: chan_idle)
  next
    case False
    have "prefix (Received s d @ progress r) (Sent s d)"
      using assms(2) eff(1) by (simp add: buffer_inv_def)
    then show ?thesis unfolding c using eff(5) [OF False] by (intro chan_take) simp_all
  qed
next
  case (writes now p w r)
  note eff = mem_write_effect [OF writes(1), unfolded write_effect_def]
  have c: "mem_channel s' d =
      (mem_channel s d)\<lparr>Input := Input (mem_channel s d) @ take (progress r - w) (drop w p)\<rparr>"
    using writes eff by (simp add: mem_channel_def)
  show ?thesis
  proof (cases "progress r = w")
    case True
    then have "mem_channel s' d = mem_channel s d" using c by simp
    then show ?thesis by (simp add: chan_idle)
  next
    case False
    then show ?thesis unfolding c using eff by (intro chan_put) simp_all
  qed
next
  case (control b)
  have w: "WriteClosed (In (Pipe s) d) \<Longrightarrow> WriteClosed b" "ReadClosed (In (Pipe s) d) \<Longrightarrow> ReadClosed b"
    using control(4,5) by blast+
  have c: "mem_channel s' d = (mem_channel s d)\<lparr>WEnd := WriteClosed b, REnd := ReadClosed b\<rparr>"
    using control by (simp add: mem_channel_def)
  from control(6) show ?thesis
  proof
    assume r: "ReadClosed b = ReadClosed (In (Pipe s) d)"
    show ?thesis
    proof (cases "WriteClosed b = WriteClosed (In (Pipe s) d)")
      case True
      with r c have "mem_channel s' d = mem_channel s d" by (simp add: mem_channel_def)
      then show ?thesis by (simp add: chan_idle)
    next
      case False
      with w(1) r c have "mem_channel s' d = (mem_channel s d)\<lparr>WEnd := True\<rparr>" by (auto simp: mem_channel_def)
      then show ?thesis by (simp add: chan_end_write)
    qed
  next
    assume r: "WriteClosed b = WriteClosed (In (Pipe s) d)"
    show ?thesis
    proof (cases "ReadClosed b = ReadClosed (In (Pipe s) d)")
      case True
      with r c have "mem_channel s' d = mem_channel s d" by (simp add: mem_channel_def)
      then show ?thesis by (simp add: chan_idle)
    next
      case False
      with w(2) r c have "mem_channel s' d = (mem_channel s d)\<lparr>REnd := True\<rparr>" by (auto simp: mem_channel_def)
      then show ?thesis by (simp add: chan_end_read)
    qed
  qed
next
  case idle
  then have "mem_channel s' d = mem_channel s d" by (simp add: mem_channel_def)
  then show ?thesis by (simp add: chan_idle)
qed

definition new_channel :: channel where
  "new_channel = \<lparr>Input = [], Output = [], WEnd = False, REnd = False\<rparr>"

inductive channel_reach :: "channel \<Rightarrow> bool" where
  chan_start: "channel_reach new_channel"
| chan_step: "channel_reach c \<Longrightarrow> channel_step c c' \<Longrightarrow> channel_reach c'"

lemma mem_reach_channel: "mem_reach s \<Longrightarrow> channel_reach (mem_channel s d)"
proof (induction rule: mem_reach.induct)
  case (reach_start a b)
  have "mem_channel (mem_start a b) d = new_channel"
    by (simp add: mem_channel_def new_channel_def mem_start_def mem_pipe_def newMemBuffer_def)
  then show ?case by (simp add: chan_start)
next
  case (reach_step s s')
  then show ?case using mem_channel_step mem_reach_buffers chan_step by blast
qed

text \<open>
  C33: The in-memory connection implements a byte stream. Forgetting the buffers, the waiting goroutines
  and the deadlines, every step of the connection is a step of the abstract channel in each direction
  (or none), so every reachable connection shows its users a reachable channel: nothing is read that
  was not written before, in order, nothing more is written once either side has closed, and nothing
  is read once the reader has.
\<close>

theorem mem_refines_channel:
  assumes "mem_reach s"
  shows "channel_reach (mem_channel s d) \<and>
    (\<forall>s'. mem_step s s' \<longrightarrow> channel_step (mem_channel s d) (mem_channel s' d))"
  using mem_reach_channel [OF assms] mem_channel_step mem_reach_buffers [OF assms] by blast

theorem mem_refines_channel_witness:
  "channel_reach (mem_channel (run_write 0 0 Client [7, 8, 9] 0 (mem_start ''client'' ''db:5432'')) Server)"
proof -
  have "Waiters (mem_start ''client'' ''db:5432'') 0 = None" by (simp add: mem_start_def)
  then have "mem_reach (run_write 0 0 Client [7, 8, 9] 0 (mem_start ''client'' ''db:5432''))"
    by (intro reach_step [OF reach_start step_write])
  from mem_refines_channel [OF this] show ?thesis by blast
qed

section \<open>Waking up\<close>

fun waiter_ok :: "mem_state \<Rightarrow> mem_waiter \<Rightarrow> bool" where
  "waiter_ok s (Reader e n gen timer) \<longleftrightarrow>
     (let b = In (Pipe s) e in gen \<le> Changed b \<and> (gen = Changed b \<longrightarrow>
        Data b = [] \<and> \<not> WriteClosed b \<and> \<not> ReadClosed b \<and> ReadDeadline b = timer))"
| "waiter_ok s (Writer e p w gen timer) \<longleftrightarrow>
     (let b = In (Pipe s) (peer e) in gen \<le> Changed b \<and> (gen = Changed b \<longrightarrow>
        memBufferLimit \<le> length (Data b) \<and> \<not> WriteClosed b \<and> \<not> ReadClosed b \<and> WriteDeadline b = timer))"
| "waiter_ok s (Closer e) \<longleftrightarrow> True"

lemma mem_step_notifies: "mem_step s s' \<Longrightarrow> notifies (In (Pipe s) d) (In (Pipe s') d)"
  by (cases rule: mem_step_direction [of s s' d])
    (auto dest: mem_read_effect(4) mem_write_effect simp: write_effect_def notifies_def)

lemma waiter_ok_step: "mem_step s s' \<Longrightarrow> waiter_ok s x \<Longrightarrow> waiter_ok s' x"
proof (cases x)
  case (Reader e n gen timer)
  assume "mem_step s s'" "waiter_ok s x"
  with Reader mem_step_notifies [of s s' e] show ?thesis by (auto simp: notifies_def Let_def)
next
  case (Writer e p w gen timer)
  assume "mem_step s s'" "waiter_ok s x"
  with Writer mem_step_notifies [of s s' "peer e"] show ?thesis by (auto simp: notifies_def Let_def)
qed simp

text \<open>A goroutine that goes to sleep has just seen that it must.\<close>

lemma run_read_waiter:
  "Waiters (run_read g now e n s) g = Some x \<Longrightarrow> waiter_ok (run_read g now e n s) x"
proof -
  assume w: "Waiters (run_read g now e n s) g = Some x"
  obtain r b where m: "mem_read now n (In (Pipe s) e) = (r, b)" by (cases "mem_read now n (In (Pipe s) e)")
  note eff = run_read_effect [OF m, of g]
  from w obtain y gen timer where r: "r = Wait y gen timer" "x = Reader e n gen timer"
    unfolding eff(4) by (auto split: section_end.splits)
  with mem_read_effect(6) [OF m r(1)] eff(1) show ?thesis by simp
qed

lemma write_effect_Wait:
  "write_effect p w b0 (Wait y gen timer) b \<Longrightarrow> gen = Changed b \<and> timer = WriteDeadline b \<and>
     memBufferLimit \<le> length (Data b) \<and> \<not> WriteClosed b \<and> \<not> ReadClosed b"
  unfolding write_effect_def by blast

lemma run_write_waiter:
  "Waiters (run_write g now e p w s) g = Some x \<Longrightarrow> waiter_ok (run_write g now e p w s) x"
proof -
  assume w: "Waiters (run_write g now e p w s) g = Some x"
  obtain r b where m: "mem_write now p w (In (Pipe s) (peer e)) = (r, b)"
    by (cases "mem_write now p w (In (Pipe s) (peer e))")
  note eff = run_write_effect [OF m, of g]
  from w obtain y gen timer where r: "r = Wait y gen timer" "x = Writer e p y gen timer"
    unfolding eff(4) by (auto split: section_end.splits)
  from write_effect_Wait [OF mem_write_effect [OF m, unfolded r(1)]] eff(1) r(2) show ?thesis by simp
qed

lemma run_other:
  "h \<noteq> g \<Longrightarrow> Waiters (run_read g now e n s) h = Waiters s h"
  "h \<noteq> g \<Longrightarrow> Waiters (run_write g now e p w s) h = Waiters s h"
  by (auto simp: run_read_def run_write_def Let_def split: prod.splits section_end.splits)

lemma mem_step_waiters:
  assumes "mem_step s s'" "\<forall>g x. Waiters s g = Some x \<longrightarrow> waiter_ok s x" "Waiters s' h = Some x"
  shows "waiter_ok s' x"
proof (cases "Waiters s h = Some x")
  case True
  with assms show ?thesis by (blast intro: waiter_ok_step)
next
  case False
  have r: "waiter_ok (run_read g now e n s) x" if "s' = run_read g now e n s" for g now e n
    using that False assms(3) run_read_waiter run_other(1) by (cases "h = g") metis+
  have w: "waiter_ok (run_write g now e p w s) x" if "s' = run_write g now e p w s" for g now e p w
    using that False assms(3) run_write_waiter run_other(2) by (cases "h = g") metis+
  from assms(1) show ?thesis
    by cases (use False assms(3) r w in \<open>auto split: if_splits\<close>)
qed

lemma mem_reach_waiters: "mem_reach s \<Longrightarrow> Waiters s g = Some x \<Longrightarrow> waiter_ok s x"
proof (induction arbitrary: g x rule: mem_reach.induct)
  case (reach_step s s')
  then show ?case using mem_step_waiters by blast
qed (simp add: mem_start_def)

text \<open>
  C34: No wake-up is lost. A goroutine that waits in \<^verbatim>\<open>Read\<close> or \<^verbatim>\<open>Write\<close> either has been woken
  (the channel it waits for is closed, and its next critical section can run), or there is nothing for it
  to do: a reader's buffer is empty, a writer's is full, neither side has closed, and the deadline is
  still the one its timer was set for.
\<close>

theorem mem_no_lost_wakeup:
  assumes "mem_reach s"
  shows "(\<forall>g e n gen timer. Waiters s g = Some (Reader e n gen timer) \<longrightarrow>
      (wait_woken gen (In (Pipe s) e) \<and> mem_step s (run_read g now e n s)) \<or>
      (Data (In (Pipe s) e) = [] \<and> \<not> WriteClosed (In (Pipe s) e) \<and> \<not> ReadClosed (In (Pipe s) e) \<and>
         ReadDeadline (In (Pipe s) e) = timer)) \<and>
    (\<forall>g e p w gen timer. Waiters s g = Some (Writer e p w gen timer) \<longrightarrow>
      (wait_woken gen (In (Pipe s) (peer e)) \<and> mem_step s (run_write g now e p w s)) \<or>
      (length (Data (In (Pipe s) (peer e))) = memBufferLimit \<and> \<not> WriteClosed (In (Pipe s) (peer e)) \<and>
         \<not> ReadClosed (In (Pipe s) (peer e)) \<and> WriteDeadline (In (Pipe s) (peer e)) = timer))"
proof (intro conjI allI impI)
  fix g e n gen timer assume w: "Waiters s g = Some (Reader e n gen timer)"
  show "(wait_woken gen (In (Pipe s) e) \<and> mem_step s (run_read g now e n s)) \<or>
      (Data (In (Pipe s) e) = [] \<and> \<not> WriteClosed (In (Pipe s) e) \<and> \<not> ReadClosed (In (Pipe s) e) \<and>
         ReadDeadline (In (Pipe s) e) = timer)"
    using mem_reach_waiters [OF assms w] step_read_woken [OF w]
    by (cases "gen = Changed (In (Pipe s) e)") (auto simp: Let_def wait_woken_def)
next
  fix g e p w gen timer assume x: "Waiters s g = Some (Writer e p w gen timer)"
  have "length (Data (In (Pipe s) (peer e))) \<le> memBufferLimit"
    using mem_reach_buffers [OF assms] by (simp add: buffer_inv_def)
  then show "(wait_woken gen (In (Pipe s) (peer e)) \<and> mem_step s (run_write g now e p w s)) \<or>
      (length (Data (In (Pipe s) (peer e))) = memBufferLimit \<and> \<not> WriteClosed (In (Pipe s) (peer e)) \<and>
         \<not> ReadClosed (In (Pipe s) (peer e)) \<and> WriteDeadline (In (Pipe s) (peer e)) = timer)"
    using mem_reach_waiters [OF assms x] step_write_woken [OF x]
    by (cases "gen = Changed (In (Pipe s) (peer e))") (auto simp: Let_def wait_woken_def)
qed

theorem mem_no_lost_wakeup_witness:
  "let s = run_write 2 0 Client [7] 0 (run_read 0 0 Server 4 (mem_start ''client'' ''db:5432'')) in
   Waiters s 0 = Some (Reader Server 4 0 None) \<and> wait_woken 0 (In (Pipe s) Server)"
proof -
  let ?s0 = "mem_start ''client'' ''db:5432''"
  let ?s1 = "run_read 0 0 Server 4 ?s0"
  let ?s2 = "run_write 2 0 Client [7] 0 ?s1"
  have s0: "In (Pipe ?s0) Server = newMemBuffer" "Waiters ?s0 = Map.empty"
    by (simp_all add: mem_start_def mem_pipe_def)
  have r: "mem_read 0 4 (In (Pipe ?s0) Server) = (Wait [] 0 None, newMemBuffer)"
    unfolding s0 by (simp add: mem_read_def newMemBuffer_def expired_def wait_or_def wait_start_def)
  from run_read_effect(1,4) [OF r, of 0]
  have s1: "Waiters ?s1 = [0 \<mapsto> Reader Server 4 0 None]" "In (Pipe ?s1) Server = newMemBuffer"
    by (simp_all add: s0)
  have w: "mem_write 0 [7] 0 (In (Pipe ?s1) (peer Client)) =
      (Return 1 None, broadcast (newMemBuffer\<lparr>Data := [7]\<rparr>))"
    unfolding peer.simps s1
    by (simp add: mem_write.simps newMemBuffer_def expired_def memBufferLimit_def broadcast_def)
  from run_write_effect(1,4) [OF w, of 2]
  have s2: "Waiters ?s2 = [0 \<mapsto> Reader Server 4 0 None]" "In (Pipe ?s2) Server = broadcast (newMemBuffer\<lparr>Data := [7]\<rparr>)"
    by (simp_all add: s1)
  have "mem_reach ?s1" by (intro reach_step [OF reach_start step_read]) (simp add: mem_start_def)
  then have "mem_reach ?s2" by (intro reach_step [OF _ step_write]) (simp_all add: s1)
  moreover have waiter: "Waiters ?s2 0 = Some (Reader Server 4 0 None)" by (simp add: s2)
  ultimately have "wait_woken 0 (In (Pipe ?s2) Server) \<or> Data (In (Pipe ?s2) Server) = []"
    using mem_no_lost_wakeup [of ?s2, THEN conjunct1] by blast
  with waiter s2(2) show ?thesis by (simp add: Let_def broadcast_def)
qed

end
