(* ===== verification/Server.thy ===== *)
theory Server
  imports MySQL Postgres MemConn
begin

text \<open>
  The emulator's life (\<^verbatim>\<open>iamproxy/server.go\<close>): the serving certificate, \<open>Start\<close> with its listening
  sockets and routes, in-memory dialling, the accept loop with its bound on sessions, the relay, and
  what shutting down closes. The operating system, the cryptographic library and the certificate
  files are the fields of \<open>server_env\<close>.
\<close>

section \<open>Data\<close>

record certificate =
  Chain :: "bytes list"

record cert_template =
  DNSNames :: "string list"
  IPAddresses :: "nat list list"

text \<open>
  \<open>NetListen k addr\<close> is the answer to the \<open>k\<close>-th call of \<^verbatim>\<open>net.Listen\<close>: the address the new socket is
  bound to.
\<close>

record server_env =
  LoadX509KeyPair :: "string \<Rightarrow> string \<Rightarrow> certificate result"
  GenerateKey :: "unit result"
  SerialNumber :: "unit result"
  CreateCertificate :: "cert_template \<Rightarrow> bytes result"
  ParseCertificate :: "bytes \<Rightarrow> bytes result"
  NetListen :: "nat \<Rightarrow> string \<Rightarrow> string result"
  ServiceKey :: "rsa_key result"

record server_options =
  Certificate :: "certificate option"
  InMemory :: bool

text \<open>What \<^verbatim>\<open>Close\<close> is called on: the socket of a call of \<^verbatim>\<open>net.Listen\<close>, or an in-memory listener.\<close>

datatype closer = Socket nat | MemoryListener string

record emulator =
  Svc :: service
  TLSCertificate :: certificate
  Leaf :: bytes
  Memory :: "string \<rightharpoonup> memListener"
  Routes :: "string \<rightharpoonup> string"
  HTTPURL :: string
  HTTPSURL :: string
  TCP :: "nat list"
  HTTPSocket :: nat
  HTTPSSocket :: "nat option"

section \<open>The serving certificate\<close>

text \<open>\<^verbatim>\<open>host, _, _ := net.SplitHostPort(addr)\<close>\<close>

definition host_of :: "string \<Rightarrow> string" where
  "host_of addr = (case SplitHostPort addr of Inl _ \<Rightarrow> [] | Inr (host, _) \<Rightarrow> host)"

definition add_san :: "string \<Rightarrow> string set \<times> cert_template \<Rightarrow> string set \<times> cert_template" where
  "add_san h st =
     (case st of (seen, tmpl) \<Rightarrow>
      if h = [] \<or> h \<in> seen then (seen, tmpl)
      else (insert h seen,
        case ParseIP h of
          Some ip \<Rightarrow> tmpl\<lparr>IPAddresses := IPAddresses tmpl @ [ip]\<rparr>
        | None \<Rightarrow> tmpl\<lparr>DNSNames := DNSNames tmpl @ [h]\<rparr>))"

definition san_start :: "string set \<times> cert_template" where
  "san_start = ({''localhost'', ''127.0.0.1'', ''::1''},
     \<lparr>DNSNames = [''localhost''],
      IPAddresses = [replicate 10 0 @ [255, 255, 127, 0, 0, 1], replicate 15 0 @ [1]]\<rparr>)"

definition cert_template_of :: "Listener list \<Rightarrow> cert_template" where
  "cert_template_of ls =
     snd (fold (\<lambda>l st. fold add_san [host_of (Listen l), Hostname l] st) ls san_start)"

definition serverCertificate :: "server_env \<Rightarrow> Config \<Rightarrow> certificate option \<Rightarrow> certificate result" where
  "serverCertificate E c cert =
     (case cert of
        Some cert \<Rightarrow>
          if length (Chain cert) = 0 then Inl (NewErr ''certificate has no chain'') else Inr cert
      | None \<Rightarrow>
          if TLSCert c \<noteq> [] then LoadX509KeyPair E (TLSCert c) (TLSKey c)
          else tryR (GenerateKey E) (\<lambda>_. tryR (SerialNumber E) (\<lambda>_.
            tryR (CreateCertificate E (cert_template_of (Listeners c))) (\<lambda>der.
            Inr \<lparr>Chain = [der]\<rparr>))))"

section \<open>Start\<close>

text \<open>
  The variable \<^verbatim>\<open>closers\<close>, with two things the code does not keep: how often \<^verbatim>\<open>net.Listen\<close> has been
  called, and everything that has been opened.
\<close>

record start_state =
  Closers :: "closer list"
  Calls :: nat
  OpenedLog :: "closer list"

definition net_listen :: "server_env \<Rightarrow> string \<Rightarrow> start_state \<Rightarrow> (string \<times> nat) result \<times> start_state" where
  "net_listen E addr st =
     (let k = Calls st; st = st\<lparr>Calls := Suc k\<rparr> in
      case NetListen E k addr of
        Inl e \<Rightarrow> (Inl e, st)
      | Inr bound \<Rightarrow> (Inr (bound, k), st\<lparr>OpenedLog := OpenedLog st @ [Socket k]\<rparr>))"

definition append_closer :: "closer \<Rightarrow> start_state \<Rightarrow> start_state" where
  "append_closer x st = st\<lparr>Closers := Closers st @ [x]\<rparr>"

text \<open>Lines 97 to 112: the effective listeners and their sockets.\<close>

fun bind_listeners ::
  "server_env \<Rightarrow> bool \<Rightarrow> Listener list \<Rightarrow> start_state \<Rightarrow> (Listener list \<times> nat list) result \<times> start_state" where
  "bind_listeners E inMemory [] st = (Inr ([], []), st)"
| "bind_listeners E inMemory (l # ls) st =
     (if inMemory then
        if port_of (Listen l) = ''0'' then
          (Inl (Errorf ''listener %s: in-memory listeners need a fixed port'' [Name l]), st)
        else case bind_listeners E inMemory ls st of
          (Inl e, st) \<Rightarrow> (Inl e, st)
        | (Inr (ls, tcp), st) \<Rightarrow> (Inr (l # ls, tcp), st)
      else case net_listen E (Listen l) st of
        (Inl e, st) \<Rightarrow> (Inl (Wrapf ''%s: %w'' [Name l] e), st)
      | (Inr (addr, ln), st) \<Rightarrow>
      case bind_listeners E inMemory ls (append_closer (Socket ln) st) of
        (Inl e, st) \<Rightarrow> (Inl e, st)
      | (Inr (ls, tcp), st) \<Rightarrow> (Inr (l\<lparr>Listen := addr\<rparr> # ls, ln # tcp), st))"

text \<open>Lines 115 to 118.\<close>

definition dial_addresses :: "Listener \<Rightarrow> string list" where
  "dial_addresses l =
     [Listen l] @ (if Hostname l \<noteq> [] then [JoinHostPort (Hostname l) (port_of (Listen l))] else [])"

fun add_routes :: "string \<Rightarrow> string list \<Rightarrow> (string \<rightharpoonup> string) \<Rightarrow> (string \<rightharpoonup> string) result" where
  "add_routes name [] routes = Inr routes"
| "add_routes name (a # addrs) routes =
     (case routes a of
        Some other \<Rightarrow>
          if other \<noteq> name then Inl (Errorf ''listeners %s and %s share dial address %s'' [other, name, a])
          else add_routes name addrs (routes(a \<mapsto> name))
      | None \<Rightarrow> add_routes name addrs (routes(a \<mapsto> name)))"

text \<open>Lines 113 to 127.\<close>

fun make_routes ::
  "Listener list \<Rightarrow> (string \<rightharpoonup> string) \<Rightarrow> (string \<rightharpoonup> memListener) \<Rightarrow> start_state \<Rightarrow>
     ((string \<rightharpoonup> string) \<times> (string \<rightharpoonup> memListener)) result \<times> start_state" where
  "make_routes [] routes memory st = (Inr (routes, memory), st)"
| "make_routes (l # ls) routes memory st =
     (case add_routes (Name l) (dial_addresses l) routes of
        Inl e \<Rightarrow> (Inl e, st)
      | Inr routes \<Rightarrow>
          make_routes ls routes (memory(Name l \<mapsto> newMemListener (Listen l)))
            (append_closer (MemoryListener (Name l))
              (st\<lparr>OpenedLog := OpenedLog st @ [MemoryListener (Name l)]\<rparr>)))"

text \<open>Lines 138 to 146: the configuration, the socket and the URL.\<close>

definition start_https :: "server_env \<Rightarrow> Config \<Rightarrow> start_state \<Rightarrow> (Config \<times> nat option \<times> string) result \<times> start_state" where
  "start_https E c st =
     (if HTTPSListen c \<noteq> [] then
        case net_listen E (HTTPSListen c) st of
          (Inl e, st) \<Rightarrow> (Inl e, st)
        | (Inr (addr, ln), st) \<Rightarrow>
            (Inr (c\<lparr>HTTPSListen := addr\<rparr>, Some ln, ''https://'' @ addr), append_closer (Socket ln) st)
      else (Inr (c, None, []), st))"

text \<open>Lines 96 to 152: the emulator or an error, the state reached, and what \<^verbatim>\<open>fail\<close> has closed.\<close>

definition start_sockets ::
  "server_env \<Rightarrow> bool \<Rightarrow> Config \<Rightarrow> certificate \<Rightarrow> bytes \<Rightarrow> start_state \<Rightarrow>
     emulator result \<times> start_state \<times> closer list" where
  "start_sockets E inMemory c cert leaf st =
     (let fail = (\<lambda>e st. (Inl e, st, Closers st)) in
      case bind_listeners E inMemory (Listeners c) st of
        (Inl e, st) \<Rightarrow> fail e st
      | (Inr (ls, tcp), st) \<Rightarrow>
      case make_routes ls Map.empty Map.empty st of
        (Inl e, st) \<Rightarrow> fail e st
      | (Inr (routes, memory), st) \<Rightarrow>
      case net_listen E (HTTPListen c) st of
        (Inl e, st) \<Rightarrow> fail e st
      | (Inr (addr, http), st) \<Rightarrow>
      let st = append_closer (Socket http) st;
          c = c\<lparr>Listeners := ls, HTTPListen := addr\<rparr>;
          url = ''http://'' @ addr;
          c = (if PublicURL c = [] then c\<lparr>PublicURL := url\<rparr> else c)
      in case start_https E c st of
        (Inl e, st) \<Rightarrow> fail e st
      | (Inr (c, https, httpsURL), st) \<Rightarrow>
      case newService c (ServiceKey E) of
        Inl e \<Rightarrow> fail e st
      | Inr s \<Rightarrow>
          (Inr \<lparr>Svc = s, TLSCertificate = cert, Leaf = leaf, Memory = memory, Routes = routes,
                HTTPURL = url, HTTPSURL = httpsURL, TCP = tcp, HTTPSocket = http, HTTPSSocket = https\<rparr>,
           st, []))"

definition start_state0 :: start_state where
  "start_state0 = \<lparr>Closers = [], Calls = 0, OpenedLog = []\<rparr>"

definition start_config :: "Config \<Rightarrow> Config" where
  "start_config c = (let c = clone c in if HTTPListen c = [] then c\<lparr>HTTPListen := ''127.0.0.1:0''\<rparr> else c)"

definition Start ::
  "(string \<Rightarrow> string) \<Rightarrow> server_env \<Rightarrow> Config \<Rightarrow> server_options \<Rightarrow> emulator result \<times> start_state \<times> closer list" where
  "Start ul E c opts =
     (let give_up = (\<lambda>e. (Inl e, start_state0, [])) in
      case Validate_Config ul (start_config c) of
        Inl e \<Rightarrow> give_up e
      | Inr c \<Rightarrow>
      case serverCertificate E c (Certificate opts) of
        Inl e \<Rightarrow> give_up e
      | Inr cert \<Rightarrow>
      case tryR (index_go (Chain cert) 0) (ParseCertificate E) of
        Inl e \<Rightarrow> give_up e
      | Inr leaf \<Rightarrow> start_sockets E (InMemory opts) c cert leaf start_state0)"

section \<open>A running emulator\<close>

text \<open>The accept loops of \<^verbatim>\<open>serve\<close>: each socket with its listener, then each in-memory listener.\<close>

definition accept_loops :: "emulator \<Rightarrow> (closer \<times> Listener) list" where
  "accept_loops e =
     (let ls = Listeners (SConfig (Svc e)) in
      zip (map Socket (TCP e)) ls @ map (\<lambda>l. (MemoryListener (Name l), l)) ls)"

text \<open>
  What the shutdown goroutine of \<^verbatim>\<open>serve\<close> closes: the sockets, the in-memory listeners, and, through
  \<^verbatim>\<open>http.Server.Shutdown\<close>, the sockets of the credential endpoints.
\<close>

definition shutdown_closes :: "emulator \<Rightarrow> closer set" where
  "shutdown_closes e =
     Socket ` set (TCP e) \<union> MemoryListener ` dom (Memory e) \<union>
     Socket ` insert (HTTPSocket e) (set_option (HTTPSSocket e))"

definition emulator_config :: "emulator \<Rightarrow> Config" where
  "emulator_config e = clone (SConfig (Svc e))"

definition ListenerAddr :: "emulator \<Rightarrow> string \<Rightarrow> string option" where
  "ListenerAddr e name = map_option Listen (find (\<lambda>l. Name l = name) (Listeners (SConfig (Svc e))))"

text \<open>How the \<^verbatim>\<open>select\<close> of \<^verbatim>\<open>DialContext\<close> ends.\<close>

datatype dial_choice = HandedOver | ListenerClosed | ContextDone go_error

definition dial_networks :: "string list" where
  "dial_networks = [''tcp'', ''tcp4'', ''tcp6'', '''', ''iamproxy-memory'']"

definition DialContext ::
  "emulator \<Rightarrow> string \<Rightarrow> string \<Rightarrow> dial_choice \<Rightarrow> memPipe result \<times> emulator" where
  "DialContext e network addr choice =
     (if network \<notin> set dial_networks then (Inl (Errorf ''iamproxy: unsupported network %q'' [network]), e)
      else case Routes e addr of
        None \<Rightarrow> (Inl (Errorf ''iamproxy: no database listener for %s'' [addr]), e)
      | Some name \<Rightarrow>
      case Memory e name of
        None \<Rightarrow> (Inl Panic, e)
      | Some ln \<Rightarrow>
      let pipe = mem_pipe ''client'' addr in
      case choice of
        HandedOver \<Rightarrow> (Inr pipe, e\<lparr>Memory := (Memory e)(name \<mapsto> ln\<lparr>Accepted := Accepted ln @ [pipe]\<rparr>)\<rparr>)
      | ListenerClosed \<Rightarrow> (Inl ErrClosed, e)
      | ContextDone err \<Rightarrow> (Inl err, e))"

section \<open>The accept loop\<close>

text \<open>
  One loop with its connections, numbered as they are accepted: the one that waits for a place, those
  being served, those whose session is over but which are not closed yet, and the closed ones.
\<close>

definition max_sessions :: nat where
  "max_sessions = 256"

record accept_state =
  Sem :: nat
  NextConn :: nat
  Waiting :: "nat option"
  Serving :: "nat set"
  Ending :: "nat set"
  ClosedConns :: "nat set"
  CtxDone :: bool
  Stopped :: bool

definition accept_start :: accept_state where
  "accept_start = \<lparr>Sem = 0, NextConn = 0, Waiting = None, Serving = {}, Ending = {}, ClosedConns = {},
     CtxDone = False, Stopped = False\<rparr>"

text \<open>Whether the loop returns on an error of \<^verbatim>\<open>Accept\<close>.\<close>

definition accept_stops :: "bool \<Rightarrow> go_error \<Rightarrow> bool" where
  "accept_stops ctxDone err \<longleftrightarrow> ctxDone \<or> errors_Is err ErrClosed"

text \<open>What happens to connections that have been accepted.\<close>

inductive accept_own :: "accept_state \<Rightarrow> accept_state \<Rightarrow> bool" where
  accept_acquire: "Waiting a = Some n \<Longrightarrow> Sem a < max_sessions \<Longrightarrow>
    accept_own a (a\<lparr>Sem := Suc (Sem a), Waiting := None, Serving := insert n (Serving a)\<rparr>)"
| accept_ctx: "Waiting a = Some n \<Longrightarrow> CtxDone a \<Longrightarrow>
    accept_own a (a\<lparr>Waiting := None, ClosedConns := insert n (ClosedConns a), Stopped := True\<rparr>)"
| accept_release: "n \<in> Serving a \<Longrightarrow>
    accept_own a (a\<lparr>Sem := Sem a - 1, Serving := Serving a - {n}, Ending := insert n (Ending a)\<rparr>)"
| accept_close: "n \<in> Ending a \<Longrightarrow>
    accept_own a (a\<lparr>Ending := Ending a - {n}, ClosedConns := insert n (ClosedConns a)\<rparr>)"

definition accept_new :: "accept_state \<Rightarrow> accept_state" where
  "accept_new a = a\<lparr>Waiting := Some (NextConn a), NextConn := Suc (NextConn a)\<rparr>"

definition accept_failed :: "go_error \<Rightarrow> accept_state \<Rightarrow> accept_state" where
  "accept_failed err a = a\<lparr>Stopped := accept_stops (CtxDone a) err\<rparr>"

inductive accept_step :: "accept_state \<Rightarrow> accept_state \<Rightarrow> bool" where
  accept_conn: "\<not> Stopped a \<Longrightarrow> Waiting a = None \<Longrightarrow> accept_step a (accept_new a)"
| accept_error: "\<not> Stopped a \<Longrightarrow> Waiting a = None \<Longrightarrow> accept_step a (accept_failed err a)"
| accept_step_own: "accept_own a a' \<Longrightarrow> accept_step a a'"
| accept_cancel: "accept_step a (a\<lparr>CtxDone := True\<rparr>)"

inductive accept_reach :: "accept_state \<Rightarrow> bool" where
  accept_reach_start: "accept_reach accept_start"
| accept_reach_step: "accept_reach a \<Longrightarrow> accept_step a a' \<Longrightarrow> accept_reach a'"

text \<open>The session of an accepted connection, by the listener's engine.\<close>

datatype session = PgSession pg_session | MySession my_session

definition serve_session ::
  "platform \<Rightarrow> service \<Rightarrow> pg_env \<Rightarrow> my_env \<Rightarrow> conn \<Rightarrow> Listener \<Rightarrow> session" where
  "serve_session P s pg my conn l =
     (if Engine l = ''postgres'' then PgSession (servePostgres P s pg conn l)
      else MySession (serveMySQL P s my conn l))"

definition session_error :: "session \<Rightarrow> go_error option" where
  "session_error r = (case r of PgSession p \<Rightarrow> PgFailed p | MySession m \<Rightarrow> Failed m)"

text \<open>Whether the end of a session is logged.\<close>

definition session_warns :: "session \<Rightarrow> bool" where
  "session_warns r \<longleftrightarrow> (case session_error r of None \<Rightarrow> False | Some e \<Rightarrow> \<not> errors_Is e EOF)"

end
