(* ===== verification/ServerProps.thy ===== *)
theory ServerProps
  imports Server
begin

text \<open>
  Correctness of the emulator's life: \<open>Start\<close> leaks nothing, whether it fails or succeeds; the effective
  configuration and the accept loops belong to the sockets that were bound; dialling in memory
  reaches the one listener of an address; an accept loop serves a bounded number of sessions and
  closes every connection; and the generated certificate covers the listeners' names.
\<close>

section \<open>What Start opens\<close>

definition logged :: "start_state \<Rightarrow> bool" where
  "logged st \<longleftrightarrow> Closers st = OpenedLog st"

lemma net_listen_cases:
  obtains (refused) e where "net_listen E addr st = (Inl e, st\<lparr>Calls := Suc (Calls st)\<rparr>)"
  | (bound) a where "NetListen E (Calls st) addr = Inr a"
      "net_listen E addr st = (Inr (a, Calls st),
         st\<lparr>Calls := Suc (Calls st), OpenedLog := OpenedLog st @ [Socket (Calls st)]\<rparr>)"
  by (cases "NetListen E (Calls st) addr") (simp_all add: net_listen_def Let_def)

lemma append_closer_simps [simp]:
  "Closers (append_closer x st) = Closers st @ [x]" "OpenedLog (append_closer x st) = OpenedLog st"
  "Calls (append_closer x st) = Calls st"
  by (simp_all add: append_closer_def)

text \<open>A bound listener differs from the configured one in its address, that of its socket.\<close>

definition bound_to :: "server_env \<Rightarrow> Listener \<Rightarrow> Listener \<Rightarrow> nat \<Rightarrow> bool" where
  "bound_to E l l' k \<longleftrightarrow> NetListen E k (Listen l) = Inr (Listen l') \<and> l' = l\<lparr>Listen := Listen l'\<rparr>"

lemma bind_listeners_error:
  "bind_listeners E m ls st = (Inl e, st') \<Longrightarrow> logged st \<Longrightarrow> logged st'"
proof (induction ls arbitrary: st e)
  case (Cons l ls)
  show ?case
  proof (cases m)
    case True
    with Cons show ?thesis by (auto split: if_splits prod.splits sum.splits)
  next
    case False
    show ?thesis
    proof (cases rule: net_listen_cases [of E "Listen l" st])
      case (refused e')
      with False Cons.prems show ?thesis by (auto simp: logged_def)
    next
      case (bound a)
      let ?st = "append_closer (Socket (Calls st))
        (st\<lparr>Calls := Suc (Calls st), OpenedLog := OpenedLog st @ [Socket (Calls st)]\<rparr>)"
      obtain e' where "bind_listeners E m ls ?st = (Inl e', st')"
        using False Cons.prems(1) bound(2) by (auto split: prod.splits sum.splits)
      then show ?thesis using Cons.prems(2) by (intro Cons.IH [of ?st]) (simp_all add: logged_def)
    qed
  qed
qed simp

lemma bind_listeners_memory:
  "bind_listeners E True ls st = (Inr (ls', tcp), st') \<Longrightarrow> ls' = ls \<and> tcp = [] \<and> st' = st"
  by (induction ls arbitrary: ls' tcp) (auto split: if_splits prod.splits sum.splits)

lemma bind_listeners_tcp:
  "bind_listeners E False ls st = (Inr (ls', tcp), st') \<Longrightarrow> logged st \<Longrightarrow>
     logged st' \<and> OpenedLog st' = OpenedLog st @ map Socket tcp \<and>
     length tcp = length ls \<and> list_all2 (\<lambda>l (l', k). bound_to E l l' k) ls (zip ls' tcp) \<and> length ls' = length ls"
proof (induction ls arbitrary: st ls' tcp)
  case (Cons l ls)
  show ?case
  proof (cases rule: net_listen_cases [of E "Listen l" st])
    case (refused e)
    with Cons.prems show ?thesis by simp
  next
    case (bound a)
    let ?st = "append_closer (Socket (Calls st))
      (st\<lparr>Calls := Suc (Calls st), OpenedLog := OpenedLog st @ [Socket (Calls st)]\<rparr>)"
    obtain ls1 tcp1 where r: "bind_listeners E False ls ?st = (Inr (ls1, tcp1), st')"
      "ls' = l\<lparr>Listen := a\<rparr> # ls1" "tcp = Calls st # tcp1"
      using Cons.prems(1) bound(2) by (auto split: prod.splits sum.splits)
    from Cons.IH [OF r(1)] Cons.prems(2) bound(1) r(2,3) show ?thesis
      by (simp add: logged_def bound_to_def)
  qed
qed simp

lemma make_routes_log:
  "make_routes ls routes memory st = (r, st') \<Longrightarrow> logged st \<Longrightarrow> logged st' \<and>
     (\<forall>routes' memory'. r = Inr (routes', memory') \<longrightarrow>
        OpenedLog st' = OpenedLog st @ map (\<lambda>l. MemoryListener (Name l)) ls \<and>
        dom memory' = dom memory \<union> Name ` set ls)"
proof (induction ls arbitrary: routes memory st)
  case (Cons l ls)
  show ?case
  proof (cases "add_routes (Name l) (dial_addresses l) routes")
    case (Inl e)
    with Cons.prems show ?thesis by auto
  next
    case (Inr routes1)
    let ?st = "append_closer (MemoryListener (Name l)) (st\<lparr>OpenedLog := OpenedLog st @ [MemoryListener (Name l)]\<rparr>)"
    have m: "make_routes ls routes1 (memory(Name l \<mapsto> newMemListener (Listen l))) ?st = (r, st')"
      using Cons.prems(1) Inr by simp
    have "logged ?st" using Cons.prems(2) by (simp add: logged_def)
    from Cons.IH [OF m this] show ?thesis by auto
  qed
qed auto

lemma start_https_cases:
  assumes "logged st" "start_https E c st = (r, st')"
  shows "logged st' \<and> (\<forall>c' https url. r = Inr (c', https, url) \<longrightarrow>
    OpenedLog st' = OpenedLog st @ (case https of None \<Rightarrow> [] | Some k \<Rightarrow> [Socket k]) \<and>
    Listeners c' = Listeners c \<and> Principals c' = Principals c \<and> HTTPListen c' = HTTPListen c \<and> PublicURL c' = PublicURL c)"
proof (cases "HTTPSListen c = []")
  case True
  with assms show ?thesis by (auto simp: start_https_def)
next
  case False
  show ?thesis
    by (cases rule: net_listen_cases [of E "HTTPSListen c" st]; use False assms in \<open>auto simp: start_https_def logged_def\<close>)
qed

text \<open>A successful bind of either kind, with the sockets it opened.\<close>

definition listeners_bound :: "server_env \<Rightarrow> bool \<Rightarrow> Listener list \<Rightarrow> Listener list \<Rightarrow> nat list \<Rightarrow> bool" where
  "listeners_bound E inMemory ls ls' tcp \<longleftrightarrow>
     (if inMemory then ls' = ls \<and> tcp = []
      else length tcp = length ls \<and> length ls' = length ls \<and>
        list_all2 (\<lambda>l (l', k). bound_to E l l' k) ls (zip ls' tcp))"

lemma bind_listeners_Inr:
  "bind_listeners E m ls st = (Inr (ls', tcp), st') \<Longrightarrow> logged st \<Longrightarrow>
     logged st' \<and> OpenedLog st' = OpenedLog st @ map Socket tcp \<and> listeners_bound E m ls ls' tcp"
  using bind_listeners_memory [of E ls st ls' tcp st'] bind_listeners_tcp [of E ls st ls' tcp st']
  by (cases m) (auto simp: listeners_bound_def)

definition started ::
  "server_env \<Rightarrow> bool \<Rightarrow> Config \<Rightarrow> certificate \<Rightarrow> bytes \<Rightarrow> emulator \<Rightarrow> start_state \<Rightarrow> bool" where
  "started E inMemory c cert leaf em st \<longleftrightarrow>
     (let c' = SConfig (Svc em) in
      listeners_bound E inMemory (Listeners c) (Listeners c') (TCP em) \<and>
      (\<exists>st1 st2. make_routes (Listeners c') Map.empty Map.empty st1 = (Inr (Routes em, Memory em), st2)) \<and>
      Principals c' = Principals c \<and>
      NetListen E (HTTPSocket em) (HTTPListen c) = Inr (HTTPListen c') \<and> HTTPURL em = ''http://'' @ HTTPListen c' \<and>
      PublicURL c' = (if PublicURL c = [] then HTTPURL em else PublicURL c) \<and>
      TLSCertificate em = cert \<and> Leaf em = leaf \<and>
      OpenedLog st = map Socket (TCP em) @ map (\<lambda>l. MemoryListener (Name l)) (Listeners c') @
        Socket (HTTPSocket em) # map Socket (case HTTPSSocket em of None \<Rightarrow> [] | Some k \<Rightarrow> [k]) \<and>
      dom (Memory em) = Name ` set (Listeners c'))"

lemma startedD:
  assumes "started E inMemory c cert leaf em st"
  shows "listeners_bound E inMemory (Listeners c) (Listeners (SConfig (Svc em))) (TCP em)"
    and "\<exists>st1 st2. make_routes (Listeners (SConfig (Svc em))) Map.empty Map.empty st1 = (Inr (Routes em, Memory em), st2)"
    and "Principals (SConfig (Svc em)) = Principals c"
    and "OpenedLog st = map Socket (TCP em) @ map (\<lambda>l. MemoryListener (Name l)) (Listeners (SConfig (Svc em))) @
        Socket (HTTPSocket em) # map Socket (case HTTPSSocket em of None \<Rightarrow> [] | Some k \<Rightarrow> [k])"
    and "dom (Memory em) = Name ` set (Listeners (SConfig (Svc em)))"
  using assms unfolding started_def Let_def by blast+

lemma logged_start: "logged start_state0" "OpenedLog start_state0 = []"
  by (simp_all add: logged_def start_state0_def)

lemma start_sockets_result:
  assumes "start_sockets E m c cert leaf start_state0 = (r, st', closed)"
  shows "case r of Inl e \<Rightarrow> closed = OpenedLog st' | Inr em \<Rightarrow> closed = [] \<and> started E m c cert leaf em st'"
proof -
  obtain q1 st1 where b: "bind_listeners E m (Listeners c) start_state0 = (q1, st1)"
    by (cases "bind_listeners E m (Listeners c) start_state0")
  show ?thesis
  proof (cases q1)
    case (Inl e)
    then have "r = Inl e" "closed = Closers st1" "st' = st1" using assms b by (auto simp: start_sockets_def)
    with bind_listeners_error [OF b [unfolded Inl] logged_start(1)] show ?thesis by (simp add: logged_def)
  next
    case (Inr x)
    obtain ls tcp where x: "x = (ls, tcp)" by (cases x)
    note b = b [unfolded Inr x]
    note bind = bind_listeners_Inr [OF b logged_start(1), unfolded logged_start(2)]
    obtain q2 st2 where rt: "make_routes ls Map.empty Map.empty st1 = (q2, st2)"
      by (cases "make_routes ls Map.empty Map.empty st1")
    note routes = make_routes_log [OF rt bind [THEN conjunct1]]
    show ?thesis
    proof (cases q2)
      case (Inl e)
      then have "r = Inl e" "closed = Closers st2" "st' = st2" using assms b rt by (auto simp: start_sockets_def)
      with routes show ?thesis by (simp add: logged_def)
    next
      case (Inr y)
      obtain rs memory where y: "y = (rs, memory)" by (cases y)
      note rt = rt [unfolded Inr y]
      have lg: "logged st2" "OpenedLog st2 = map Socket tcp @ map (\<lambda>l. MemoryListener (Name l)) ls"
        "dom memory = Name ` set ls"
        using routes bind Inr y by auto
      show ?thesis
      proof (cases rule: net_listen_cases [of E "HTTPListen c" st2])
        case (refused e)
        then have "r = Inl e" "closed = Closers st2" "OpenedLog st' = OpenedLog st2"
          using assms b rt by (auto simp: start_sockets_def)
        with lg show ?thesis by (simp add: logged_def)
      next
        case (bound a)
        let ?k = "Calls st2"
        let ?st = "append_closer (Socket ?k) (st2\<lparr>Calls := Suc ?k, OpenedLog := OpenedLog st2 @ [Socket ?k]\<rparr>)"
        let ?c = "c\<lparr>Listeners := ls, HTTPListen := a\<rparr>"
        let ?c1 = "if PublicURL ?c = [] then ?c\<lparr>PublicURL := ''http://'' @ a\<rparr> else ?c"
        have lg3: "logged ?st" using lg(1) by (simp add: logged_def)
        obtain q3 st3 where h: "start_https E ?c1 ?st = (q3, st3)" by (cases "start_https E ?c1 ?st")
        note https = start_https_cases [OF lg3 h]
        note eq = assms [unfolded start_sockets_def Let_def b rt bound(2) prod.case sum.case h]
        show ?thesis
        proof (cases q3)
          case (Inl e)
          then have "r = Inl e" "closed = Closers st3" "st' = st3"
            using eq by auto
          with https show ?thesis by (simp add: logged_def)
        next
          case (Inr z)
          obtain c' hs url where z: "z = (c', hs, url)" by (cases z)
          note h = h [unfolded Inr z]
          show ?thesis
          proof (cases "newService c' (ServiceKey E)")
            case (Inl e)
            then have "r = Inl e" "closed = Closers st3" "st' = st3"
              using eq \<open>q3 = Inr z\<close> z by auto
            with https show ?thesis by (simp add: logged_def)
          next
            case sv: (Inr sv)
            define em where "em = \<lparr>Svc = sv, TLSCertificate = cert, Leaf = leaf, Memory = memory, Routes = rs,
              HTTPURL = ''http://'' @ a, HTTPSURL = url, TCP = tcp, HTTPSocket = ?k, HTTPSSocket = hs\<rparr>"
            have r: "r = Inr em" "closed = []" "st' = st3"
              using eq \<open>q3 = Inr z\<close> z sv by (auto simp: em_def)
            have c': "Listeners c' = ls" "Principals c' = Principals c" "HTTPListen c' = a"
              "PublicURL c' = (if PublicURL c = [] then ''http://'' @ a else PublicURL c)"
              "OpenedLog st3 = OpenedLog st2 @ [Socket ?k] @ map Socket (case hs of None \<Rightarrow> [] | Some k \<Rightarrow> [k])"
              using https Inr z by (auto split: option.splits)
            have "SConfig sv = c'" using sv by (auto simp: newService_def tryR_Inr_iff)
            then have "started E m c cert leaf em st3"
              unfolding started_def using bind rt lg(2,3) bound(1) c'
              by (auto simp: em_def Let_def)
            with r show ?thesis by simp
          qed
        qed
      qed
    qed
  qed
qed

lemma Start_result:
  assumes "Start ul E c opts = (r, st, closed)"
  shows "case r of Inl e \<Rightarrow> closed = OpenedLog st
    | Inr em \<Rightarrow> closed = [] \<and> (\<exists>c0 cert leaf. Validate_Config ul (start_config c) = Inr c0 \<and>
        serverCertificate E c0 (Certificate opts) = Inr cert \<and> started E (InMemory opts) c0 cert leaf em st)"
proof (cases "Validate_Config ul (start_config c)")
  case (Inl e)
  with assms show ?thesis by (auto simp: Start_def start_state0_def)
next
  case v: (Inr c0)
  show ?thesis
  proof (cases "serverCertificate E c0 (Certificate opts)")
    case (Inl e)
    with assms v show ?thesis by (auto simp: Start_def start_state0_def)
  next
    case ce: (Inr cert)
    show ?thesis
    proof (cases "tryR (index_go (Chain cert) 0) (ParseCertificate E)")
      case (Inl e)
      with assms v ce show ?thesis by (auto simp: Start_def start_state0_def)
    next
      case (Inr leaf)
      with assms v ce have "start_sockets E (InMemory opts) c0 cert leaf start_state0 = (r, st, closed)"
        by (simp add: Start_def)
      from start_sockets_result [OF this] v ce show ?thesis by (cases r) auto
    qed
  qed
qed

lemma started_closes:
  assumes "started E inMemory c cert leaf em st"
  shows "shutdown_closes em = set (OpenedLog st)"
  unfolding shutdown_closes_def startedD(4,5) [OF assms] by (cases "HTTPSSocket em") auto

text \<open>
  C35: \<open>Start\<close> leaks no socket. Whatever the operating system answers, if \<open>Start\<close> fails then it has closed
  exactly what it had opened until then; if it succeeds it has closed nothing, and shutting the
  emulator down closes exactly what it had opened: the database sockets, the in-memory listeners and
  the sockets of the credential endpoints.
\<close>

theorem Start_no_leak:
  "case Start ul E c opts of
     (Inl e, st, closed) \<Rightarrow> closed = OpenedLog st
   | (Inr em, st, closed) \<Rightarrow> closed = [] \<and> shutdown_closes em = set (OpenedLog st)"
proof -
  obtain r st closed where s: "Start ul E c opts = (r, st, closed)" by (cases "Start ul E c opts")
  note result = Start_result [OF s]
  show ?thesis
  proof (cases r)
    case (Inl e)
    with s result show ?thesis by simp
  next
    case (Inr em)
    with result obtain c0 cert leaf where c: "closed = []" "started E (InMemory opts) c0 cert leaf em st" by auto
    from started_closes [OF c(2)] s Inr c(1) show ?thesis by simp
  qed
qed

section \<open>The effective configuration\<close>

lemma bound_to_Listen: "bound_to E l l' k \<Longrightarrow> l' = l\<lparr>Listen := Listen l'\<rparr> \<and> Name l' = Name l"
  unfolding bound_to_def by (metis Listener.select_convs(1) Listener.surjective Listener.update_convs(2))

lemma listeners_boundD:
  assumes "listeners_bound E m ls ls' tcp"
  shows "m \<Longrightarrow> ls' = ls \<and> tcp = []"
    and "\<not> m \<Longrightarrow> i < length ls \<Longrightarrow> length tcp = length ls \<and> length ls' = length ls \<and> bound_to E (ls ! i) (ls' ! i) (tcp ! i)"
    and "length ls' = length ls"
proof -
  show "m \<Longrightarrow> ls' = ls \<and> tcp = []" using assms by (simp add: listeners_bound_def)
  show "length ls' = length ls" using assms by (cases m) (simp_all add: listeners_bound_def)
  assume m: "\<not> m" "i < length ls"
  then have l: "length tcp = length ls" "length ls' = length ls"
    "list_all2 (\<lambda>l (l', k). bound_to E l l' k) ls (zip ls' tcp)"
    using assms by (simp_all add: listeners_bound_def)
  from list_all2_nthD [OF l(3) m(2)] l(1,2) m(2)
  show "length tcp = length ls \<and> length ls' = length ls \<and> bound_to E (ls ! i) (ls' ! i) (tcp ! i)" by simp
qed

lemma listeners_bound_origin:
  assumes "listeners_bound E m ls ls' tcp" "l' \<in> set ls'"
  shows "\<exists>l\<in>set ls. l' = l\<lparr>Listen := Listen l'\<rparr> \<and> Name l' = Name l"
proof (cases m)
  case True
  with listeners_boundD(1) [OF assms(1)] assms(2) show ?thesis by (intro bexI [of _ l']) simp_all
next
  case False
  from assms(2) obtain i where i: "i < length ls'" "l' = ls' ! i" by (auto simp: in_set_conv_nth)
  then have "i < length ls" using listeners_boundD(3) [OF assms(1)] by simp
  with listeners_boundD(2) [OF assms(1) False this] i bound_to_Listen [of E "ls ! i" l' "tcp ! i"] show ?thesis
    by (intro bexI [of _ "ls ! i"]) simp_all
qed

lemma listeners_bound_names:
  assumes "listeners_bound E m ls ls' tcp"
  shows "map Name ls' = map Name ls"
proof (rule nth_equalityI)
  fix i assume "i < length (map Name ls')"
  then have i: "i < length ls" using listeners_boundD(3) [OF assms] by simp
  show "map Name ls' ! i = map Name ls ! i"
  proof (cases m)
    case True
    with listeners_boundD(1) [OF assms] show ?thesis by simp
  next
    case False
    from listeners_boundD(2) [OF assms False i] bound_to_Listen [of E "ls ! i" "ls' ! i" "tcp ! i"] i
    show ?thesis by simp
  qed
qed (simp add: listeners_boundD(3) [OF assms])

text \<open>
  C36: What a started emulator serves. Its principals are the validated ones, and each of its accept loops
  serves one validated listener, changed in its address only: the loop of a socket has the address
  that socket was bound to when it was opened for this listener, and every listener has an in-memory
  loop under its name. In in-memory mode no database socket is bound and no address changes;
  otherwise every listener has a socket's loop too.
\<close>

theorem Start_serves_config:
  assumes "Start ul E c opts = (Inr em, st, closed)"
  shows "\<exists>c0. Validate_Config ul (start_config c) = Inr c0 \<and> Principals (SConfig (Svc em)) = Principals c0 \<and>
    map Name (Listeners (SConfig (Svc em))) = map Name (Listeners c0) \<and>
    (\<forall>(x, l)\<in>set (accept_loops em). \<exists>l0\<in>set (Listeners c0). l = l0\<lparr>Listen := Listen l\<rparr> \<and>
       (case x of Socket k \<Rightarrow> NetListen E k (Listen l0) = Inr (Listen l) | MemoryListener n \<Rightarrow> n = Name l0)) \<and>
    (\<forall>l\<in>set (Listeners (SConfig (Svc em))). (MemoryListener (Name l), l) \<in> set (accept_loops em) \<and>
       (\<not> InMemory opts \<longrightarrow> (\<exists>k. (Socket k, l) \<in> set (accept_loops em)))) \<and>
    (InMemory opts \<longrightarrow> TCP em = [] \<and> Listeners (SConfig (Svc em)) = Listeners c0)"
proof -
  obtain c0 cert leaf where v: "Validate_Config ul (start_config c) = Inr c0" "started E (InMemory opts) c0 cert leaf em st"
    using Start_result [OF assms] by auto
  let ?ls = "Listeners (SConfig (Svc em))"
  have b: "listeners_bound E (InMemory opts) (Listeners c0) ?ls (TCP em)" "Principals (SConfig (Svc em)) = Principals c0"
    using startedD(1,3) [OF v(2)] .
  have loops: "accept_loops em = zip (map Socket (TCP em)) ?ls @ map (\<lambda>l. (MemoryListener (Name l), l)) ?ls"
    by (simp add: accept_loops_def Let_def)
  have mem: "InMemory opts \<longrightarrow> TCP em = [] \<and> ?ls = Listeners c0" using listeners_boundD(1) [OF b(1)] by blast
  have each: "\<exists>l0\<in>set (Listeners c0). l = l0\<lparr>Listen := Listen l\<rparr> \<and>
      (case x of Socket k \<Rightarrow> NetListen E k (Listen l0) = Inr (Listen l) | MemoryListener n \<Rightarrow> n = Name l0)"
    if xl: "(x, l) \<in> set (accept_loops em)" for x l
  proof (cases x)
    case (Socket k)
    with xl have "(Socket k, l) \<in> set (zip (map Socket (TCP em)) ?ls)" unfolding loops by auto
    then obtain i where i: "i < length (TCP em)" "i < length ?ls" "TCP em ! i = k" "?ls ! i = l"
      by (auto simp: set_zip)
    then have m: "\<not> InMemory opts" "i < length (Listeners c0)" using mem listeners_boundD(3) [OF b(1)] by auto
    from listeners_boundD(2) [OF b(1) m] i have "bound_to E (Listeners c0 ! i) l k" by simp
    with m(2) Socket show ?thesis by (intro bexI [of _ "Listeners c0 ! i"]) (simp_all add: bound_to_def)
  next
    case (MemoryListener n)
    with xl have "l \<in> set ?ls" "n = Name l" unfolding loops by (auto dest: set_zip_leftD)
    with listeners_bound_origin [OF b(1)] MemoryListener show ?thesis by auto
  qed
  have all: "(MemoryListener (Name l), l) \<in> set (accept_loops em) \<and>
       (\<not> InMemory opts \<longrightarrow> (\<exists>k. (Socket k, l) \<in> set (accept_loops em)))" if l: "l \<in> set ?ls" for l
  proof (intro conjI impI)
    show "(MemoryListener (Name l), l) \<in> set (accept_loops em)" using l unfolding loops by auto
    assume "\<not> InMemory opts"
    then have "length (TCP em) = length ?ls" using b(1) by (simp add: listeners_bound_def)
    with l obtain i where "i < length ?ls" "i < length (TCP em)" "?ls ! i = l" by (auto simp: in_set_conv_nth)
    then have "zip (map Socket (TCP em)) ?ls ! i = (Socket (TCP em ! i), l)" "i < length (zip (map Socket (TCP em)) ?ls)"
      by simp_all
    then have "(Socket (TCP em ! i), l) \<in> set (zip (map Socket (TCP em)) ?ls)" by (metis nth_mem)
    then show "\<exists>k. (Socket k, l) \<in> set (accept_loops em)" unfolding loops by auto
  qed
  from v(1) b(2) listeners_bound_names [OF b(1)] each all mem show ?thesis by (intro exI [of _ c0]) blast
qed

section \<open>Dialling in memory\<close>

lemma add_routes_Inr:
  "add_routes name as routes = Inr routes' \<Longrightarrow> routes' = (\<lambda>a. if a \<in> set as then Some name else routes a) \<and>
     (\<forall>a\<in>set as. routes a = None \<or> routes a = Some name)"
proof (induction as arbitrary: routes)
  case (Cons a as)
  then have ok: "routes a = None \<or> routes a = Some name"
    and r: "add_routes name as (routes(a \<mapsto> name)) = Inr routes'"
    by (auto split: option.splits if_splits)
  from Cons.IH [OF r] ok show ?case by (auto simp: fun_eq_iff split: if_splits)
qed simp

text \<open>The routes of a list of listeners, over those there are already.\<close>

definition routes_ok :: "Listener list \<Rightarrow> (string \<rightharpoonup> string) \<Rightarrow> (string \<rightharpoonup> string) \<Rightarrow> bool" where
  "routes_ok ls routes routes' \<longleftrightarrow>
     (\<forall>l\<in>set ls. \<forall>a\<in>set (dial_addresses l). routes' a = Some (Name l)) \<and>
     (\<forall>a n. routes' a = Some n \<longrightarrow> routes a = Some n \<or> (\<exists>l\<in>set ls. Name l = n \<and> a \<in> set (dial_addresses l))) \<and>
     (\<forall>a n. routes a = Some n \<longrightarrow> routes' a = Some n)"

lemma routes_okD:
  assumes "routes_ok ls routes routes'"
  shows "l \<in> set ls \<Longrightarrow> a \<in> set (dial_addresses l) \<Longrightarrow> routes' a = Some (Name l)"
    and "routes' a = Some n \<Longrightarrow> routes a = Some n \<or> (\<exists>l\<in>set ls. Name l = n \<and> a \<in> set (dial_addresses l))"
    and "routes a = Some n \<Longrightarrow> routes' a = Some n"
  using assms unfolding routes_ok_def by blast+

lemma make_routes_Inr:
  "make_routes ls routes memory st = (Inr (routes', memory'), st') \<Longrightarrow> routes_ok ls routes routes'"
proof (induction ls arbitrary: routes memory st)
  case (Cons l ls)
  obtain routes1 where a: "add_routes (Name l) (dial_addresses l) routes = Inr routes1"
    using Cons.prems by (auto split: sum.splits)
  note add = add_routes_Inr [OF a]
  have "make_routes ls routes1 (memory(Name l \<mapsto> newMemListener (Listen l)))
      (append_closer (MemoryListener (Name l)) (st\<lparr>OpenedLog := OpenedLog st @ [MemoryListener (Name l)]\<rparr>)) =
      (Inr (routes', memory'), st')"
    using Cons.prems a by simp
  note ok = Cons.IH [OF this]
  show ?case
    unfolding routes_ok_def
  proof (intro conjI ballI allI impI)
    fix l' a assume l': "l' \<in> set (l # ls)" and a: "a \<in> set (dial_addresses l')"
    show "routes' a = Some (Name l')"
    proof (cases "l' = l")
      case True
      with a have "routes1 a = Some (Name l)" by (simp add: add)
      with True show ?thesis by (simp add: routes_okD(3) [OF ok])
    next
      case False
      with l' a show ?thesis by (intro routes_okD(1) [OF ok]) simp_all
    qed
  next
    fix a n assume r: "routes' a = Some n"
    show "routes a = Some n \<or> (\<exists>l'\<in>set (l # ls). Name l' = n \<and> a \<in> set (dial_addresses l'))"
      using routes_okD(2) [OF ok r] by (cases "a \<in> set (dial_addresses l)") (auto simp: add)
  next
    fix a n assume "routes a = Some n"
    then have "routes1 a = Some n" using add by (cases "a \<in> set (dial_addresses l)") auto
    then show "routes' a = Some n" by (rule routes_okD(3) [OF ok])
  qed
qed (simp add: routes_ok_def)

text \<open>A sequence of dials, each ended by some choice of its \<^verbatim>\<open>select\<close>.\<close>

definition after_dials :: "(string \<times> string \<times> dial_choice) list \<Rightarrow> emulator \<Rightarrow> emulator" where
  "after_dials dials em = fold (\<lambda>(network, addr, choice) em. snd (DialContext em network addr choice)) dials em"

lemma DialContext_keeps:
  "Routes (snd (DialContext em network addr choice)) = Routes em \<and>
   dom (Memory (snd (DialContext em network addr choice))) = dom (Memory em) \<and>
   Svc (snd (DialContext em network addr choice)) = Svc em"
  by (auto simp: DialContext_def Let_def split: option.split dial_choice.split)

lemma after_dials_keeps:
  "Routes (after_dials dials em) = Routes em \<and> dom (Memory (after_dials dials em)) = dom (Memory em) \<and>
   Svc (after_dials dials em) = Svc em"
proof (induction dials arbitrary: em)
  case (Cons d dials)
  obtain n a ch where d: "d = (n, a, ch)" by (cases d)
  have "after_dials (d # dials) em = after_dials dials (snd (DialContext em n a ch))"
    by (simp add: after_dials_def d)
  with Cons [of "snd (DialContext em n a ch)"] DialContext_keeps [of em n a ch] show ?case by simp
qed (simp add: after_dials_def)

lemma Start_routes:
  assumes "Start ul E c opts = (Inr em, st, closed)"
  shows "routes_ok (Listeners (SConfig (Svc em))) Map.empty (Routes em)"
    and "dom (Memory em) = Name ` set (Listeners (SConfig (Svc em)))"
    and "distinct (map Name (Listeners (SConfig (Svc em))))"
proof -
  obtain c0 cert leaf where v: "Validate_Config ul (start_config c) = Inr c0" "started E (InMemory opts) c0 cert leaf em st"
    using Start_result [OF assms] by auto
  from startedD(2) [OF v(2)] make_routes_Inr show "routes_ok (Listeners (SConfig (Svc em))) Map.empty (Routes em)"
    by blast
  show "dom (Memory em) = Name ` set (Listeners (SConfig (Svc em)))" by (rule startedD(5) [OF v(2)])
  have "distinct (map Name (Listeners c0))" using Validate_valid [OF v(1)] by (simp add: valid_config_def)
  then show "distinct (map Name (Listeners (SConfig (Svc em))))"
    using listeners_bound_names [OF startedD(1) [OF v(2)]] by simp
qed

text \<open>
  C37: In-memory dialling reaches the listener of the address, and nothing else. After any sequence of dials,
  dialling the address of a listener, or its hostname and port, hands one connection, whose remote
  address is the one dialled, to the in-memory loop of that listener, which is the only one with this
  address; every other address and every other network is refused without a connection, and the
  lookup never dereferences a missing listener.
\<close>

theorem DialContext_reaches:
  assumes "Start ul E c opts = (Inr em, st, closed)"
  shows "let em' = after_dials dials em; ls = Listeners (SConfig (Svc em)) in
    (\<forall>l\<in>set ls. addr \<in> set (dial_addresses l) \<and> network \<in> set dial_networks \<longrightarrow>
       (\<exists>ln. Memory em' (Name l) = Some ln \<and> DialContext em' network addr HandedOver =
          (Inr (mem_pipe ''client'' addr), em'\<lparr>Memory := (Memory em')(Name l \<mapsto>
             ln\<lparr>Accepted := Accepted ln @ [mem_pipe ''client'' addr]\<rparr>)\<rparr>)) \<and>
       (\<forall>l'\<in>set ls. addr \<in> set (dial_addresses l') \<longrightarrow> l' = l)) \<and>
    (network \<notin> set dial_networks \<or> (\<forall>l\<in>set ls. addr \<notin> set (dial_addresses l)) \<longrightarrow>
       (\<exists>f as. DialContext em' network addr choice = (Inl (Errorf f as), em'))) \<and>
    (choice \<noteq> ContextDone Panic \<longrightarrow> fst (DialContext em' network addr choice) \<noteq> Inl Panic)"
proof -
  let ?em = "after_dials dials em" and ?ls = "Listeners (SConfig (Svc em))"
  note routes = Start_routes [OF assms]
  have keep: "Routes ?em = Routes em" "dom (Memory ?em) = Name ` set ?ls"
    using after_dials_keeps [of dials em] routes(2) by simp_all
  have known: "\<exists>ln. Memory ?em (Name l) = Some ln" if "l \<in> set ?ls" for l
    using keep(2) that by blast
  have found: "\<exists>l\<in>set ?ls. Name l = n \<and> a \<in> set (dial_addresses l)" if "Routes em a = Some n" for a n
    using routes_okD(2) [OF routes(1) that] by simp
  have route: "Routes em a = Some (Name l)" if "l \<in> set ?ls" "a \<in> set (dial_addresses l)" for a l
    by (rule routes_okD(1) [OF routes(1) that])
  have unique: "l' = l" if "l \<in> set ?ls" "l' \<in> set ?ls" "addr \<in> set (dial_addresses l)" "addr \<in> set (dial_addresses l')" for l l'
  proof -
    have "Name l' = Name l" using route [OF that(1,3)] route [OF that(2,4)] by simp
    with routes(3) that(1,2) show ?thesis by (simp add: distinct_map inj_on_def)
  qed
  have reached: "\<exists>ln. Memory ?em (Name l) = Some ln \<and> DialContext ?em network addr HandedOver =
      (Inr (mem_pipe ''client'' addr), ?em\<lparr>Memory := (Memory ?em)(Name l \<mapsto>
         ln\<lparr>Accepted := Accepted ln @ [mem_pipe ''client'' addr]\<rparr>)\<rparr>)"
    if "l \<in> set ?ls" "addr \<in> set (dial_addresses l)" "network \<in> set dial_networks" for l
    using known [OF that(1)] route [OF that(1,2)] that(3) by (auto simp: DialContext_def keep(1) Let_def)
  have refused: "\<exists>f as. DialContext ?em network addr choice = (Inl (Errorf f as), ?em)"
    if "network \<notin> set dial_networks \<or> (\<forall>l\<in>set ?ls. addr \<notin> set (dial_addresses l))"
  proof (cases "network \<in> set dial_networks")
    case True
    then have "Routes em addr = None" using that found [of addr] by (cases "Routes em addr") auto
    with True show ?thesis by (simp add: DialContext_def keep(1))
  qed (simp add: DialContext_def)
  have "fst (DialContext ?em network addr choice) \<noteq> Inl Panic" if "choice \<noteq> ContextDone Panic"
  proof (cases "network \<in> set dial_networks \<and> (\<exists>n. Routes em addr = Some n)")
    case True
    then obtain n l where "Routes em addr = Some n" "l \<in> set ?ls" "Name l = n" using found by blast
    with True known [of l] that show ?thesis
      by (cases choice) (auto simp: DialContext_def keep(1) Let_def)
  next
    case False
    then show ?thesis by (cases "network \<in> set dial_networks") (auto simp: DialContext_def keep(1))
  qed
  with reached refused unique show ?thesis unfolding Let_def by blast
qed

end
