(* ===== verification/ServerRun.thy ===== *)
theory ServerRun
  imports ServerProps
begin

text \<open>
  The accept loop and the serving certificate: every connection an accept loop takes is accounted for
  and a bounded number is served at a time; a generated certificate names exactly localhost, the
  loopback addresses and the listeners' hosts. The last section starts the emulator on the fixtures.
\<close>

section \<open>The accept loop\<close>

definition accept_inv :: "accept_state \<Rightarrow> bool" where
  "accept_inv a \<longleftrightarrow>
     finite (Serving a) \<and> Sem a = card (Serving a) \<and> Sem a \<le> max_sessions \<and>
     {..<NextConn a} = set_option (Waiting a) \<union> Serving a \<union> Ending a \<union> ClosedConns a \<and>
     set_option (Waiting a) \<inter> (Serving a \<union> Ending a \<union> ClosedConns a) = {} \<and>
     Serving a \<inter> (Ending a \<union> ClosedConns a) = {} \<and> Ending a \<inter> ClosedConns a = {} \<and>
     (Stopped a \<longrightarrow> Waiting a = None)"

lemma accept_inv_start: "accept_inv accept_start"
  by (simp add: accept_inv_def accept_start_def)

lemma accept_inv_own: "accept_own a a' \<Longrightarrow> accept_inv a \<Longrightarrow> accept_inv a'"
proof (induction rule: accept_own.induct)
  case (accept_acquire a n)
  then have "n \<notin> Serving a" by (auto simp: accept_inv_def)
  with accept_acquire show ?case by (auto simp: accept_inv_def)
next
  case (accept_release n a)
  then have "card (Serving a - {n}) = card (Serving a) - 1" by (simp add: accept_inv_def)
  with accept_release show ?case by (auto simp: accept_inv_def)
qed (auto simp: accept_inv_def)

lemma accept_inv_step: "accept_step a a' \<Longrightarrow> accept_inv a \<Longrightarrow> accept_inv a'"
proof (induction rule: accept_step.induct)
  case (accept_conn a)
  then have n: "{..<NextConn a} = Serving a \<union> Ending a \<union> ClosedConns a" by (simp add: accept_inv_def)
  then have "NextConn a \<notin> Serving a \<union> Ending a \<union> ClosedConns a" by (metis lessThan_iff less_irrefl)
  with accept_conn n show ?case by (auto simp: accept_inv_def accept_new_def lessThan_Suc)
next
  case (accept_step_own a a')
  then show ?case by (rule accept_inv_own)
qed (auto simp: accept_inv_def accept_failed_def)

lemma accept_reach_inv: "accept_reach a \<Longrightarrow> accept_inv a"
  by (induction rule: accept_reach.induct) (auto intro: accept_inv_start accept_inv_step)

text \<open>
  C38: An accept loop is bounded and loses no connection. In every reachable state at most 256 sessions are
  being served, the semaphore holds one token for each, and every connection accepted so far is in
  exactly one of four places: waiting for a token, served, about to be closed, or closed. A loop
  that has returned leaves no connection waiting.
\<close>

theorem accept_loop_bounded:
  assumes "accept_reach a"
  shows "card (Serving a) \<le> 256 \<and> Sem a = card (Serving a) \<and>
    {..<NextConn a} = set_option (Waiting a) \<union> Serving a \<union> Ending a \<union> ClosedConns a \<and>
    set_option (Waiting a) \<inter> (Serving a \<union> Ending a \<union> ClosedConns a) = {} \<and>
    Serving a \<inter> (Ending a \<union> ClosedConns a) = {} \<and> Ending a \<inter> ClosedConns a = {} \<and>
    (Stopped a \<longrightarrow> Waiting a = None)"
proof -
  have "max_sessions = 256" by (simp add: max_sessions_def)
  with accept_reach_inv [OF assms] show ?thesis unfolding accept_inv_def by metis
qed

theorem accept_loop_bounded_witness:
  "let a = accept_start\<lparr>NextConn := 1, Waiting := None, Serving := {0}, Sem := 1\<rparr> in
   {..<NextConn a} = set_option (Waiting a) \<union> Serving a \<union> Ending a \<union> ClosedConns a"
proof -
  let ?a1 = "accept_new accept_start"
  let ?a2 = "?a1\<lparr>Sem := Suc (Sem ?a1), Waiting := None, Serving := insert 0 (Serving ?a1)\<rparr>"
  have "accept_step accept_start ?a1" by (rule accept_conn) (simp_all add: accept_start_def)
  moreover have "accept_step ?a1 ?a2"
    by (intro accept_step_own accept_acquire) (simp_all add: accept_new_def accept_start_def max_sessions_def)
  ultimately have "accept_reach ?a2" using accept_reach_start accept_reach_step by blast
  from accept_loop_bounded [OF this] show ?thesis by (simp add: accept_start_def accept_new_def)
qed

section \<open>The generated certificate\<close>

definition covered :: "cert_template \<Rightarrow> string \<Rightarrow> bool" where
  "covered tmpl h \<longleftrightarrow> (case ParseIP h of Some ip \<Rightarrow> ip \<in> set (IPAddresses tmpl) | None \<Rightarrow> h \<in> set (DNSNames tmpl))"

text \<open>What the loop keeps: the template holds what the names seen so far stand for, and nothing else.\<close>

definition san_inv :: "string set \<times> cert_template \<Rightarrow> bool" where
  "san_inv st \<longleftrightarrow> (case st of (seen, tmpl) \<Rightarrow>
     set (DNSNames tmpl) = {h \<in> seen. ParseIP h = None} \<and> distinct (DNSNames tmpl) \<and>
     set (IPAddresses tmpl) = {ip. \<exists>h\<in>seen. ParseIP h = Some ip})"

definition loopback_ips :: "nat list set" where
  "loopback_ips = {replicate 10 0 @ [255, 255, 127, 0, 0, 1], replicate 15 0 @ [1]}"

lemma parse_localhost: "ParseIP ''localhost'' = None"
  by (simp add: ParseIP_def)

lemma san_inv_start: "san_inv san_start"
  by (auto simp: san_inv_def san_start_def parse_localhost parse_v4_example parse_v6_example)

lemma add_san_inv: "san_inv st \<Longrightarrow> san_inv (add_san h st)"
  by (cases st; cases "ParseIP h") (auto simp: add_san_def san_inv_def)

lemma fst_add_san: "fst (add_san h st) = fst st \<union> ({h} - {[]})"
  by (cases st) (auto simp: add_san_def)

lemma fold_add_san:
  "san_inv st \<Longrightarrow> san_inv (fold add_san xs st) \<and> fst (fold add_san xs st) = fst st \<union> (set xs - {[]})"
proof (induction xs arbitrary: st)
  case (Cons h xs)
  from Cons.IH [OF add_san_inv [OF Cons.prems], of h] show ?case by (auto simp: fst_add_san)
qed simp

definition san_hosts :: "Listener list \<Rightarrow> string list" where
  "san_hosts ls = concat (map (\<lambda>l. [host_of (Listen l), Hostname l]) ls)"

lemma cert_template_fold: "cert_template_of ls = snd (fold add_san (san_hosts ls) san_start)"
proof -
  have "fold (\<lambda>l st. fold add_san [host_of (Listen l), Hostname l] st) ls st = fold add_san (san_hosts ls) st" for st
    by (induction ls arbitrary: st) (simp_all add: san_hosts_def)
  then show ?thesis unfolding cert_template_of_def by (rule arg_cong)
qed

text \<open>The names the listeners ask for: the hosts of their addresses and their hostnames.\<close>

definition server_names :: "Listener list \<Rightarrow> string set" where
  "server_names ls = (\<Union>l\<in>set ls. {host_of (Listen l), Hostname l}) - {[]}"

lemma server_names_hosts: "server_names ls = set (san_hosts ls) - {[]}"
  by (auto simp: server_names_def san_hosts_def)

lemma cert_template_names:
  "set (DNSNames (cert_template_of ls)) = insert ''localhost'' {h \<in> server_names ls. ParseIP h = None}"
  "distinct (DNSNames (cert_template_of ls))"
  "set (IPAddresses (cert_template_of ls)) = loopback_ips \<union> {ip. \<exists>h\<in>server_names ls. ParseIP h = Some ip}"
proof -
  let ?st = "fold add_san (san_hosts ls) san_start"
  have seen: "fst ?st = {''localhost'', ''127.0.0.1'', ''::1''} \<union> server_names ls" and inv: "san_inv ?st"
    using fold_add_san [OF san_inv_start, of "san_hosts ls"] by (simp_all add: server_names_hosts san_start_def)
  then have t: "set (DNSNames (cert_template_of ls)) = {h \<in> fst ?st. ParseIP h = None}"
    "set (IPAddresses (cert_template_of ls)) = {ip. \<exists>h\<in>fst ?st. ParseIP h = Some ip}"
    and d: "distinct (DNSNames (cert_template_of ls))"
    unfolding cert_template_fold by (auto simp: san_inv_def split: prod.splits)
  show "set (DNSNames (cert_template_of ls)) = insert ''localhost'' {h \<in> server_names ls. ParseIP h = None}"
    unfolding t seen using parse_localhost parse_v4_example parse_v6_example by auto
  show "set (IPAddresses (cert_template_of ls)) = loopback_ips \<union> {ip. \<exists>h\<in>server_names ls. ParseIP h = Some ip}"
    unfolding t seen loopback_ips_def using parse_localhost parse_v4_example parse_v6_example by auto
  show "distinct (DNSNames (cert_template_of ls))" by (rule d)
qed

text \<open>
  C40: The generated certificate names localhost, the loopback addresses and the listeners' hosts, and
  nothing else. Without a configured certificate the server presents one made from a template whose
  DNS names are exactly \<^verbatim>\<open>localhost\<close> and those hosts of listener addresses and configured hostnames that
  are no IP address, none twice, and whose IP addresses are exactly 127.0.0.1, ::1 and the ones that
  the other hosts and hostnames denote.
\<close>

theorem serverCertificate_names:
  assumes "serverCertificate E c None = Inr cert" and "TLSCert c = []"
  shows "\<exists>der. CreateCertificate E (cert_template_of (Listeners c)) = Inr der \<and> Chain cert = [der] \<and>
    (\<forall>l\<in>set (Listeners c). \<forall>h\<in>{host_of (Listen l), Hostname l}. h \<noteq> [] \<longrightarrow> covered (cert_template_of (Listeners c)) h) \<and>
    distinct (DNSNames (cert_template_of (Listeners c))) \<and>
    set (DNSNames (cert_template_of (Listeners c))) =
      insert ''localhost'' {h \<in> server_names (Listeners c). ParseIP h = None} \<and>
    set (IPAddresses (cert_template_of (Listeners c))) =
      {replicate 10 0 @ [255, 255, 127, 0, 0, 1], replicate 15 0 @ [1]} \<union>
      {ip. \<exists>h\<in>server_names (Listeners c). ParseIP h = Some ip}"
proof -
  obtain der where der: "CreateCertificate E (cert_template_of (Listeners c)) = Inr der" "Chain cert = [der]"
    using assms by (auto simp: serverCertificate_def tryR_Inr_iff)
  note names = cert_template_names [of "Listeners c"]
  have "covered (cert_template_of (Listeners c)) h" if "h \<in> server_names (Listeners c)" for h
    using that names by (cases "ParseIP h") (auto simp: covered_def)
  moreover have "h \<in> server_names (Listeners c)"
    if "l \<in> set (Listeners c)" "h \<in> {host_of (Listen l), Hostname l}" "h \<noteq> []" for l h
    using that by (auto simp: server_names_def)
  ultimately show ?thesis using der names(2) names(1) names(3) [unfolded loopback_ips_def]
    by (intro exI [of _ der] conjI) blast+
qed

section \<open>An example\<close>

definition fixture_env :: server_env where
  "fixture_env = \<lparr>LoadX509KeyPair = (\<lambda>_ _. Inl EOF), GenerateKey = Inr (), SerialNumber = Inr (),
     CreateCertificate = (\<lambda>_. Inr [1]), ParseCertificate = Inr,
     NetListen = (\<lambda>_ addr. Inr (if addr = ''127.0.0.1:0'' then ''127.0.0.1:40000'' else addr)),
     ServiceKey = Inr \<lparr>modulus = [1], exponent = [1, 0, 1]\<rparr>\<rparr>"

theorem serverCertificate_names_witness:
  "covered (cert_template_of (Listeners fixture_config)) ''db.test''"
proof -
  have "serverCertificate fixture_env fixture_config None = Inr \<lparr>Chain = [[1]]\<rparr>" "TLSCert fixture_config = []"
    by (simp_all add: serverCertificate_def fixture_env_def fixture_config_def)
  from serverCertificate_names [OF this] fixture_members(5) have
    "Hostname fixture_aws \<noteq> [] \<longrightarrow> covered (cert_template_of (Listeners fixture_config)) (Hostname fixture_aws)"
    by blast
  then show ?thesis by (simp add: fixture_aws_def)
qed

lemma fixture_net_listen:
  "a \<noteq> ''127.0.0.1:0'' \<Longrightarrow> net_listen fixture_env a st =
     (Inr (a, Calls st), st\<lparr>Calls := Suc (Calls st), OpenedLog := OpenedLog st @ [Socket (Calls st)]\<rparr>)"
  by (simp add: net_listen_def fixture_env_def Let_def)

lemma fixture_start:
  "\<exists>em st. Start (\<lambda>s. s) fixture_env fixture_config \<lparr>Certificate = None, InMemory = True\<rparr> = (Inr em, st, []) \<and>
     Listeners (SConfig (Svc em)) = Listeners fixture_config"
proof -
  have "start_config fixture_config = fixture_config"
    by (simp add: start_config_def clone_def clone_principal_def fixture_config_def)
  then have v: "Validate_Config (\<lambda>s. s) (start_config fixture_config) = Inr fixture_config"
    using fixture_validates by simp
  have c: "serverCertificate fixture_env fixture_config None = Inr \<lparr>Chain = [[1]]\<rparr>"
    by (simp add: serverCertificate_def fixture_env_def fixture_config_def)
  have ls: "Listeners fixture_config = [fixture_aws, fixture_google, fixture_azure]" by (simp add: fixture_config_def)
  have ports: "port_of (Listen fixture_aws) = ''15432''" "port_of (Listen fixture_google) = ''13306''"
    "port_of (Listen fixture_azure) = ''15433''"
    by (simp_all add: port_of_def fixture_defs eval_net)
  then have b: "bind_listeners fixture_env True (Listeners fixture_config) start_state0 =
      (Inr (Listeners fixture_config, []), start_state0)"
    by (simp add: ls)
  have d: "dial_addresses fixture_aws = [''127.0.0.1:15432'', ''db.test:15432'']"
    "dial_addresses fixture_google = [''127.0.0.1:13306'']" "dial_addresses fixture_azure = [''127.0.0.1:15433'']"
    using ports by (simp_all add: dial_addresses_def JoinHostPort_def fixture_defs)
  obtain routes memory st where r: "make_routes (Listeners fixture_config) Map.empty Map.empty start_state0 =
      (Inr (routes, memory), st)"
    by (simp add: ls d)
  have http: "HTTPListen fixture_config \<noteq> ''127.0.0.1:0''" "HTTPSListen fixture_config = []" "PublicURL fixture_config \<noteq> []"
    by (simp_all add: fixture_config_def)
  have k: "ServiceKey fixture_env = Inr \<lparr>modulus = [1], exponent = [1, 0, 1]\<rparr>" "ParseCertificate fixture_env = Inr"
    by (simp_all add: fixture_env_def)
  show ?thesis
    by (simp add: Start_def v c k start_sockets_def b r fixture_net_listen http start_https_def newService_def Let_def)
qed

theorem Start_serves_config_witness:
  "\<exists>em st. Start (\<lambda>s. s) fixture_env fixture_config \<lparr>Certificate = None, InMemory = True\<rparr> = (Inr em, st, []) \<and>
     TCP em = []"
proof -
  obtain em st where s: "Start (\<lambda>s. s) fixture_env fixture_config \<lparr>Certificate = None, InMemory = True\<rparr> = (Inr em, st, [])"
    using fixture_start by blast
  from Start_serves_config [OF s] s show ?thesis by auto
qed

theorem DialContext_reaches_witness:
  "\<exists>em st. Start (\<lambda>s. s) fixture_env fixture_config \<lparr>Certificate = None, InMemory = True\<rparr> = (Inr em, st, []) \<and>
     fst (DialContext em ''tcp'' ''127.0.0.1:15432'' HandedOver) = Inr (mem_pipe ''client'' ''127.0.0.1:15432'')"
proof -
  obtain em st where s: "Start (\<lambda>s. s) fixture_env fixture_config \<lparr>Certificate = None, InMemory = True\<rparr> = (Inr em, st, [])"
    and ls: "Listeners (SConfig (Svc em)) = Listeners fixture_config"
    using fixture_start by blast
  have "''127.0.0.1:15432'' \<in> set (dial_addresses fixture_aws)" "''tcp'' \<in> set dial_networks"
    by (simp_all add: dial_addresses_def fixture_aws_def dial_networks_def)
  moreover have "after_dials [] em = em" by (simp add: after_dials_def)
  ultimately have "fst (DialContext em ''tcp'' ''127.0.0.1:15432'' HandedOver) = Inr (mem_pipe ''client'' ''127.0.0.1:15432'')"
    using DialContext_reaches [OF s, of "[]" "''127.0.0.1:15432''" "''tcp''" HandedOver] fixture_members(5) ls
    by (auto simp: Let_def)
  with s show ?thesis by blast
qed

end
