(* ===== verification/Shutdown.thy ===== *)
theory Shutdown
  imports ServerRun
begin

text \<open>
  The life of a started emulator: the goroutines that \<^verbatim>\<open>serve\<close> starts (one accept loop for each listener,
  the credential endpoints, and the one that shuts everything down), and \<^verbatim>\<open>Close\<close>. The theorem says
  that \<^verbatim>\<open>Close\<close> can always return, and what has ended when it does; sessions may go on.
\<close>

section \<open>Goroutines\<close>

text \<open>Where the goroutine is that waits for the context: what it still has to close or shut down.\<close>

datatype shutdown_pc =
    AwaitContext
  | CloseTCP "nat list"
  | CloseMemory "string set"   \<comment> \<open>a map is visited in any order\<close>
  | ShutdownServers "nat list"
  | AwaitGroup
  | DoneClosed

text \<open>
  \<open>LifeClosed\<close> are the listeners that have been closed, \<open>Loops\<close> the accept loops by their position in
  \<open>accept_loops\<close>, and \<open>Serves\<close> the sockets whose \<^verbatim>\<open>serveHTTP\<close> has not returned.
\<close>

record life =
  Pc :: shutdown_pc
  Cancelled :: bool
  LifeClosed :: "closer set"
  Loops :: "nat \<Rightarrow> accept_state"
  Serves :: "nat set"

definition http_sockets :: "emulator \<Rightarrow> nat list" where
  "http_sockets em = HTTPSocket em # (case HTTPSSocket em of None \<Rightarrow> [] | Some k \<Rightarrow> [k])"

definition life_start :: "emulator \<Rightarrow> life" where
  "life_start em = \<lparr>Pc = AwaitContext, Cancelled = False, LifeClosed = {}, Loops = (\<lambda>_. accept_start),
     Serves = set (http_sockets em)\<rparr>"

text \<open>\<^verbatim>\<open>e.stop()\<close>, and the cancellation of the context that \<^verbatim>\<open>Start\<close> was given.\<close>

definition stop :: "life \<Rightarrow> life" where
  "stop s = s\<lparr>Cancelled := True, Loops := (\<lambda>i. (Loops s i)\<lparr>CtxDone := True\<rparr>)\<rparr>"

definition set_loop :: "nat \<Rightarrow> accept_state \<Rightarrow> life \<Rightarrow> life" where
  "set_loop i a s = s\<lparr>Loops := (Loops s)(i := a)\<rparr>"

definition close_listener :: "closer \<Rightarrow> shutdown_pc \<Rightarrow> life \<Rightarrow> life" where
  "close_listener x pc s = s\<lparr>LifeClosed := insert x (LifeClosed s), Pc := pc\<rparr>"

text \<open>
  A closed listener accepts no connection and fails with \<^verbatim>\<open>net.ErrClosed\<close>; \<^verbatim>\<open>http.Server.Serve\<close>
  returns when it is shut down or on an error of its own; \<^verbatim>\<open>Shutdown\<close> closes the server's socket.
\<close>

inductive life_step :: "emulator \<Rightarrow> life \<Rightarrow> life \<Rightarrow> bool" for em where
  life_stop: "life_step em s (stop s)"
| life_conn: "i < length (accept_loops em) \<Longrightarrow> \<not> Stopped (Loops s i) \<Longrightarrow> Waiting (Loops s i) = None \<Longrightarrow>
    fst (accept_loops em ! i) \<notin> LifeClosed s \<Longrightarrow>
    life_step em s (set_loop i (accept_new (Loops s i)) s)"
| life_error: "i < length (accept_loops em) \<Longrightarrow> \<not> Stopped (Loops s i) \<Longrightarrow> Waiting (Loops s i) = None \<Longrightarrow>
    fst (accept_loops em ! i) \<in> LifeClosed s \<longrightarrow> err = ErrClosed \<Longrightarrow>
    life_step em s (set_loop i (accept_failed err (Loops s i)) s)"
| life_own: "i < length (accept_loops em) \<Longrightarrow> accept_own (Loops s i) a \<Longrightarrow> life_step em s (set_loop i a s)"
| life_serve: "k \<in> Serves s \<Longrightarrow> life_step em s (s\<lparr>Serves := Serves s - {k}\<rparr>)"
| life_context: "Pc s = AwaitContext \<Longrightarrow> Cancelled s \<Longrightarrow> life_step em s (s\<lparr>Pc := CloseTCP (TCP em)\<rparr>)"
| life_tcp: "Pc s = CloseTCP (k # ks) \<Longrightarrow> life_step em s (close_listener (Socket k) (CloseTCP ks) s)"
| life_tcp_done: "Pc s = CloseTCP [] \<Longrightarrow> life_step em s (s\<lparr>Pc := CloseMemory (dom (Memory em))\<rparr>)"
| life_memory: "Pc s = CloseMemory names \<Longrightarrow> n \<in> names \<Longrightarrow>
    life_step em s (close_listener (MemoryListener n) (CloseMemory (names - {n})) s)"
| life_memory_done: "Pc s = CloseMemory {} \<Longrightarrow> life_step em s (s\<lparr>Pc := ShutdownServers (http_sockets em)\<rparr>)"
| life_shutdown: "Pc s = ShutdownServers (k # ks) \<Longrightarrow>
    life_step em s (close_listener (Socket k) (ShutdownServers ks) s)"
| life_shutdown_done: "Pc s = ShutdownServers [] \<Longrightarrow> life_step em s (s\<lparr>Pc := AwaitGroup\<rparr>)"
| life_done: "Pc s = AwaitGroup \<Longrightarrow> \<forall>i<length (accept_loops em). Stopped (Loops s i) \<Longrightarrow> Serves s = {} \<Longrightarrow>
    life_step em s (s\<lparr>Pc := DoneClosed\<rparr>)"

inductive life_reach :: "emulator \<Rightarrow> life \<Rightarrow> bool" for em where
  life_reach_start: "life_reach em (life_start em)"
| life_reach_step: "life_reach em s \<Longrightarrow> life_step em s s' \<Longrightarrow> life_reach em s'"

text \<open>\<^verbatim>\<open>Close\<close> is \<^verbatim>\<open>stop\<close>, and returns when \<^verbatim>\<open>Done\<close> is closed.\<close>

definition Close_returns :: "life \<Rightarrow> bool" where
  "Close_returns s \<longleftrightarrow> Pc s = DoneClosed"

section \<open>The invariant\<close>

fun pending :: "emulator \<Rightarrow> shutdown_pc \<Rightarrow> closer set" where
  "pending em AwaitContext = shutdown_closes em"
| "pending em (CloseTCP ks) = Socket ` set ks \<union> MemoryListener ` dom (Memory em) \<union> Socket ` set (http_sockets em)"
| "pending em (CloseMemory names) = MemoryListener ` names \<union> Socket ` set (http_sockets em)"
| "pending em (ShutdownServers ks) = Socket ` set ks"
| "pending em AwaitGroup = {}"
| "pending em DoneClosed = {}"

definition life_inv :: "emulator \<Rightarrow> life \<Rightarrow> bool" where
  "life_inv em s \<longleftrightarrow>
     shutdown_closes em \<subseteq> LifeClosed s \<union> pending em (Pc s) \<and>
     (\<forall>i. CtxDone (Loops s i) = Cancelled s) \<and>
     (Pc s \<noteq> AwaitContext \<longrightarrow> Cancelled s) \<and> finite (Serves s) \<and>
     (\<forall>names. Pc s = CloseMemory names \<longrightarrow> names \<subseteq> dom (Memory em)) \<and>
     (Pc s = DoneClosed \<longrightarrow> (\<forall>i<length (accept_loops em). Stopped (Loops s i)) \<and> Serves s = {})"

lemma shutdown_closes_eq:
  "shutdown_closes em = Socket ` set (TCP em) \<union> MemoryListener ` dom (Memory em) \<union> Socket ` set (http_sockets em)"
  by (auto simp: shutdown_closes_def http_sockets_def split: option.splits)

lemma accept_own_frame: "accept_own a a' \<Longrightarrow> CtxDone a' = CtxDone a \<and> (Stopped a \<longrightarrow> Stopped a')"
  by (induction rule: accept_own.induct) simp_all

lemma life_inv_start: "life_inv em (life_start em)"
  by (simp add: life_inv_def life_start_def accept_start_def)

lemma life_inv_loop:
  "life_inv em s \<Longrightarrow> CtxDone a = CtxDone (Loops s i) \<Longrightarrow> (Stopped (Loops s i) \<longrightarrow> Stopped a) \<Longrightarrow>
     life_inv em (set_loop i a s)"
  by (simp add: life_inv_def set_loop_def)

lemma life_inv_pc:
  "life_inv em s \<Longrightarrow> Pc s \<noteq> DoneClosed \<Longrightarrow> pending em (Pc s) \<subseteq> pending em pc \<Longrightarrow> Cancelled s \<Longrightarrow>
     (\<forall>names. pc = CloseMemory names \<longrightarrow> names \<subseteq> dom (Memory em)) \<Longrightarrow> pc \<noteq> DoneClosed \<Longrightarrow>
     life_inv em (s\<lparr>Pc := pc\<rparr>)"
  unfolding life_inv_def by (simp, blast)

lemma life_inv_close:
  "life_inv em s \<Longrightarrow> Cancelled s \<Longrightarrow> pending em (Pc s) \<subseteq> insert x (pending em pc) \<Longrightarrow>
     (\<forall>names. pc = CloseMemory names \<longrightarrow> names \<subseteq> dom (Memory em)) \<Longrightarrow> pc \<noteq> DoneClosed \<Longrightarrow>
     life_inv em (close_listener x pc s)"
  unfolding life_inv_def close_listener_def by (simp, blast)

lemma life_inv_Cancelled: "life_inv em s \<Longrightarrow> Pc s \<noteq> AwaitContext \<Longrightarrow> Cancelled s"
  by (simp add: life_inv_def)

lemma life_inv_step: "life_step em s s' \<Longrightarrow> life_inv em s \<Longrightarrow> life_inv em s'"
proof (induction rule: life_step.induct)
  case (life_stop s)
  then show ?case by (simp add: life_inv_def stop_def)
next
  case (life_conn i s)
  then show ?case by (intro life_inv_loop) (simp_all add: accept_new_def)
next
  case (life_error i s err)
  then show ?case by (intro life_inv_loop) (simp_all add: accept_failed_def)
next
  case (life_own i s a)
  then show ?case using accept_own_frame by (intro life_inv_loop) blast+
next
  case (life_serve k s)
  then show ?case by (simp add: life_inv_def)
next
  case (life_context s)
  then show ?case by (intro life_inv_pc) (auto simp: shutdown_closes_eq)
next
  case (life_memory s names n)
  then have "names \<subseteq> dom (Memory em)" by (simp add: life_inv_def)
  with life_memory life_inv_Cancelled [of em s] show ?case by (intro life_inv_close) auto
next
  case (life_done s)
  then show ?case by (simp add: life_inv_def)
next
  case (life_tcp s k ks)
  with life_inv_Cancelled [of em s] show ?case by (intro life_inv_close) auto
next
  case (life_shutdown s k ks)
  with life_inv_Cancelled [of em s] show ?case by (intro life_inv_close) auto
next
  case (life_tcp_done s)
  with life_inv_Cancelled [of em s] show ?case by (intro life_inv_pc) auto
next
  case (life_memory_done s)
  with life_inv_Cancelled [of em s] show ?case by (intro life_inv_pc) auto
next
  case (life_shutdown_done s)
  with life_inv_Cancelled [of em s] show ?case by (intro life_inv_pc) auto
qed

lemma life_reach_inv: "life_reach em s \<Longrightarrow> life_inv em s"
  by (induction rule: life_reach.induct) (auto intro: life_inv_start life_inv_step)

text \<open>Each accept loop runs as \<open>accept_step\<close> allows.\<close>

lemma life_step_loops: "life_step em s s' \<Longrightarrow> Loops s' i = Loops s i \<or> accept_step (Loops s i) (Loops s' i)"
  by (induction rule: life_step.induct)
    (auto simp: stop_def set_loop_def close_listener_def intro: accept_cancel accept_conn accept_error accept_step_own)

lemma life_reach_loops: "life_reach em s \<Longrightarrow> accept_reach (Loops s i)"
proof (induction rule: life_reach.induct)
  case life_reach_start
  show ?case using accept_reach_start by (simp add: life_start_def)
next
  case (life_reach_step s s')
  then show ?case using life_step_loops [of em s s' i] accept_reach_step by auto
qed

section \<open>Progress\<close>

text \<open>What is left to do before \<^verbatim>\<open>Close\<close> returns.\<close>

fun pc_left :: "emulator \<Rightarrow> shutdown_pc \<Rightarrow> nat" where
  "pc_left em AwaitContext = length (TCP em) + card (dom (Memory em)) + length (http_sockets em) + 5"
| "pc_left em (CloseTCP ks) = length ks + card (dom (Memory em)) + length (http_sockets em) + 4"
| "pc_left em (CloseMemory names) = card names + length (http_sockets em) + 3"
| "pc_left em (ShutdownServers ks) = length ks + 2"
| "pc_left em AwaitGroup = 1"
| "pc_left em DoneClosed = 0"

definition loop_left :: "accept_state \<Rightarrow> nat" where
  "loop_left a = (if Stopped a then 0 else 1)"

definition life_left :: "emulator \<Rightarrow> life \<Rightarrow> nat" where
  "life_left em s =
     pc_left em (Pc s) + (\<Sum>i<length (accept_loops em). loop_left (Loops s i)) + card (Serves s)"

lemma loops_left_update:
  fixes n :: nat
  assumes "i < n"
  shows "(\<Sum>j<n. loop_left ((f(i := a)) j)) + loop_left (f i) = (\<Sum>j<n. loop_left (f j)) + loop_left a"
proof -
  have "(\<Sum>j<n. loop_left ((f(i := a)) j)) = loop_left a + (\<Sum>j\<in>{..<n} - {i}. loop_left ((f(i := a)) j))"
    using assms by (subst sum.remove [of _ i]) simp_all
  moreover have "(\<Sum>j\<in>{..<n} - {i}. loop_left ((f(i := a)) j)) = (\<Sum>j\<in>{..<n} - {i}. loop_left (f j))"
    by (rule sum.cong) simp_all
  moreover have "(\<Sum>j<n. loop_left (f j)) = loop_left (f i) + (\<Sum>j\<in>{..<n} - {i}. loop_left (f j))"
    using assms by (subst sum.remove [of _ i]) simp_all
  ultimately show ?thesis by simp
qed

lemma life_left_loop:
  "i < length (accept_loops em) \<Longrightarrow>
     life_left em (set_loop i a s) + loop_left (Loops s i) = life_left em s + loop_left a"
  using loops_left_update [of i "length (accept_loops em)" "Loops s" a]
  by (simp add: life_left_def set_loop_def)

lemma loop_left_own: "accept_own a a' \<Longrightarrow> loop_left a' \<le> loop_left a"
  using accept_own_frame [of a a'] by (simp add: loop_left_def)

text \<open>No step adds to what is left.\<close>

lemma life_left_mono:
  "life_step em s s' \<Longrightarrow> finite (dom (Memory em)) \<Longrightarrow> life_inv em s \<Longrightarrow> life_left em s' \<le> life_left em s"
proof (induction rule: life_step.induct)
  case (life_stop s)
  then show ?case by (simp add: life_left_def stop_def loop_left_def)
next
  case (life_conn i s)
  then show ?case using life_left_loop [of i em "accept_new (Loops s i)" s] by (simp add: loop_left_def accept_new_def)
next
  case (life_error i s err)
  then show ?case
    using life_left_loop [of i em "accept_failed err (Loops s i)" s] by (simp add: loop_left_def split: if_splits)
next
  case (life_own i s a)
  then show ?case using life_left_loop [of i em a s] loop_left_own by fastforce
next
  case (life_serve k s)
  then have "finite (Serves s)" by (simp add: life_inv_def)
  then show ?case by (simp add: life_left_def card_Diff1_le)
next
  case (life_memory s names n)
  then have "finite names" by (auto simp: life_inv_def intro: finite_subset)
  with life_memory show ?case by (simp add: life_left_def close_listener_def card_Diff1_le)
qed (simp_all add: life_left_def close_listener_def)

lemma loop_can_stop:
  assumes "life_inv em s" "Cancelled s" "i < length (accept_loops em)" "\<not> Stopped (Loops s i)"
  shows "\<exists>s'. life_step em s s' \<and> life_left em s' < life_left em s"
proof -
  let ?a = "Loops s i"
  have ctx: "CtxDone ?a" using assms(1,2) by (simp add: life_inv_def)
  have less: "life_left em (set_loop i a s) < life_left em s" if "Stopped a" for a
    using life_left_loop [OF assms(3), of a s] assms(4) that by (simp add: loop_left_def)
  show ?thesis
  proof (cases "Waiting ?a")
    case None
    have "life_step em s (set_loop i (accept_failed ErrClosed ?a) s)"
      using assms(3,4) None by (intro life_error) simp_all
    moreover have "Stopped (accept_failed ErrClosed ?a)" by (simp add: accept_failed_def accept_stops_def)
    ultimately show ?thesis using less by blast
  next
    case (Some n)
    then have "accept_own ?a (?a\<lparr>Waiting := None, ClosedConns := insert n (ClosedConns ?a), Stopped := True\<rparr>)"
      using ctx by (rule accept_ctx)
    from life_own [OF assms(3) this] less show ?thesis by fastforce
  qed
qed

lemma life_progress:
  assumes inv: "life_inv em s" and c: "Cancelled s" and fin: "finite (dom (Memory em))" and nd: "Pc s \<noteq> DoneClosed"
  shows "\<exists>s'. life_step em s s' \<and> life_left em s' < life_left em s"
proof (cases "Pc s")
  case AwaitContext
  from life_context [OF this c] this show ?thesis by (intro exI conjI) (auto simp: life_left_def)
next
  case (CloseTCP ks)
  show ?thesis
  proof (cases ks)
    case Nil
    from life_tcp_done [OF CloseTCP [unfolded Nil]] CloseTCP Nil show ?thesis
      by (intro exI conjI) (auto simp: life_left_def)
  next
    case (Cons k ks')
    from life_tcp [OF CloseTCP [unfolded Cons]] CloseTCP Cons show ?thesis
      by (intro exI conjI) (auto simp: life_left_def close_listener_def)
  qed
next
  case (CloseMemory names)
  then have f: "finite names" using inv fin by (auto simp: life_inv_def intro: finite_subset)
  show ?thesis
  proof (cases "names = {}")
    case True
    from life_memory_done [OF CloseMemory [unfolded True]] CloseMemory True show ?thesis
      by (intro exI conjI) (auto simp: life_left_def)
  next
    case False
    then obtain n where n: "n \<in> names" by blast
    from life_memory [OF CloseMemory n] CloseMemory card_Diff1_less [OF f n] show ?thesis
      by (intro exI conjI) (auto simp: life_left_def close_listener_def)
  qed
next
  case (ShutdownServers ks)
  show ?thesis
  proof (cases ks)
    case Nil
    from life_shutdown_done [OF ShutdownServers [unfolded Nil]] ShutdownServers Nil show ?thesis
      by (intro exI conjI) (auto simp: life_left_def)
  next
    case (Cons k ks')
    from life_shutdown [OF ShutdownServers [unfolded Cons]] ShutdownServers Cons show ?thesis
      by (intro exI conjI) (auto simp: life_left_def close_listener_def)
  qed
next
  case AwaitGroup
  consider (loop) i where "i < length (accept_loops em)" "\<not> Stopped (Loops s i)" | (serve) k where "k \<in> Serves s"
    | (all) "\<forall>i<length (accept_loops em). Stopped (Loops s i)" "Serves s = {}" by blast
  then show ?thesis
  proof cases
    case loop
    then show ?thesis using loop_can_stop [OF inv c] by blast
  next
    case serve
    have "finite (Serves s)" using inv by (simp add: life_inv_def)
    from life_serve [OF serve] card_Diff1_less [OF this serve] show ?thesis
      by (intro exI conjI) (auto simp: life_left_def)
  next
    case all
    from life_done [OF AwaitGroup all] AwaitGroup show ?thesis by (intro exI conjI) (auto simp: life_left_def)
  qed
qed (use nd in simp)

lemma stays_cancelled: "life_step em s s' \<Longrightarrow> Cancelled s \<Longrightarrow> Cancelled s'"
  by (induction rule: life_step.induct) (simp_all add: stop_def set_loop_def close_listener_def)

lemma life_finishes:
  "life_inv em s \<Longrightarrow> Cancelled s \<Longrightarrow> finite (dom (Memory em)) \<Longrightarrow>
     \<exists>n s'. n \<le> life_left em s \<and> (life_step em ^^ n) s s' \<and> Pc s' = DoneClosed"
proof (induction "life_left em s" arbitrary: s rule: less_induct)
  case less
  show ?case
  proof (cases "Pc s = DoneClosed")
    case True
    then show ?thesis by (intro exI [of _ 0] exI [of _ s]) simp
  next
    case False
    then obtain s1 where s1: "life_step em s s1" "life_left em s1 < life_left em s"
      using life_progress less.prems by blast
    obtain n s' where "n \<le> life_left em s1" "(life_step em ^^ n) s1 s'" "Pc s' = DoneClosed"
      using less.hyps [OF s1(2)] life_inv_step [OF s1(1)] stays_cancelled [OF s1(1)] less.prems by blast
    with s1 show ?thesis
      by (intro exI [of _ "Suc n"] exI [of _ s']) (auto simp del: relpowp.simps intro: relpowp_Suc_I2)
  qed
qed

text \<open>
  C39: \<^verbatim>\<open>Close\<close> returns, and only after everything has ended. Once a started emulator has been stopped, then
  from whatever state its goroutines are in, at most \<open>life_left\<close> steps let \<^verbatim>\<open>Close\<close> return, and no step
  of any goroutine adds to that number: 256 sessions that never end do not keep an accept loop from
  returning. When \<^verbatim>\<open>Close\<close> has returned, every listener that \<^verbatim>\<open>Start\<close> opened is closed, every accept
  loop has returned without a connection left waiting, and so have the credential endpoints.
\<close>

theorem Close_completes:
  assumes "Start ul E c opts = (Inr em, st, closed)" and "life_reach em s"
  shows "(Cancelled s \<longrightarrow> (\<exists>n s'. n \<le> life_left em s \<and> (life_step em ^^ n) s s' \<and> Close_returns s')) \<and>
    (\<forall>s'. life_step em s s' \<longrightarrow> life_left em s' \<le> life_left em s) \<and>
    (Close_returns s \<longrightarrow> set (OpenedLog st) \<subseteq> LifeClosed s \<and> Serves s = {} \<and>
       (\<forall>i<length (accept_loops em). Stopped (Loops s i) \<and> Waiting (Loops s i) = None))"
proof (intro conjI)
  obtain c0 cert leaf where started: "started E (InMemory opts) c0 cert leaf em st"
    using Start_result [OF assms(1)] by auto
  note inv = life_reach_inv [OF assms(2)]
  have fin: "finite (dom (Memory em))" by (simp add: startedD(5) [OF started])
  show "Cancelled s \<longrightarrow> (\<exists>n s'. n \<le> life_left em s \<and> (life_step em ^^ n) s s' \<and> Close_returns s')"
    using life_finishes [OF inv _ fin] by (simp add: Close_returns_def)
  show "\<forall>s'. life_step em s s' \<longrightarrow> life_left em s' \<le> life_left em s"
    using life_left_mono [OF _ fin inv] by blast
  have "Stopped (Loops s i) \<longrightarrow> Waiting (Loops s i) = None" for i
    using accept_reach_inv [OF life_reach_loops [OF assms(2)], of i] by (simp add: accept_inv_def)
  moreover have "Pc s = DoneClosed \<Longrightarrow> shutdown_closes em \<subseteq> LifeClosed s"
    "Pc s = DoneClosed \<Longrightarrow> (\<forall>i<length (accept_loops em). Stopped (Loops s i)) \<and> Serves s = {}"
    using inv unfolding life_inv_def by simp_all
  ultimately show "Close_returns s \<longrightarrow> set (OpenedLog st) \<subseteq> LifeClosed s \<and> Serves s = {} \<and>
      (\<forall>i<length (accept_loops em). Stopped (Loops s i) \<and> Waiting (Loops s i) = None)"
    unfolding Close_returns_def started_closes [OF started] by blast
qed

theorem Close_completes_witness:
  "\<exists>em st n s'. Start (\<lambda>s. s) fixture_env fixture_config \<lparr>Certificate = None, InMemory = True\<rparr> = (Inr em, st, []) \<and>
     (life_step em ^^ n) (stop (life_start em)) s' \<and> Close_returns s'"
proof -
  obtain em st where s: "Start (\<lambda>s. s) fixture_env fixture_config \<lparr>Certificate = None, InMemory = True\<rparr> = (Inr em, st, [])"
    using fixture_start by blast
  have "life_reach em (stop (life_start em))" by (rule life_reach_step [OF life_reach_start life_stop])
  moreover have "Cancelled (stop (life_start em))" by (simp add: stop_def)
  ultimately show ?thesis using Close_completes [OF s, THEN conjunct1, THEN mp] s by blast
qed

end
