(* ===== verification/Embedding.thy ===== *)
theory Embedding
  imports ServerProps
begin

text \<open>
  Around the emulator: what its clients trust, the adapters that point \<^verbatim>\<open>pgx\<close> and \<^verbatim>\<open>go-sql-driver/mysql\<close>
  at it in memory (\<^verbatim>\<open>iamproxy/pgxdial\<close>, \<^verbatim>\<open>iamproxy/mysqldial\<close>), the command
  (\<^verbatim>\<open>cmd/db-iam-auth-emulator-proxy\<close>), and the relay that ends a PostgreSQL session.
\<close>

section \<open>Trust\<close>

text \<open>A certificate pool is the set of its certificates; \<^const>\<open>None\<close> is a nil pool.\<close>

record client_tls =
  RootCAs :: "bytes set option"
  ClientServerName :: string

definition CertPool :: "emulator \<Rightarrow> bytes set" where
  "CertPool e = {Leaf e}"

definition ClientTLSConfig :: "emulator \<Rightarrow> client_tls" where
  "ClientTLSConfig e = \<lparr>RootCAs = Some (CertPool e), ClientServerName = []\<rparr>"

definition trust :: "client_tls option \<Rightarrow> emulator \<Rightarrow> client_tls option" where
  "trust c e =
     (case c of
        None \<Rightarrow> None
      | Some c \<Rightarrow> if RootCAs c \<noteq> None then Some c else Some (c\<lparr>RootCAs := Some (CertPool e)\<rparr>))"

section \<open>pgx\<close>

type_synonym mem_dialer = "string \<Rightarrow> string \<Rightarrow> dial_choice \<Rightarrow> memPipe result \<times> emulator"

record pgx_config =
  DialFunc :: "mem_dialer option"
  PgxLookup :: "string \<Rightarrow> string list result"
  PgxTLS :: "client_tls option"
  PgxFallbacks :: "client_tls option list"

definition Configure :: "pgx_config \<Rightarrow> emulator \<Rightarrow> pgx_config" where
  "Configure cfg e =
     cfg\<lparr>DialFunc := Some (DialContext e), PgxLookup := (\<lambda>host. Inr [host]), PgxTLS := trust (PgxTLS cfg) e,
       PgxFallbacks := map (\<lambda>f. trust f e) (PgxFallbacks cfg)\<rparr>"

text \<open>TLS stays on or off as it was, roots the caller chose are kept, and otherwise only the emulator is trusted.\<close>

lemma trust_cases:
  "(trust c e = None \<longleftrightarrow> c = None) \<and>
   (\<forall>t roots. c = Some t \<longrightarrow> RootCAs t = Some roots \<longrightarrow> trust c e = Some t) \<and>
   (\<forall>t. c = Some t \<longrightarrow> RootCAs t = None \<longrightarrow> trust c e = Some (t\<lparr>RootCAs := Some {Leaf e}\<rparr>))"
  by (auto simp: trust_def CertPool_def split: option.splits)

section \<open>go-sql-driver/mysql\<close>

text \<open>
  The driver's two global registries; \<open>refused\<close> is the error of \<^verbatim>\<open>mysql.RegisterTLSConfig\<close>, which does
  not take reserved names.
\<close>

record mysql_driver =
  TLSConfigs :: "string \<rightharpoonup> client_tls"
  Networks :: "string \<rightharpoonup> (string \<Rightarrow> dial_choice \<Rightarrow> memPipe result \<times> emulator)"

definition Register ::
  "(string \<Rightarrow> go_error option) \<Rightarrow> string \<Rightarrow> emulator \<Rightarrow> mysql_driver \<Rightarrow> go_error option \<times> mysql_driver" where
  "Register refused name e d =
     (case refused name of
        Some err \<Rightarrow> (Some err, d)
      | None \<Rightarrow> (None, d\<lparr>TLSConfigs := (TLSConfigs d)(name \<mapsto> ClientTLSConfig e),
          Networks := (Networks d)(name \<mapsto> (\<lambda>addr. DialContext e ''tcp'' addr))\<rparr>))"

section \<open>The command\<close>

datatype command_end =
    Fails go_error          \<comment> \<open>printed; exit status 1\<close>
  | ConfigurationValid      \<comment> \<open>printed; exit status 0\<close>
  | StartFails go_error     \<comment> \<open>logged; exit status 1\<close>
  | Runs emulator           \<comment> \<open>until it is done\<close>

text \<open>\<open>loaded\<close> is the result of \<^verbatim>\<open>iamproxy.LoadConfig\<close> for the path.\<close>

definition command ::
  "(string \<Rightarrow> string) \<Rightarrow> server_env \<Rightarrow> string \<Rightarrow> bool \<Rightarrow> Config result \<Rightarrow> command_end" where
  "command ul E configPath validate loaded =
     (let checked = tryR loaded (\<lambda>c. if TLSCert c = [] then
            Inl (Errorf ''%s: TLS certificate and key are required'' [configPath]) else Inr c) in
      case checked of
        Inl err \<Rightarrow> Fails err
      | Inr c \<Rightarrow>
      if validate then ConfigurationValid
      else case Start ul E c \<lparr>Certificate = None, InMemory = False\<rparr> of
        (Inl err, st, closed) \<Rightarrow> StartFails err
      | (Inr e, st, closed) \<Rightarrow> Runs e)"

text \<open>The command never generates a certificate: it serves the configured key pair.\<close>

lemma TLSCert_validated: "Validate_Config ul (start_config c) = Inr c0 \<Longrightarrow> TLSCert c0 = TLSCert c \<and> TLSKey c0 = TLSKey c"
  by (auto simp: Validate_Config_iff with_default_def start_config_def clone_def Let_def)

lemma command_certificate:
  assumes "command ul E path validate loaded = Runs e"
  shows "\<exists>c. loaded = Inr c \<and> TLSCert c \<noteq> [] \<and> LoadX509KeyPair E (TLSCert c) (TLSKey c) = Inr (TLSCertificate e)"
proof -
  obtain c st closed where c: "loaded = Inr c" "TLSCert c \<noteq> []"
    and s: "Start ul E c \<lparr>Certificate = None, InMemory = False\<rparr> = (Inr e, st, closed)"
    using assms by (auto simp: command_def tryR_Inr_iff Let_def split: sum.splits prod.splits if_splits)
  from Start_result [OF s] obtain c0 cert leaf where v: "Validate_Config ul (start_config c) = Inr c0"
    "serverCertificate E c0 None = Inr cert" "started E False c0 cert leaf e st"
    by auto
  then have "TLSCertificate e = cert" by (simp add: started_def Let_def)
  with v(2) TLSCert_validated [OF v(1)] c show ?thesis by (auto simp: serverCertificate_def)
qed

section \<open>The relay\<close>

text \<open>\<^verbatim>\<open>io.Copy(dst, src)\<close>: what is read, at most \<open>Suc n\<close> bytes at a time, is written, until either fails.\<close>

function io_copy :: "nat \<Rightarrow> conn \<Rightarrow> conn \<Rightarrow> go_error option \<times> conn \<times> conn" where
  "io_copy n dst src =
     (if Inp src = [] then (if Fin src = EOF then None else Some (Fin src), dst, src)
      else case WriteConn (take (Suc n) (Inp src)) dst of
        (Inl e, dst) \<Rightarrow> (Some e, dst, src\<lparr>Inp := drop (Suc n) (Inp src)\<rparr>)
      | (Inr _, dst) \<Rightarrow> io_copy n dst (src\<lparr>Inp := drop (Suc n) (Inp src)\<rparr>))"
  by pat_completeness auto

termination
  by (relation "measure (\<lambda>(n, dst, src). length (Inp src))") auto

declare io_copy.simps [simp del]

lemma io_copy_prefix:
  "io_copy n dst src = (e, dst', src') \<Longrightarrow> \<exists>k. Out dst' = Out dst @ take k (Inp src) \<and>
     (length (Inp src) \<le> Budget dst \<longrightarrow> Out dst' = Out dst @ Inp src)"
proof (induction n dst src arbitrary: e dst' src' rule: io_copy.induct)
  case (1 n dst src)
  show ?case
  proof (cases "Inp src = [] \<or> Budget dst = 0")
    case True
    then have "Out dst' = Out dst" using 1(2) by (auto simp: io_copy.simps [of n dst src] WriteConn_def split: if_splits)
    with True show ?thesis by (intro exI [of _ 0]) auto
  next
    case False
    let ?src = "src\<lparr>Inp := drop (Suc n) (Inp src)\<rparr>"
    let ?dst = "dst\<lparr>Out := Out dst @ take (Suc n) (Inp src), Budget := Budget dst - 1\<rparr>"
    have w: "WriteConn (take (Suc n) (Inp src)) dst = (Inr (), ?dst)" using False by (simp add: WriteConn_def)
    have "io_copy n ?dst ?src = (e, dst', src')"
      using 1(2) False w by (simp add: io_copy.simps [of n dst src])
    from 1(1) [OF _ w [symmetric] refl this] False obtain k where
      k: "Out dst' = Out dst @ take (Suc n) (Inp src) @ take k (drop (Suc n) (Inp src))"
      "length (Inp src) - Suc n \<le> Budget dst - 1 \<longrightarrow> Out dst' = Out dst @ Inp src"
      by auto
    have "take (Suc n) (Inp src) @ take k (drop (Suc n) (Inp src)) = take (Suc n + k) (Inp src)"
      by (rule take_add [symmetric])
    with k show ?thesis by (intro exI [of _ "Suc n + k"]) auto
  qed
qed

text \<open>
  Two copies run at the same time; when the first ends, both connections are closed, which ends the other
  wherever it is. \<open>first\<close> says whether the copy from \<open>b\<close> to \<open>a\<close> ends first, and \<open>k\<close> how much the other
  has read by then.
\<close>

definition cut_off :: "nat \<Rightarrow> conn \<Rightarrow> conn" where
  "cut_off k c = c\<lparr>Inp := take k (Inp c), Fin := ErrClosed\<rparr>"

definition relay :: "nat \<Rightarrow> bool \<Rightarrow> nat \<Rightarrow> conn \<Rightarrow> conn \<Rightarrow> conn \<times> conn" where
  "relay n first k a b =
     (let (ea, a', b1) = io_copy n a (if first then b else cut_off k b);
          (eb, b', a1) = io_copy n b (if first then cut_off k a else a)
      in (a', b'))"

text \<open>Each side receives a prefix of what the other sent, and the direction that ends first is complete.\<close>

lemma relay_faithful:
  "(\<exists>i j. Out (fst (relay n first k a b)) = Out a @ take i (Inp b) \<and>
      Out (snd (relay n first k a b)) = Out b @ take j (Inp a)) \<and>
   (first \<and> length (Inp b) \<le> Budget a \<longrightarrow> Out (fst (relay n first k a b)) = Out a @ Inp b) \<and>
   (\<not> first \<and> length (Inp a) \<le> Budget b \<longrightarrow> Out (snd (relay n first k a b)) = Out b @ Inp a)"
proof -
  obtain ea a' b1 where 1: "io_copy n a (if first then b else cut_off k b) = (ea, a', b1)"
    by (cases "io_copy n a (if first then b else cut_off k b)")
  obtain eb b' a1 where 2: "io_copy n b (if first then cut_off k a else a) = (eb, b', a1)"
    by (cases "io_copy n b (if first then cut_off k a else a)")
  have r: "relay n first k a b = (a', b')" by (simp add: relay_def 1 2)
  have cut: "\<exists>i'. take i (Inp (cut_off k c)) = take i' (Inp c)" for i c
    by (intro exI [of _ "min i k"]) (simp add: cut_off_def)
  from io_copy_prefix [OF 1] io_copy_prefix [OF 2] cut show ?thesis
    unfolding r by (cases first) (auto, (metis cut)+)
qed

end
