(* ===== verification/E2eCommand.thy ===== *)
theory E2eCommand
  imports GoNet
begin

text \<open>
  The command that runs end-to-end scenarios (\<^verbatim>\<open>cmd/db-iam-auth-emulator-proxy-e2e\<close>). Parsing the
  flags, checking a scenario and running one with containers are the fields of \<open>e2e_env\<close>; the lines
  the command prints are values, so that what it reports is part of its result.
\<close>

record e2e_flags =
  CheckOnly :: bool
  Proxy :: string
  FixtureImage :: string
  ScenarioTimeout :: time
  Args :: "string list"

record e2e_options =
  ProxyBinary :: string
  Image :: string

text \<open>\<open>RunFile\<close> has the time limit of the scenario and its path.\<close>

record e2e_env =
  ParseFlags :: "string list \<Rightarrow> e2e_flags result"
  Check :: "string \<Rightarrow> unit result"
  Preflight :: "unit result"
  RunFile :: "e2e_options \<Rightarrow> time \<Rightarrow> string \<Rightarrow> unit result"

datatype e2e_line = Parses string | Banner string | Passed string | Failure string go_error

fun e2e_check :: "e2e_env \<Rightarrow> string list \<Rightarrow> unit result \<times> e2e_line list" where
  "e2e_check E [] = (Inr (), [])"
| "e2e_check E (path # paths) =
     (case Check E path of
        Inl err \<Rightarrow> (Inl (Wrapf ''%s: %w'' [path] err), [])
      | Inr _ \<Rightarrow> (case e2e_check E paths of (r, out) \<Rightarrow> (r, Parses path # out)))"

fun e2e_scenarios :: "e2e_env \<Rightarrow> e2e_options \<Rightarrow> time \<Rightarrow> string list \<Rightarrow> nat \<Rightarrow> nat \<times> e2e_line list" where
  "e2e_scenarios E options timeout [] failed = (failed, [])"
| "e2e_scenarios E options timeout (path # paths) failed =
     (case RunFile E options timeout path of
        Inl err \<Rightarrow> (case e2e_scenarios E options timeout paths (failed + 1) of
          (n, out) \<Rightarrow> (n, Banner path # Failure path err # out))
      | Inr _ \<Rightarrow> (case e2e_scenarios E options timeout paths failed of
          (n, out) \<Rightarrow> (n, Banner path # Passed path # out)))"

definition e2e_run :: "e2e_env \<Rightarrow> string list \<Rightarrow> unit result \<times> e2e_line list" where
  "e2e_run E args =
     (case ParseFlags E args of
        Inl err \<Rightarrow> (Inl err, [])
      | Inr f \<Rightarrow>
      if length (Args f) = 0 then (Inl (NewErr ''no scenario files''), [])
      else if CheckOnly f then e2e_check E (Args f)
      else case Preflight E of
        Inl err \<Rightarrow> (Inl err, [])
      | Inr _ \<Rightarrow>
      (case e2e_scenarios E \<lparr>ProxyBinary = Proxy f, Image = FixtureImage f\<rparr> (ScenarioTimeout f) (Args f) 0 of
        (failed, out) \<Rightarrow>
          (if failed > 0 then Inl (Errorf ''%d scenarios failed'' [dec_string failed]) else Inr (), out)))"

definition e2e_exit :: "e2e_env \<Rightarrow> string list \<Rightarrow> nat" where
  "e2e_exit E args = (case fst (e2e_run E args) of Inl _ \<Rightarrow> 1 | Inr _ \<Rightarrow> 0)"

section \<open>What the exit status means\<close>

text \<open>The reference: which scenarios fail, each on its own.\<close>

definition scenario_lines :: "e2e_env \<Rightarrow> e2e_options \<Rightarrow> time \<Rightarrow> string \<Rightarrow> e2e_line list" where
  "scenario_lines E options timeout path =
     [Banner path, case RunFile E options timeout path of Inl err \<Rightarrow> Failure path err | Inr _ \<Rightarrow> Passed path]"

lemma e2e_scenarios_count:
  "e2e_scenarios E options timeout paths failed =
     (failed + length (filter (\<lambda>p. \<exists>err. RunFile E options timeout p = Inl err) paths),
      concat (map (scenario_lines E options timeout) paths))"
  by (induction paths arbitrary: failed) (auto simp: scenario_lines_def split: sum.split)

lemma e2e_check_ok: "fst (e2e_check E paths) = Inr () \<longleftrightarrow> (\<forall>p\<in>set paths. Check E p = Inr ())"
  by (induction paths) (auto split: sum.split prod.split)

text \<open>
  The command succeeds exactly when all scenarios it was given do, and no failure keeps another
  scenario from being run and reported.
\<close>

theorem e2e_exit_status:
  assumes "ParseFlags E args = Inr f" and "Args f \<noteq> []" and "\<not> CheckOnly f" and "Preflight E = Inr ()"
  defines "options \<equiv> \<lparr>ProxyBinary = Proxy f, Image = FixtureImage f\<rparr>"
  shows "(e2e_exit E args = 0 \<longleftrightarrow> (\<forall>p\<in>set (Args f). RunFile E options (ScenarioTimeout f) p = Inr ())) \<and>
    snd (e2e_run E args) = concat (map (scenario_lines E options (ScenarioTimeout f)) (Args f))"
proof -
  have "(\<exists>err. RunFile E options t p = Inl err) \<longleftrightarrow> RunFile E options t p \<noteq> Inr ()" for t p
    by (cases "RunFile E options t p") auto
  then show ?thesis
    using assms(1-4) by (auto simp: e2e_exit_def e2e_run_def e2e_scenarios_count options_def filter_empty_conv)
qed

lemma e2e_check_status:
  "ParseFlags E args = Inr f \<Longrightarrow> Args f \<noteq> [] \<Longrightarrow> CheckOnly f \<Longrightarrow>
     e2e_exit E args = 0 \<longleftrightarrow> (\<forall>p\<in>set (Args f). Check E p = Inr ())"
  using e2e_check_ok [of E "Args f"]
  by (cases "fst (e2e_check E (Args f))") (auto simp: e2e_exit_def e2e_run_def)

end
