(* ===== verification/Spec2Isabelle.thy ===== *)
theory Spec2Isabelle
  imports HttpTokens FakedbProps MemConnProps Shutdown Embedding E2eCommand
begin

text \<open>
  \<^bold>\<open>A verification of the IAM database authentication emulator proxy.\<close>

  \<^bold>\<open>The program.\<close> The proxy plays the part of three clouds for tests of database clients. A
  configuration (\<^verbatim>\<open>iamproxy/config.go\<close>) declares listeners, each for one engine, one identity
  provider and one upstream server, and principals with the listeners they are granted and the
  upstream account each grant uses. HTTP endpoints (\<^verbatim>\<open>iamproxy/http.go\<close>) hand out the credentials
  that the SDKs of AWS, Google and Azure look for; \<^verbatim>\<open>iamproxy/identity.go\<close> and \<^verbatim>\<open>iamproxy/aws.go\<close>
  decide whether a database password is such a credential; the MySQL and PostgreSQL front ends
  (\<^verbatim>\<open>iamproxy/mysql.go\<close>, \<^verbatim>\<open>iamproxy/postgres.go\<close>) run the server side of the login, ask that
  service, dial the upstream with the granted account and then relay bytes. \<^verbatim>\<open>iamproxy/server.go\<close>
  owns the sockets, the serving certificate and the lives of the sessions,
  \<^verbatim>\<open>iamproxy/memconn.go\<close> replaces sockets in embedded use, and two adapters and the command are the
  outermost layer.

  \<^bold>\<open>The theories, from the bottom up.\<close>

  \<^item> \<open>Prelude\<close>: results (\<^verbatim>\<open>error\<close> as a sum type, with a run-time panic as one of the errors), byte
    strings, and package \<^verbatim>\<open>strings\<close>. \<open>GoNet\<close> and \<open>GoCodec\<close>: the parts of Go's standard library
    that the proxy computes with (host and port, loopback addresses, decimals; hexadecimal, base64,
    URLs and queries, time layouts). They model the language and map to no line of the repository.
  \<^item> \<open>ProxyConfig\<close> is \<^verbatim>\<open>config.go\<close>: \<open>ParseConfig\<close>, \<open>LoadConfig\<close>, \<open>Validate_Config\<close> with its loops and
    dictionaries, \<open>loopbackAddress\<close>, \<open>Clone\<close>, \<open>Granted\<close>.
  \<^item> \<open>Service\<close>, \<open>Aws\<close>, \<open>AwsToken\<close>, \<open>Identity\<close> are \<^verbatim>\<open>identity.go\<close> and \<^verbatim>\<open>aws.go\<close>: the record \<open>service\<close>, the
    issuers, and \<open>Validate\<close> with its three providers. \<open>AwsToken\<close> holds a reference signer.
  \<^item> \<open>Http\<close>, \<open>HttpSafety\<close>, \<open>HttpTokens\<close> are \<^verbatim>\<open>http.go\<close>: the router \<open>serve\<close> and the handlers on the
    state \<open>mockHTTP\<close>; histories of requests; and the way from a credential to a login.
  \<^item> \<open>Wire\<close> and \<open>Session\<close>: connections as values, and what the two front ends share.
  \<^item> \<open>MySQL\<close>, \<open>MySQLProps\<close> are \<^verbatim>\<open>mysql.go\<close>; \<open>Postgres\<close>, \<open>PostgresProps\<close>, \<open>PostgresSession\<close>,
    \<open>PostgresCancel\<close>, \<open>PostgresExamples\<close> are \<^verbatim>\<open>postgres.go\<close>. \<open>serveMySQL\<close> and \<open>servePostgres\<close> are
    whole sessions up to the relay, as functions from the bytes of a client to a record of what the
    session answered, dialled and decided.
  \<^item> \<open>MemConn\<close>, \<open>MemConnProps\<close> are \<^verbatim>\<open>memconn.go\<close>: the critical sections of a buffer as functions and
    the step relation \<open>mem_step\<close> of all goroutines.
  \<^item> \<open>Server\<close>, \<open>ServerProps\<close>, \<open>ServerRun\<close>, \<open>Shutdown\<close> are \<^verbatim>\<open>server.go\<close>: \<open>serverCertificate\<close>, \<open>Start\<close> on the state
    \<open>start_state\<close> of the function's variables, \<open>DialContext\<close>, and the step relations \<open>accept_step\<close> of one accept
    loop and \<open>life_step\<close> of all goroutines of an emulator until \<^verbatim>\<open>Close\<close> returns.
  \<^item> \<open>Embedding\<close>: \<open>trust\<close>, the adapters (\<^verbatim>\<open>pgxdial\<close>, \<^verbatim>\<open>mysqldial\<close>), the command, and the relay.
    \<open>E2eCommand\<close>: the command that runs end-to-end scenarios, from its flags to its exit status.
  \<^item> \<open>Fakedb\<close>, \<open>FakedbProps\<close> are \<^verbatim>\<open>internal/fakedb\<close>: the upstream servers of the hermetic tests, and the
    proxy composed with them.

  \<^bold>\<open>What is shown.\<close>

  \<^item> Configuration: the loops of \<open>Validate_Config\<close> accept exactly the configurations of the
    declarative predicate \<open>valid_config\<close>; in these no upstream account belongs to two principals of a
    listener, so that the session layer need not look for that.
  \<^item> Tokens: every validator is sound (what it accepts was signed or issued for this listener,
    principal and time) and complete for tokens made the documented way; the canonical AWS query is
    injective and independent of map order; no validator panics.
  \<^item> Endpoints: invariants of the registries over every history of requests; which requests disclose
    a secret; that the tokens handed out do log in.
  \<^item> Front ends: no backend is dialled before TLS and a successful login, and then with the account
    of the principal that logged in; parsers neither panic nor read more than their bounds, and read
    back what a client encodes; the MySQL relay passes on every command but a change of user; a
    PostgreSQL cancel request reaches the live session with its key on the same listener, and only
    such a session.
  \<^item> With an upstream server behind it: the relay and the test server together answer exactly the
    commands that are not changes of user, and a client's cancel request is recorded by the server
    its session runs on. Serving a PostgreSQL connection ends if every message takes a byte.
  \<^item> In-memory connections: the invariant that a buffer is a bounded queue, refinement of a byte
    channel without locks or waiting, and the absence of lost wake-ups.
  \<^item> Server: \<open>Start\<close> closes all it has opened when it fails and remembers all of it when it succeeds;
    sockets, routes and the effective configuration agree; at most \<open>max_sessions\<close> sessions of an
    accept loop run at a time and each connection is closed; the certificate names exactly
    localhost, the loopback addresses and the listeners' hosts; \<open>Close\<close> can always return, and when it does all that \<open>Start\<close> opened is closed.

  \<^bold>\<open>Interfaces.\<close> \<open>token_store\<close> (in \<open>Service\<close>) is a registry in which a token just stored is found,
  and from which others disappear only once expired; the Google registry (\<open>google\<close>) and the IMDSv2 table (\<open>imdsv2\<close>) provide it. \<open>authenticator\<close> (in
  \<open>Identity\<close>) is what the sessions require of a login: who is let in is configured and granted the
  listener, and a refusal says nothing; \<open>Validate\<close> provides it (\<open>iam\<close>). \<open>framing\<close> (in \<open>Wire\<close>) is a protocol whose frames are read back one by one from a
  concatenation; MySQL packets (\<open>my_packets\<close>) and PostgreSQL password messages (\<open>pg_passwords\<close>)
  provide it.

  \<^bold>\<open>Parameters.\<close> Code that is not in the repository is an argument of the definitions. \<open>platform\<close>
  holds SHA-256, RSA signing and verification, JSON and the Unicode case tables; \<open>env\<close> the clock and
  the random bytes of one HTTP request; \<open>my_env\<close> and \<open>pg_env\<close> TLS, randomness and the upstream client
  libraries; \<open>pgproto\<close> the messages of \<^verbatim>\<open>pgproto3\<close>; \<open>e2e_env\<close> scenarios; \<open>server_env\<close> the operating system's sockets, files and the X.509 library. The theorems
  that rely on documented behaviour of these (that RSA verifies what it signed, that JSON reads back
  what it wrote, that \<^verbatim>\<open>pgproto3\<close> recognises a cancel request) have it as a hypothesis; the others hold for any functions. The fixtures instantiate
  all parameters by concrete functions. Cryptographic strength is not assumed: soundness of a
  validator says that the signature check passed.

  \<^bold>\<open>Bounds and termination.\<close> There is no fuel. The loops over configurations, queries, parameters,
  packets and sockets are structural recursions or recursions with a measure, mostly the input that
  is left; the PostgreSQL test server, whose reads are the library's, is a partial function. The constants are the code's: packets, startup messages and in-memory buffers of at most
  1 MiB, 256 sessions per accept loop, and the lifetimes of tokens. Times are integers, in
  nanoseconds. Packet sequence numbers, capability flags, ports and process ids are words; the
  lengths in headers are read from their bytes and bounded before use. Every read of a
  connection ends with the bytes left or with the error that ends the connection; deadlines and
  timeouts are such errors.

  \<^bold>\<open>Concurrency.\<close> A handler or a session stage that the code protects with a mutex is one step. The
  histories of HTTP requests, the registry of cancel keys, the buffers of in-memory connections,
  the accept loop and the goroutines of an emulator are step relations or runs over any interleaving of such steps.

  \<^bold>\<open>Not modelled.\<close> Logging; the parsing of HTTP itself; PEM output; the timing of deadlines; the
  order in which the two directions of a MySQL relay write to the client;
  flags and signals of the commands; the container harness of \<^verbatim>\<open>internal/e2e\<close>, whose work is running
  processes.
\<close>

end
